theory Spec2Isabelle
  imports Complex_Main
begin

section \<open>JavaScript values\<close>

text \<open>
  The client handles untyped values: the records of a push (\<open>any[]\<close>), the parameters of
  a query and the bodies of HTTP responses (\<open>res.data\<close>). A number is an IEEE double; the
  code only asks whether it is an integer (\<open>Number.isInteger\<close>), so a finite number is
  kept as the rational it denotes and the three non-finite doubles are constructors.
  An object is the list of its own enumerable properties in enumeration order.
\<close>

datatype jsnumber = Finite rat | NaN | PosInfinity | NegInfinity

datatype jsval =
    JUndefined
  | JNull
  | JBool bool
  | JNum jsnumber
  | JStr string
  | JDate int
  | JArr "jsval list"
  | JObj "(string \<times> jsval) list"

fun Number_isInteger :: "jsnumber \<Rightarrow> bool" where
  "Number_isInteger (Finite q) = (of_int \<lfloor>q\<rfloor> = q)"
| "Number_isInteger NaN = False"
| "Number_isInteger PosInfinity = False"
| "Number_isInteger NegInfinity = False"

text \<open>Truthiness, as \<open>if (val)\<close>, \<open>!x\<close> and \<open>a || b\<close> test it.\<close>

fun truthy :: "jsval \<Rightarrow> bool" where
  "truthy JUndefined = False"
| "truthy JNull = False"
| "truthy (JBool b) = b"
| "truthy (JNum (Finite q)) = (q \<noteq> 0)"
| "truthy (JNum NaN) = False"
| "truthy (JNum PosInfinity) = True"
| "truthy (JNum NegInfinity) = True"
| "truthy (JStr s) = (s \<noteq> [])"
| "truthy (JDate t) = True"
| "truthy (JArr xs) = True"
| "truthy (JObj kvs) = True"

section \<open>Errors\<close>

text \<open>
  \<open>exceptions.ts\<close> declares \<open>ChakraAPIError\<close> (a message and an optional response) and
  its subclass \<open>ChakraAuthError\<close>; the transport rejects with an axios error, which has
  a response (status and body) when the server answered and none on a network failure;
  the code itself throws plain \<open>Error\<close>s, and the runtime throws \<open>TypeError\<close> when a
  property of \<open>undefined\<close> or \<open>null\<close> is read or a non-function is called.
  The one reachable \<open>ChakraAuthError\<close> is built without a response, so the constructor
  carries its message only. The message of a \<open>ChakraAPIError\<close> is
  \<open>err.response.data?.error || err.message\<close>, a value of the response body or a string.
\<close>

type_synonym response = "nat \<times> jsval"

datatype error =
    AxiosError string "response option"
  | ChakraAPIError jsval "response option"
  | ChakraAuthError string
  | Error string
  | TypeError

text \<open>\<open>err.response?.status\<close>\<close>

fun response_status :: "error \<Rightarrow> nat option" where
  "response_status (AxiosError m r) = map_option fst r"
| "response_status (ChakraAPIError m r) = map_option fst r"
| "response_status (ChakraAuthError m) = None"
| "response_status (Error m) = None"
| "response_status TypeError = None"

text \<open>
  \<open>(axios.isAxiosError(err) && status === 401) || (err instanceof ChakraAPIError && status === 401)\<close>:
  every error that has a status is an axios error or a \<open>ChakraAPIError\<close>.
\<close>

definition isAuthError :: "error \<Rightarrow> bool" where
  "isAuthError err = (response_status err = Some 401)"

text \<open>
  Reading a property \<open>v.k\<close>, for the property names the client reads (\<open>token\<close>,
  \<open>presignedUrl\<close>, \<open>key\<close>, \<open>rows\<close>, \<open>columns\<close>, \<open>error\<close>, \<open>size\<close>), none of which
  is a built-in property of a string, number, boolean, date or array.
\<close>

fun get_prop :: "jsval \<Rightarrow> string \<Rightarrow> error + jsval" where
  "get_prop JUndefined k = Inl TypeError"
| "get_prop JNull k = Inl TypeError"
| "get_prop (JObj kvs) k = Inr (case map_of kvs k of Some v \<Rightarrow> v | None \<Rightarrow> JUndefined)"
| "get_prop v k = Inr JUndefined"

section \<open>The client and the outside world\<close>

text \<open>
  Everything the client asks of the outside is an event: the requests of the HTTP
  transport (one constructor per endpoint, with the request body), and the local calls
  that can fail (the temporary file, the Parquet writer, \<open>fs.stat\<close>). The arguments
  that come out of earlier responses (the staged key, the signed URL, the path of the
  temporary file, the size) are passed on as they came, as values.
\<close>

datatype event =
    PostServers "string option" "string option" "string option"
  | PostDatabases "string option"
  | PostQuery string "jsval list option"
  | GetPresignedUpload string
  | AxiosPut jsval jsval jsval
  | PostImport string jsval
  | PostImportDedupe string jsval "string list"
  | DeleteFiles jsval
  | TmpFile
  | OpenFile "(string \<times> string) list" jsval
  | AppendRow jsval
  | CloseWriter
  | Stat jsval
  | Cleanup jsval

datatype outcome = Resolve jsval | Reject error

text \<open>
  The outside world is a parameter: \<open>respond\<close> answers an event given all the events before
  it (so a transport may answer 401 twice and then 200), and \<open>uuidv4\<close> is the random
  identifier drawn at that moment.
\<close>

record env =
  respond :: "event list \<Rightarrow> event \<Rightarrow> outcome"
  uuidv4 :: "event list \<Rightarrow> string"

text \<open>
  The fields of class \<open>Chakra\<close>; \<open>authorization\<close> is
  \<open>axiosInstance.defaults.headers.common['Authorization']\<close>, and \<open>trace\<close> is the list
  of events the client has issued so far, oldest first.
\<close>

record chakra =
  dbSessionKey :: string
  tokenValue :: "string option"
  authorization :: "string option"
  quiet :: bool
  trace :: "event list"

text \<open>
  An asynchronous method is a function from the state to a result (the rejection or the
  value) and the new state. \<open>await a; b\<close> is \<open>io_bind\<close>, \<open>try/catch\<close> is \<open>io_catch\<close>
  and \<open>try/finally\<close> is \<open>io_finally\<close>.
\<close>

type_synonym 'a io = "chakra \<Rightarrow> (error + 'a) \<times> chakra"

definition io_return :: "'a \<Rightarrow> 'a io" where
  "io_return x = (\<lambda>s. (Inr x, s))"

definition io_throw :: "error \<Rightarrow> 'a io" where
  "io_throw e = (\<lambda>s. (Inl e, s))"

definition io_bind :: "'a io \<Rightarrow> ('a \<Rightarrow> 'b io) \<Rightarrow> 'b io" where
  "io_bind m f = (\<lambda>s. case m s of (Inl e, s') \<Rightarrow> (Inl e, s') | (Inr x, s') \<Rightarrow> f x s')"

definition io_catch :: "'a io \<Rightarrow> (error \<Rightarrow> 'a io) \<Rightarrow> 'a io" where
  "io_catch m h = (\<lambda>s. case m s of (Inl e, s') \<Rightarrow> h e s' | (Inr x, s') \<Rightarrow> (Inr x, s'))"

definition io_finally :: "'a io \<Rightarrow> (chakra \<Rightarrow> chakra) \<Rightarrow> 'a io" where
  "io_finally m c = (\<lambda>s. case m s of (r, s') \<Rightarrow> (r, c s'))"

definition io_lift :: "error + 'a \<Rightarrow> 'a io" where
  "io_lift r = (\<lambda>s. (r, s))"

text \<open>One awaited call to the outside: the event is recorded and the world answers.\<close>

definition call :: "env \<Rightarrow> event \<Rightarrow> jsval io" where
  "call w ev = (\<lambda>s.
     (case respond w (trace s) ev of Resolve v \<Rightarrow> Inr v | Reject e \<Rightarrow> Inl e,
      s\<lparr>trace := trace s @ [ev]\<rparr>))"

section \<open>Strings\<close>

text \<open>\<open>String.prototype.split\<close> with a one-character separator: \<open>''''.split('.')\<close> is \<open>['''']\<close>.\<close>

fun js_split :: "char \<Rightarrow> string \<Rightarrow> string list" where
  "js_split d [] = [[]]"
| "js_split d (c # cs) =
     (if c = d then [] # js_split d cs
      else (case js_split d cs of [] \<Rightarrow> [[c]] | p # ps \<Rightarrow> (c # p) # ps))"

definition startsWith :: "string \<Rightarrow> string \<Rightarrow> bool" where
  "startsWith s p = (take (length p) s = p)"

text \<open>An element of a destructured array: \<open>undefined\<close> past the end.\<close>

definition nth_opt :: "'a list \<Rightarrow> nat \<Rightarrow> 'a option" where
  "nth_opt xs i = (if i < length xs then Some (xs ! i) else None)"

text \<open>A string or \<open>undefined\<close> inside a template literal.\<close>

definition template :: "string option \<Rightarrow> string" where
  "template x = (case x of Some s \<Rightarrow> s | None \<Rightarrow> ''undefined'')"

definition quote :: char where
  "quote = CHR 0x27"

section \<open>Authentication\<close>

definition BASE_URL :: string where
  "BASE_URL = ''https://api.chakra.dev''"

definition TOKEN_PREFIX :: string where
  "TOKEN_PREFIX = ''DDB_''"

definition Chakra :: "string \<Rightarrow> bool \<Rightarrow> chakra" where
  "Chakra key q =
     \<lparr>dbSessionKey = key, tokenValue = None, authorization = None, quiet = q, trace = []\<rparr>"

text \<open>The getter \<open>token\<close> and the setter: \<open>if (val)\<close> is false for \<open>null\<close> and for \<open>''''\<close>.\<close>

definition token :: "chakra \<Rightarrow> string option" where
  "token s = tokenValue s"

definition set_token :: "string option \<Rightarrow> chakra \<Rightarrow> chakra" where
  "set_token val s =
     (case val of
        Some v \<Rightarrow>
          if v \<noteq> [] then s\<lparr>tokenValue := val, authorization := Some (''Bearer '' @ v)\<rparr>
          else s\<lparr>tokenValue := val, authorization := None\<rparr>
      | None \<Rightarrow> s\<lparr>tokenValue := val, authorization := None\<rparr>)"

text \<open>\<open>!this.token\<close>\<close>

definition no_token :: "chakra \<Rightarrow> bool" where
  "no_token s = (case token s of None \<Rightarrow> True | Some v \<Rightarrow> v = [])"

text \<open>
  \<open>handleApiError\<close> never returns: an axios error with a response becomes a
  \<open>ChakraAPIError\<close> with the same response, anything else is thrown again as it is.
  \<open>err.response.data?.error\<close> is \<open>undefined\<close> when the body is \<open>null\<close> or \<open>undefined\<close>.
  The error carries the value handed to its constructor: the \<open>message\<close> of the JavaScript
  object is that value converted to a string, which changes nothing when it is a string.
\<close>

definition api_message :: "string \<Rightarrow> jsval \<Rightarrow> jsval" where
  "api_message m d =
     (case get_prop d ''error'' of
        Inl _ \<Rightarrow> JStr m
      | Inr v \<Rightarrow> if truthy v then v else JStr m)"

fun api_error :: "error \<Rightarrow> error" where
  "api_error (AxiosError m (Some (st, d))) = ChakraAPIError (api_message m d) (Some (st, d))"
| "api_error err = err"

definition handleApiError :: "error \<Rightarrow> 'a io" where
  "handleApiError err = io_throw (api_error err)"

definition fetchToken :: "env \<Rightarrow> jsval io" where
  "fetchToken w = (\<lambda>s.
     (let parts = js_split CHR '':'' (dbSessionKey s);
          accessKeyId = nth_opt parts 0;
          secretAccessKey = nth_opt parts 1;
          username = nth_opt parts 2
      in io_catch
           (io_bind (call w (PostServers accessKeyId secretAccessKey username))
              (\<lambda>data. io_lift (get_prop data ''token'')))
           handleApiError) s)"

text \<open>
  \<open>login\<close>: \<open>token.startsWith\<close> is a \<open>TypeError\<close> when the token of the response is not
  a string. The progress bar and the console are not modelled.
\<close>

definition login :: "env \<Rightarrow> unit io" where
  "login w =
     io_bind (fetchToken w)
       (\<lambda>tok. case tok of
          JStr t \<Rightarrow>
            if \<not> startsWith t TOKEN_PREFIX
            then io_throw (Error (''Token must start with '' @ [quote] @ TOKEN_PREFIX @ [quote]))
            else (\<lambda>s. (Inr (), set_token (Some t) s))
        | _ \<Rightarrow> io_throw TypeError)"

definition maxAttempts :: nat where
  "maxAttempts = 3"

text \<open>
  \<open>ensureAuthenticated\<close>: the \<open>while\<close> loop, with its counter \<open>attempt\<close> as an argument.
  Both calls of \<open>login\<close> stand outside the \<open>try\<close>, so a failed login leaves the loop.
\<close>

function ensureAuthenticated_loop :: "env \<Rightarrow> 'a io \<Rightarrow> nat \<Rightarrow> 'a io" where
  "ensureAuthenticated_loop w operation attempt s =
     (if attempt < maxAttempts then
        (case (if no_token s then login w s else (Inr (), s)) of
           (Inl e, s1) \<Rightarrow> (Inl e, s1)
         | (Inr u, s1) \<Rightarrow>
             (case operation s1 of
                (Inr x, s2) \<Rightarrow> (Inr x, s2)
              | (Inl err, s2) \<Rightarrow>
                  if isAuthError err then
                    (case login w s2 of
                       (Inl e, s3) \<Rightarrow> (Inl e, s3)
                     | (Inr u', s3) \<Rightarrow> ensureAuthenticated_loop w operation (attempt + 1) s3)
                  else (Inl err, s2)))
      else (Inl (ChakraAuthError ''Failed to authenticate after 3 attempts.''), s))"
  by pat_completeness auto
termination
  by (relation "measure (\<lambda>(w, operation, attempt, s). maxAttempts - attempt)") auto

declare ensureAuthenticated_loop.simps [simp del]

definition ensureAuthenticated :: "env \<Rightarrow> 'a io \<Rightarrow> 'a io" where
  "ensureAuthenticated w operation = ensureAuthenticated_loop w operation 0"

section \<open>Queries\<close>

text \<open>The character class \<open>\d\<close> and the longest run of digits at the head of a string.\<close>

definition is_digit :: "char \<Rightarrow> bool" where
  "is_digit c = (48 \<le> (of_char c :: nat) \<and> (of_char c :: nat) \<le> 57)"

definition digits :: "string \<Rightarrow> string" where
  "digits cs = takeWhile is_digit cs"

text \<open>
  \<open>parseInt(g1, 10)\<close> on a non-empty string of digits. The double it returns is exact
  below \<open>2^53\<close> and at least \<open>2^53\<close> otherwise, which is beyond the length of any array,
  so the exact number decides the bounds test the same way.
\<close>

definition parseInt :: "string \<Rightarrow> nat" where
  "parseInt ds = foldl (\<lambda>n c. 10 * n + (of_char c - 48)) 0 ds"

text \<open>\<open>/\$\d+/.test(query)\<close>\<close>

fun queryHasPositionalParameters :: "string \<Rightarrow> bool" where
  "queryHasPositionalParameters [] = False"
| "queryHasPositionalParameters (c # cs) =
     ((c = CHR ''$'' \<and> digits cs \<noteq> []) \<or> queryHasPositionalParameters cs)"

text \<open>
  \<open>query.replace(/\$(\d+)/g, ...)\<close>: the matches are taken from left to right, each a
  \<open>$\<close> with the longest run of digits after it; the callback throws at the first index
  out of range, and otherwise pushes \<open>parameters[idx]\<close> and returns \<open>?\<close>.
\<close>

function replacePositionalParameters :: "string \<Rightarrow> jsval list \<Rightarrow> error + (string \<times> jsval list)" where
  "replacePositionalParameters [] parameters = Inr ([], [])"
| "replacePositionalParameters (c # cs) parameters =
     (if c = CHR ''$'' \<and> digits cs \<noteq> [] then
        (let idx = int (parseInt (digits cs)) - 1 in
         if idx < 0 \<or> idx \<ge> int (length parameters)
         then Inl (Error ''Chakra DB does not support more than 8 positional parameters'')
         else (case replacePositionalParameters (dropWhile is_digit cs) parameters of
                 Inl e \<Rightarrow> Inl e
               | Inr (newQuery, newParameters) \<Rightarrow>
                   Inr (CHR ''?'' # newQuery, parameters ! nat idx # newParameters)))
      else (case replacePositionalParameters cs parameters of
              Inl e \<Rightarrow> Inl e
            | Inr (newQuery, newParameters) \<Rightarrow> Inr (c # newQuery, newParameters)))"
  by pat_completeness auto
termination
  by (relation "measure (\<lambda>(q, ps). length q)") (auto simp: length_dropWhile_le less_Suc_eq_le)

text \<open>The decimal numeral of an array index, as a property name.\<close>

fun decimal :: "nat \<Rightarrow> string" where
  "decimal n =
     (if n < 10 then [char_of (48 + n)]
      else decimal (n div 10) @ [char_of (48 + n mod 10)])"

declare decimal.simps [simp del]

text \<open>\<open>row[idx]\<close>\<close>

fun index_value :: "jsval \<Rightarrow> nat \<Rightarrow> error + jsval" where
  "index_value JUndefined i = Inl TypeError"
| "index_value JNull i = Inl TypeError"
| "index_value (JArr xs) i = Inr (if i < length xs then xs ! i else JUndefined)"
| "index_value (JStr s) i = Inr (if i < length s then JStr [s ! i] else JUndefined)"
| "index_value (JObj kvs) i = get_prop (JObj kvs) (decimal i)"
| "index_value v i = Inr JUndefined"

text \<open>
  \<open>columns.forEach((col, idx) => { obj[col] = row[idx]; })\<close>, from index \<open>idx\<close> on. The
  record is kept as the assignments in the order they are made, column and value: the
  object \<open>obj\<close> is what they build, so of two assignments to one column the later one
  gives the value, and the order of the keys of \<open>obj\<close> is not that of the list when a
  column is named twice or is named by a number.
\<close>

fun assign_columns :: "jsval list \<Rightarrow> nat \<Rightarrow> jsval \<Rightarrow> error + (jsval \<times> jsval) list" where
  "assign_columns [] idx row = Inr []"
| "assign_columns (col # cols) idx row =
     (case index_value row idx of
        Inl e \<Rightarrow> Inl e
      | Inr v \<Rightarrow>
          (case assign_columns cols (Suc idx) row of
             Inl e \<Rightarrow> Inl e
           | Inr obj \<Rightarrow> Inr ((col, v) # obj)))"

text \<open>\<open>rows.map(...)\<close>; \<open>columns.forEach\<close> is a \<open>TypeError\<close> unless \<open>columns\<close> is an array.\<close>

fun map_rows :: "jsval \<Rightarrow> jsval list \<Rightarrow> error + (jsval \<times> jsval) list list" where
  "map_rows columns [] = Inr []"
| "map_rows columns (row # rows) =
     (case (case columns of JArr cols \<Rightarrow> assign_columns cols 0 row | _ \<Rightarrow> Inl TypeError) of
        Inl e \<Rightarrow> Inl e
      | Inr obj \<Rightarrow>
          (case map_rows columns rows of
             Inl e \<Rightarrow> Inl e
           | Inr objs \<Rightarrow> Inr (obj # objs)))"

definition rows_to_records :: "jsval \<Rightarrow> error + (jsval \<times> jsval) list list" where
  "rows_to_records data =
     (case get_prop data ''rows'' of
        Inl e \<Rightarrow> Inl e
      | Inr rows \<Rightarrow>
          (case get_prop data ''columns'' of
             Inl e \<Rightarrow> Inl e
           | Inr columns \<Rightarrow>
               (case rows of JArr rs \<Rightarrow> map_rows columns rs | _ \<Rightarrow> Inl TypeError)))"

definition authenticated_execute ::
    "env \<Rightarrow> string \<Rightarrow> jsval list \<Rightarrow> (jsval \<times> jsval) list list io" where
  "authenticated_execute w query parameters = (\<lambda>s.
     if no_token s then (Inl (Error ''Authentication required''), s)
     else io_catch
            (io_bind
               (io_lift (if queryHasPositionalParameters query
                         then replacePositionalParameters query parameters
                         else Inr (query, parameters)))
               (\<lambda>(q, ps). io_bind (call w (PostQuery q (Some ps)))
                  (\<lambda>data. io_lift (rows_to_records data))))
            handleApiError s)"

definition execute :: "env \<Rightarrow> string \<Rightarrow> jsval list \<Rightarrow> (jsval \<times> jsval) list list io" where
  "execute w query parameters = ensureAuthenticated w (authenticated_execute w query parameters)"

section \<open>Push\<close>

fun mapJsTypeToDuckDbType :: "jsval \<Rightarrow> string" where
  "mapJsTypeToDuckDbType (JNum n) = (if Number_isInteger n then ''BIGINT'' else ''DOUBLE'')"
| "mapJsTypeToDuckDbType (JBool b) = ''BOOLEAN''"
| "mapJsTypeToDuckDbType (JDate t) = ''TIMESTAMP''"
| "mapJsTypeToDuckDbType v = ''VARCHAR''"

text \<open>The type of a field of the Parquet schema (the chain of tests in \<open>authenticated_push\<close>).\<close>

fun parquetFieldType :: "jsval \<Rightarrow> string" where
  "parquetFieldType (JNum n) = ''DOUBLE''"
| "parquetFieldType (JBool b) = ''BOOLEAN''"
| "parquetFieldType (JDate t) = ''TIMESTAMP_MILLIS''"
| "parquetFieldType v = ''UTF8''"

text \<open>
  The columns \<open>createTable\<close> declares (name and SQL type) and the fields of the Parquet
  schema (name and Parquet type), both from the entries of the sample.
\<close>

definition sql_columns :: "(string \<times> jsval) list \<Rightarrow> (string \<times> string) list" where
  "sql_columns entries = map (\<lambda>(col, val). (col, mapJsTypeToDuckDbType val)) entries"

definition schemaFields :: "(string \<times> jsval) list \<Rightarrow> (string \<times> string) list" where
  "schemaFields entries = map (\<lambda>(col, val). (col, parquetFieldType val)) entries"

text \<open>\<open>data[0]\<close>\<close>

definition sample_of :: "jsval list \<Rightarrow> jsval" where
  "sample_of data = (case data of [] \<Rightarrow> JUndefined | x # xs \<Rightarrow> x)"

text \<open>
  \<open>Object.entries\<close>: a \<open>TypeError\<close> on \<open>undefined\<close> and \<open>null\<close>, the indexed elements of
  an array or a string, nothing for a number, a boolean or a date.
\<close>

fun Object_entries :: "jsval \<Rightarrow> error + (string \<times> jsval) list" where
  "Object_entries JUndefined = Inl TypeError"
| "Object_entries JNull = Inl TypeError"
| "Object_entries (JObj kvs) = Inr kvs"
| "Object_entries (JArr xs) = Inr (zip (map decimal [0..<length xs]) xs)"
| "Object_entries (JStr s) = Inr (zip (map decimal [0..<length s]) (map (\<lambda>c. JStr [c]) s))"
| "Object_entries v = Inr []"

text \<open>\<open>Array.prototype.join\<close> on strings.\<close>

fun js_join :: "string \<Rightarrow> string list \<Rightarrow> string" where
  "js_join sep [] = []"
| "js_join sep [x] = x"
| "js_join sep (x # y # ys) = x @ sep @ js_join sep (y # ys)"

definition createDatabaseAndSchema :: "env \<Rightarrow> string \<Rightarrow> unit io" where
  "createDatabaseAndSchema w tableName =
     (let parts = js_split CHR ''.'' tableName;
          databaseName = nth_opt parts 0;
          schemaName = nth_opt parts 1;
          sql = ''CREATE SCHEMA IF NOT EXISTS '' @ template databaseName @ ''.'' @ template schemaName
      in io_bind
           (io_catch
              (io_bind (call w (PostDatabases databaseName)) (\<lambda>res. io_return ()))
              (\<lambda>err. if response_status err = Some 409 then io_return () else handleApiError err))
           (\<lambda>u. io_bind (call w (PostQuery sql None)) (\<lambda>res. io_return ())))"

definition createTable :: "env \<Rightarrow> string \<Rightarrow> jsval list \<Rightarrow> unit io" where
  "createTable w tableName data =
     io_bind (io_lift (Object_entries (sample_of data)))
       (\<lambda>entries.
          let columns = map (\<lambda>(col, sqlType). col @ '' '' @ sqlType) (sql_columns entries);
              createSql = ''CREATE TABLE IF NOT EXISTS '' @ tableName @ '' ('' @
                          js_join '', '' columns @ '')''
          in io_bind (call w (PostQuery createSql None)) (\<lambda>res. io_return ()))"

definition replaceExistingTable :: "env \<Rightarrow> string \<Rightarrow> unit io" where
  "replaceExistingTable w tableName =
     io_bind (call w (PostQuery (''DROP TABLE IF EXISTS '' @ tableName) None))
       (\<lambda>res. io_return ())"

definition requestPresignedUploadUrl :: "env \<Rightarrow> string \<Rightarrow> (jsval \<times> jsval) io" where
  "requestPresignedUploadUrl w fileName =
     io_bind (call w (GetPresignedUpload fileName))
       (\<lambda>data. io_lift
          (case get_prop data ''presignedUrl'' of
             Inl e \<Rightarrow> Inl e
           | Inr presignedUrl \<Rightarrow>
               (case get_prop data ''key'' of
                  Inl e \<Rightarrow> Inl e
                | Inr key \<Rightarrow> Inr (presignedUrl, key))))"

definition uploadParquetUsingPresignedUrl :: "env \<Rightarrow> jsval \<Rightarrow> jsval \<Rightarrow> unit io" where
  "uploadParquetUsingPresignedUrl w presignedUrl filePath =
     io_bind (call w (Stat filePath))
       (\<lambda>stats. io_bind (io_lift (get_prop stats ''size''))
          (\<lambda>size. io_bind (call w (AxiosPut presignedUrl filePath size))
             (\<lambda>res. io_return ())))"

definition importDataFromPresignedUrl :: "env \<Rightarrow> string \<Rightarrow> jsval \<Rightarrow> unit io" where
  "importDataFromPresignedUrl w tableName s3Key =
     io_bind (call w (PostImport tableName s3Key)) (\<lambda>res. io_return ())"

definition importDataFromAppendOnlyDedup ::
    "env \<Rightarrow> string \<Rightarrow> jsval \<Rightarrow> string list \<Rightarrow> unit io" where
  "importDataFromAppendOnlyDedup w tableName s3Key pkColumns =
     io_bind (call w (PostImportDedupe tableName s3Key pkColumns)) (\<lambda>res. io_return ())"

definition deleteFileFromS3 :: "env \<Rightarrow> jsval \<Rightarrow> unit io" where
  "deleteFileFromS3 w s3Key =
     io_bind (call w (DeleteFiles s3Key)) (\<lambda>res. io_return ())"

text \<open>\<open>for (const row of data) await writer.appendRow(row)\<close>\<close>

fun appendRows :: "env \<Rightarrow> jsval list \<Rightarrow> unit io" where
  "appendRows w [] = io_return ()"
| "appendRows w (row # rows) = io_bind (call w (AppendRow row)) (\<lambda>res. appendRows w rows)"

text \<open>
  The options of a push; a field left out is \<open>None\<close> and takes its default in the
  destructuring \<open>{ createIfMissing = true, replaceIfExists = false, dedupeOnAppend = false,
  primaryKeyColumns = [] } = options\<close>.
\<close>

record push_options =
  createIfMissing :: "bool option"
  replaceIfExists :: "bool option"
  dedupeOnAppend :: "bool option"
  primaryKeyColumns :: "string list option"

definition or_default :: "'a \<Rightarrow> 'a option \<Rightarrow> 'a" where
  "or_default d x = (case x of None \<Rightarrow> d | Some v \<Rightarrow> v)"

text \<open>
  \<open>cleanup()\<close> of the temporary file: the call is not awaited, so the event is recorded
  and no answer is read.
\<close>

definition cleanup :: "jsval \<Rightarrow> chakra \<Rightarrow> chakra" where
  "cleanup tempFile s = s\<lparr>trace := trace s @ [Cleanup tempFile]\<rparr>"

text \<open>
  The body of the inner \<open>try\<close> of \<open>authenticated_push\<close>: the Parquet file (the schema and
  the writer's opening are one event), the upload, the import, the deletion of the staged
  object.
\<close>

definition write_upload_import ::
    "env \<Rightarrow> string \<Rightarrow> jsval list \<Rightarrow> bool \<Rightarrow> string list \<Rightarrow> jsval \<Rightarrow> unit io" where
  "write_upload_import w fullName data dedupe pkColumns tempFile =
     io_bind (io_lift (Object_entries (sample_of data)))
       (\<lambda>entries.
     io_bind (call w (OpenFile (schemaFields entries) tempFile))
       (\<lambda>writer.
     io_bind (appendRows w data)
       (\<lambda>u.
     io_bind (call w CloseWriter)
       (\<lambda>closed. (\<lambda>s.
     io_bind (requestPresignedUploadUrl w (fullName @ ''_'' @ uuidv4 w (trace s) @ ''.parquet''))
       (\<lambda>presigned.
     io_bind (uploadParquetUsingPresignedUrl w (fst presigned) tempFile)
       (\<lambda>u.
     io_bind (if dedupe
              then importDataFromAppendOnlyDedup w fullName (snd presigned) pkColumns
              else importDataFromPresignedUrl w fullName (snd presigned))
       (\<lambda>u. deleteFileFromS3 w (snd presigned)))) s)))))"

text \<open>The outer \<open>try\<close> of \<open>authenticated_push\<close>, before its \<open>catch\<close>.\<close>

definition push_steps ::
    "env \<Rightarrow> string \<Rightarrow> jsval list \<Rightarrow> bool \<Rightarrow> bool \<Rightarrow> bool \<Rightarrow> string list \<Rightarrow> unit io" where
  "push_steps w fullName data create replace dedupe pkColumns =
     io_bind (if create \<or> replace then createDatabaseAndSchema w fullName else io_return ())
       (\<lambda>u.
     io_bind (if replace then replaceExistingTable w fullName else io_return ())
       (\<lambda>u.
     io_bind (if create \<or> replace then createTable w fullName data else io_return ())
       (\<lambda>u.
     io_bind (call w TmpFile)
       (\<lambda>tempFile.
     io_finally (write_upload_import w fullName data dedupe pkColumns tempFile)
       (cleanup tempFile)))))"

definition authenticated_push :: "env \<Rightarrow> string \<Rightarrow> jsval list \<Rightarrow> push_options \<Rightarrow> unit io" where
  "authenticated_push w tableName data options = (\<lambda>s.
     (let parts = js_split CHR ''.'' tableName in
      if length parts \<noteq> 1 \<and> length parts \<noteq> 3
      then (Inl (Error (''Table name must be either a simple name or '' @
                        [quote] @ ''db.schema.table'' @ [quote])), s)
      else
        (let fullName = (if length parts = 1 then ''duckdb.main.'' @ tableName else tableName) in
         if no_token s then (Inl (Error ''Authentication required''), s)
         else io_catch
                (push_steps w fullName data
                   (or_default True (createIfMissing options))
                   (or_default False (replaceIfExists options))
                   (or_default False (dedupeOnAppend options))
                   (or_default [] (primaryKeyColumns options)))
                handleApiError s)))"

definition push :: "env \<Rightarrow> string \<Rightarrow> jsval list \<Rightarrow> push_options \<Rightarrow> unit io" where
  "push w tableName data options =
     ensureAuthenticated w (authenticated_push w tableName data options)"

section \<open>Notions the properties are stated with\<close>

text \<open>The request \<open>fetchToken\<close> sends: the three parts of the session key.\<close>

definition credentials :: "chakra \<Rightarrow> event" where
  "credentials s =
     (let parts = js_split CHR '':'' (dbSessionKey s)
      in PostServers (nth_opt parts 0) (nth_opt parts 1) (nth_opt parts 2))"


text \<open>
  A property of every state a method can end in, given the state it started in:
  \<open>hoare R m\<close>. The relations used are reflexive, transitive and hold across the
  recording of an event of the kind \<open>K\<close>: \<open>admits R K\<close>.
\<close>

definition hoare :: "(chakra \<Rightarrow> chakra \<Rightarrow> bool) \<Rightarrow> 'a io \<Rightarrow> bool" where
  "hoare R m = (\<forall>s. R s (snd (m s)))"

definition admits :: "(chakra \<Rightarrow> chakra \<Rightarrow> bool) \<Rightarrow> (event \<Rightarrow> bool) \<Rightarrow> bool" where
  "admits R K =
     ((\<forall>s. R s s) \<and> (\<forall>s t u. R s t \<longrightarrow> R t u \<longrightarrow> R s u) \<and>
      (\<forall>s ev. K ev \<longrightarrow> R s (s\<lparr>trace := trace s @ [ev]\<rparr>)))"

text \<open>
  The stage of a push (or of a query) an event belongs to, and the relation between two
  states that only events of a kind \<open>K\<close> were issued from the one to the other.
\<close>

datatype phase = Authenticate | Sql | TempFile | WriteFile | Upload | Import | Unstage | Unlink

fun phase_of :: "event \<Rightarrow> phase" where
  "phase_of (PostServers a k u) = Authenticate"
| "phase_of (PostDatabases n) = Sql"
| "phase_of (PostQuery q ps) = Sql"
| "phase_of TmpFile = TempFile"
| "phase_of (OpenFile f p) = WriteFile"
| "phase_of (AppendRow r) = WriteFile"
| "phase_of CloseWriter = WriteFile"
| "phase_of (GetPresignedUpload f) = Upload"
| "phase_of (Stat p) = Upload"
| "phase_of (AxiosPut u p n) = Upload"
| "phase_of (PostImport t k) = Import"
| "phase_of (PostImportDedupe t k pk) = Import"
| "phase_of (DeleteFiles k) = Unstage"
| "phase_of (Cleanup p) = Unlink"

definition issues :: "(event \<Rightarrow> bool) \<Rightarrow> chakra \<Rightarrow> chakra \<Rightarrow> bool" where
  "issues K s s' = (\<exists>evs. trace s' = trace s @ evs \<and> list_all K evs)"

text \<open>
  The header is there and is \<open>Bearer\<close> and the token exactly when there is a token.
\<close>

definition bearer_header :: "chakra \<Rightarrow> bool" where
  "bearer_header s = (authorization s = map_option (\<lambda>t. ''Bearer '' @ t) (tokenValue s))"

text \<open>
  The first three steps of the outer \<open>try\<close> of \<open>authenticated_push\<close>: the schema, the
  drop, the table.
\<close>

definition prepare_table :: "env \<Rightarrow> string \<Rightarrow> jsval list \<Rightarrow> bool \<Rightarrow> bool \<Rightarrow> unit io" where
  "prepare_table w fullName data create replace =
     io_bind (if create \<or> replace then createDatabaseAndSchema w fullName else io_return ())
       (\<lambda>u.
     io_bind (if replace then replaceExistingTable w fullName else io_return ())
       (\<lambda>u. if create \<or> replace then createTable w fullName data else io_return ()))"

text \<open>
  From one state to another the trace grew, by at most \<open>k\<close> events of the kind \<open>P\<close>.
\<close>

definition counted :: "(event \<Rightarrow> bool) \<Rightarrow> nat \<Rightarrow> chakra \<Rightarrow> chakra \<Rightarrow> bool" where
  "counted P k s s' = (\<exists>evs. trace s' = trace s @ evs \<and> length (filter P evs) \<le> k)"

text \<open>The error \<open>authenticated_push\<close> throws for a table name it does not accept.\<close>

definition invalid_table_name :: error where
  "invalid_table_name =
     Error (''Table name must be either a simple name or '' @ [quote] @ ''db.schema.table'' @ [quote])"

text \<open>The four options of a push after the defaults are filled in.\<close>

definition options_of :: "push_options \<Rightarrow> bool \<times> bool \<times> bool \<times> string list" where
  "options_of options =
     (or_default True (createIfMissing options), or_default False (replaceIfExists options),
      or_default False (dedupeOnAppend options), or_default [] (primaryKeyColumns options))"

text \<open>A method that rejects from every state.\<close>

definition fails :: "'a io \<Rightarrow> bool" where
  "fails m = (\<forall>s. isl (fst (m s)))"

text \<open>
  The events that come before the Parquet file is written and staged: authentication,
  the SQL of the table lifecycle, the temporary file and its removal.
\<close>

definition before_upload :: "event \<Rightarrow> bool" where
  "before_upload ev = (phase_of ev \<in> {Authenticate, Sql, TempFile, Unlink})"

text \<open>
  The reading of a query the rewriting is stated with, after the pattern \<open>/\$(\d+)/g\<close>:
  from left to right, a \<open>$\<close> with the longest run of digits after it (one digit at
  least) is a placeholder, and every other character stands for itself.
\<close>

datatype piece = Lit char | Placeholder string

function pieces :: "string \<Rightarrow> piece list" where
  "pieces [] = []"
| "pieces (c # cs) =
     (if c = CHR ''$'' \<and> digits cs \<noteq> []
      then Placeholder (digits cs) # pieces (dropWhile is_digit cs)
      else Lit c # pieces cs)"
  by pat_completeness auto
termination
  by (relation "measure length") (auto simp: length_dropWhile_le less_Suc_eq_le)

text \<open>
  The text of a piece in the query, what the rewriting puts in its place, and the
  parameter it refers to (counted from 1).
\<close>

fun source_of :: "piece \<Rightarrow> string" where
  "source_of (Lit c) = [c]"
| "source_of (Placeholder ds) = CHR ''$'' # ds"

fun marker_of :: "piece \<Rightarrow> string" where
  "marker_of (Lit c) = [c]"
| "marker_of (Placeholder ds) = ''?''"

fun reference_of :: "piece \<Rightarrow> nat list" where
  "reference_of (Lit c) = []"
| "reference_of (Placeholder ds) = [parseInt ds]"

text \<open>
  The query with every placeholder replaced by \<open>?\<close>, and the numbers of the
  placeholders in the order they occur.
\<close>

definition rewritten :: "string \<Rightarrow> string" where
  "rewritten query = concat (map marker_of (pieces query))"

definition references :: "string \<Rightarrow> nat list" where
  "references query = concat (map reference_of (pieces query))"

text \<open>A placeholder number that names one of the parameters supplied.\<close>

definition in_range :: "jsval list \<Rightarrow> nat \<Rightarrow> bool" where
  "in_range parameters i = (1 \<le> i \<and> i \<le> length parameters)"

text \<open>The error the callback of \<open>replacePositionalParameters\<close> throws.\<close>

definition parameter_error :: error where
  "parameter_error = Error ''Chakra DB does not support more than 8 positional parameters''"

text \<open>
  The request \<open>authenticated_execute\<close> sends for a query whose placeholders are all in
  range: the rewritten query, with the parameters picked in the order of the placeholders,
  or with the parameters as given when the query has no placeholder.
\<close>

definition forwarded :: "string \<Rightarrow> jsval list \<Rightarrow> event" where
  "forwarded query parameters =
     PostQuery (rewritten query)
       (Some (if references query = [] then parameters
              else map (\<lambda>i. parameters ! (i - 1)) (references query)))"

text \<open>
  The requests of a push, as they are sent: the database and the schema, the drop, the
  table, the import (plain or deduplicating), and the name the table is known by.
\<close>

definition full_name :: "string \<Rightarrow> string" where
  "full_name tableName =
     (if length (js_split CHR ''.'' tableName) = 1 then ''duckdb.main.'' @ tableName
      else tableName)"

definition schema_requests :: "string \<Rightarrow> event list" where
  "schema_requests fullName =
     [PostDatabases (nth_opt (js_split CHR ''.'' fullName) 0),
      PostQuery (''CREATE SCHEMA IF NOT EXISTS '' @
                 template (nth_opt (js_split CHR ''.'' fullName) 0) @ ''.'' @
                 template (nth_opt (js_split CHR ''.'' fullName) 1)) None]"

definition drop_request :: "string \<Rightarrow> event" where
  "drop_request fullName = PostQuery (''DROP TABLE IF EXISTS '' @ fullName) None"

definition table_request :: "string \<Rightarrow> (string \<times> jsval) list \<Rightarrow> event" where
  "table_request fullName entries =
     PostQuery (''CREATE TABLE IF NOT EXISTS '' @ fullName @ '' ('' @
                js_join '', '' (map (\<lambda>(col, sqlType). col @ '' '' @ sqlType) (sql_columns entries)) @
                '')'') None"

definition import_request :: "bool \<Rightarrow> string \<Rightarrow> jsval \<Rightarrow> string list \<Rightarrow> event" where
  "import_request dedupe fullName key pkColumns =
     (if dedupe then PostImportDedupe fullName key pkColumns else PostImport fullName key)"

text \<open>
  The events from the temporary file to the upload: the file is written row by row and
  closed, a signed URL is requested for a name made of the table and a fresh identifier,
  and the file is sent there.
\<close>

definition staging_events ::
    "string \<Rightarrow> (string \<times> jsval) list \<Rightarrow> jsval list \<Rightarrow> jsval \<Rightarrow> string \<Rightarrow> jsval \<Rightarrow> jsval \<Rightarrow> event list" where
  "staging_events fullName entries data tempFile uuid url len =
     [TmpFile, OpenFile (schemaFields entries) tempFile] @ map AppendRow data @
     [CloseWriter, GetPresignedUpload (fullName @ ''_'' @ uuid @ ''.parquet''),
      Stat tempFile, AxiosPut url tempFile len]"

text \<open>
  A service that resolves every call, with a body that is neither \<open>null\<close> nor
  \<open>undefined\<close>; and a method that returns, from every state, a value with a property.
\<close>

definition answers :: "env \<Rightarrow> (event list \<Rightarrow> event \<Rightarrow> jsval) \<Rightarrow> bool" where
  "answers w f =
     (\<forall>h ev. respond w h ev = Resolve (f h ev) \<and> f h ev \<noteq> JUndefined \<and> f h ev \<noteq> JNull)"

definition returns :: "('a \<Rightarrow> bool) \<Rightarrow> 'a io \<Rightarrow> bool" where
  "returns P m = (\<forall>s. \<exists>x s'. m s = (Inr x, s') \<and> P x)"

text \<open>The events of the table lifecycle of a push, by its options.\<close>

definition lifecycle_requests :: "string \<Rightarrow> (string \<times> jsval) list \<Rightarrow> bool \<Rightarrow> bool \<Rightarrow> event list" where
  "lifecycle_requests fullName entries create replace =
     (if create \<or> replace then schema_requests fullName else []) @
     (if replace then [drop_request fullName] else []) @
     (if create \<or> replace then [table_request fullName entries] else [])"

text \<open>Options of the examples, and the events that stage the two students.\<close>

definition replace_only :: push_options where
  "replace_only =
     \<lparr>createIfMissing = Some False, replaceIfExists = Some True, dedupeOnAppend = None,
      primaryKeyColumns = None\<rparr>"

definition students_staged :: "string \<Rightarrow> event list" where
  "students_staged fullName =
     [TmpFile,
      OpenFile [(''id'', ''DOUBLE''), (''name'', ''UTF8''), (''active'', ''BOOLEAN'')]
        (JStr ''/tmp/tmp-1.parquet''),
      AppendRow (JObj [(''id'', JNum (Finite 1)), (''name'', JStr ''Alice''), (''active'', JBool True)]),
      AppendRow (JObj [(''id'', JNum (Finite 2)), (''name'', JStr ''Bob''), (''active'', JBool False)]),
      CloseWriter,
      GetPresignedUpload (fullName @ ''_1b9d6bcd.parquet''),
      Stat (JStr ''/tmp/tmp-1.parquet''),
      AxiosPut (JStr ''https://bucket/upload'') (JStr ''/tmp/tmp-1.parquet'') (JNum (Finite 42))]"

text \<open>
  The part of the inner \<open>try\<close> of \<open>authenticated_push\<close> up to the upload: it returns the
  signed URL and the key of the staged object.
\<close>

definition stage_file :: "env \<Rightarrow> string \<Rightarrow> jsval list \<Rightarrow> jsval \<Rightarrow> (jsval \<times> jsval) io" where
  "stage_file w fullName data tempFile =
     io_bind (io_lift (Object_entries (sample_of data)))
       (\<lambda>entries.
     io_bind (call w (OpenFile (schemaFields entries) tempFile))
       (\<lambda>writer.
     io_bind (appendRows w data)
       (\<lambda>u.
     io_bind (call w CloseWriter)
       (\<lambda>closed. (\<lambda>s.
     io_bind (requestPresignedUploadUrl w (fullName @ ''_'' @ uuidv4 w (trace s) @ ''.parquet''))
       (\<lambda>presigned.
     io_bind (uploadParquetUsingPresignedUrl w (fst presigned) tempFile)
       (\<lambda>u. io_return presigned)) s)))))"

text \<open>The events of writing and uploading the file.\<close>

definition before_import :: "event \<Rightarrow> bool" where
  "before_import ev = (phase_of ev = WriteFile \<or> phase_of ev = Upload)"

text \<open>
  The events one run of \<open>authenticated_push\<close> can issue, given the events \<open>old\<close> issued
  before it: lifecycle requests; then the temporary file; if that is made (\<open>tf\<close>), the
  events of writing and uploading, perhaps the import and, only after an import that
  succeeded, the deletion of the staged object; and last the removal of \<open>tf\<close>.
\<close>

definition after_tmp ::
    "env \<Rightarrow> event list \<Rightarrow> string \<Rightarrow> bool \<Rightarrow> string list \<Rightarrow> jsval \<Rightarrow> event list \<Rightarrow> bool" where
  "after_tmp w old fullName dd pk tf evs =
     (\<exists>evsB. list_all before_import evsB \<and>
        (evs = evsB @ [Cleanup tf] \<or>
         (\<exists>key e. respond w (old @ evsB) (import_request dd fullName key pk) = Reject e \<and>
            evs = evsB @ [import_request dd fullName key pk, Cleanup tf]) \<or>
         (\<exists>key v. respond w (old @ evsB) (import_request dd fullName key pk) = Resolve v \<and>
            evs = evsB @ [import_request dd fullName key pk, DeleteFiles key, Cleanup tf])))"

definition push_run ::
    "env \<Rightarrow> event list \<Rightarrow> string \<Rightarrow> bool \<Rightarrow> string list \<Rightarrow> event list \<Rightarrow> bool" where
  "push_run w old fullName dd pk evs =
     (\<exists>evsA. list_all (\<lambda>ev. phase_of ev = Sql) evsA \<and>
        (evs = evsA \<or>
         (\<exists>e. respond w (old @ evsA) TmpFile = Reject e \<and> evs = evsA @ [TmpFile]) \<or>
         (\<exists>tf rest. respond w (old @ evsA) TmpFile = Resolve tf \<and>
            after_tmp w (old @ evsA @ [TmpFile]) fullName dd pk tf rest \<and>
            evs = evsA @ TmpFile # rest)))"

text \<open>What stands after an event of a run, by the kind of the event.\<close>

definition released ::
    "env \<Rightarrow> string \<Rightarrow> bool \<Rightarrow> string list \<Rightarrow> event list \<Rightarrow> event \<Rightarrow> event list \<Rightarrow> bool" where
  "released w fullName dd pk pre ev post =
     ((ev = TmpFile \<longrightarrow>
         (\<forall>tf. respond w pre ev = Resolve tf \<longrightarrow> post \<noteq> [] \<and> last post = Cleanup tf) \<and>
         (\<forall>e. respond w pre ev = Reject e \<longrightarrow> post = [])) \<and>
      (phase_of ev = Import \<longrightarrow>
         (\<exists>key tf. ev = import_request dd fullName key pk \<and>
            (\<forall>v. respond w pre ev = Resolve v \<longrightarrow> post = [DeleteFiles key, Cleanup tf]) \<and>
            (\<forall>e. respond w pre ev = Reject e \<longrightarrow> post = [Cleanup tf]))) \<and>
      (phase_of ev = Unstage \<longrightarrow>
         (\<exists>before key v tf. pre = before @ [import_request dd fullName key pk] \<and>
            respond w before (import_request dd fullName key pk) = Resolve v \<and>
            ev = DeleteFiles key \<and> post = [Cleanup tf])))"

text \<open>
  The same for a whole \<open>push\<close>, which may run \<open>authenticated_push\<close> up to three times:
  what has to follow an event of the run, sooner or later for the removal of the temporary
  file, at once for the deletion of the staged object; and the relation between the state
  before and after a method all of whose new events are followed as \<open>F\<close> says.
\<close>

definition released_later ::
    "env \<Rightarrow> string \<Rightarrow> bool \<Rightarrow> string list \<Rightarrow> event list \<Rightarrow> event \<Rightarrow> event list \<Rightarrow> bool" where
  "released_later w fullName dd pk pre ev post =
     ((ev = TmpFile \<longrightarrow> (\<forall>tf. respond w pre ev = Resolve tf \<longrightarrow> Cleanup tf \<in> set post)) \<and>
      (phase_of ev = Import \<longrightarrow>
         (\<exists>key. ev = import_request dd fullName key pk \<and>
            (\<forall>v. respond w pre ev = Resolve v \<longrightarrow> (\<exists>rest. post = DeleteFiles key # rest)) \<and>
            (\<forall>e. respond w pre ev = Reject e \<longrightarrow> (\<exists>tf rest. post = Cleanup tf # rest)))))"

definition follows :: "(event list \<Rightarrow> event \<Rightarrow> event list \<Rightarrow> bool) \<Rightarrow> chakra \<Rightarrow> chakra \<Rightarrow> bool" where
  "follows F s s' =
     ((\<exists>evs. trace s' = trace s @ evs) \<and>
      (\<forall>pre ev post. trace s' = pre @ ev # post \<and> length (trace s) \<le> length pre \<longrightarrow>
         F pre ev post))"

text \<open>The lifecycle requests of the examples, for the table \<open>duckdb.main.students\<close>.\<close>

definition students_table :: "event list" where
  "students_table =
     [PostDatabases (Some ''duckdb''),
      PostQuery ''CREATE SCHEMA IF NOT EXISTS duckdb.main'' None,
      PostQuery ''CREATE TABLE IF NOT EXISTS duckdb.main.students (id BIGINT, name VARCHAR, active BOOLEAN)'' None]"

text \<open>
  The attempts of \<open>ensureAuthenticated\<close>. The state in which the first attempt is made:
  the state of the call when a token is held, the state after the login otherwise. A result
  that ends the wrapper: a value, or an error that is not a 401. An attempt that fails
  with a 401 and is followed by a login that succeeds, leaving \<open>s'\<close>; and one that fails
  with a 401 and is followed by a login that fails with \<open>e'\<close>, leaving \<open>s'\<close>.
\<close>

definition signed_in :: "env \<Rightarrow> chakra \<Rightarrow> chakra \<Rightarrow> bool" where
  "signed_in w s s0 = (if no_token s then login w s = (Inr (), s0) else s0 = s)"

fun settled :: "error + 'a \<Rightarrow> bool" where
  "settled (Inr x) = True"
| "settled (Inl e) = (\<not> isAuthError e)"

definition stale :: "env \<Rightarrow> 'a io \<Rightarrow> chakra \<Rightarrow> chakra \<Rightarrow> bool" where
  "stale w operation s s' =
     (\<exists>e s1. operation s = (Inl e, s1) \<and> isAuthError e \<and> login w s1 = (Inr (), s'))"

definition relogin_fails :: "env \<Rightarrow> 'a io \<Rightarrow> chakra \<Rightarrow> error \<Rightarrow> chakra \<Rightarrow> bool" where
  "relogin_fails w operation s e' s' =
     (\<exists>e s1. operation s = (Inl e, s1) \<and> isAuthError e \<and> login w s1 = (Inl e', s'))"

section \<open>Services for the examples\<close>

text \<open>
  A service that accepts every request, with the body each endpoint documents, and the
  local calls succeeding (the temporary file is \<open>/tmp/tmp-1.parquet\<close>, 42 bytes long).
\<close>

fun ok_body :: "event \<Rightarrow> jsval" where
  "ok_body (PostServers a k u) = JObj [(''token'', JStr ''DDB_token'')]"
| "ok_body (PostQuery q ps) = JObj [(''columns'', JArr []), (''rows'', JArr [])]"
| "ok_body (GetPresignedUpload f) =
     JObj [(''presignedUrl'', JStr ''https://bucket/upload''), (''key'', JStr ''staged-key'')]"
| "ok_body TmpFile = JStr ''/tmp/tmp-1.parquet''"
| "ok_body (Stat f) = JObj [(''size'', JNum (Finite 42))]"
| "ok_body ev = JObj []"

definition service :: "(event \<Rightarrow> outcome option) \<Rightarrow> env" where
  "service failing =
     \<lparr>respond = (\<lambda>history ev. case failing ev of Some out \<Rightarrow> out | None \<Rightarrow> Resolve (ok_body ev)),
      uuidv4 = (\<lambda>history. ''1b9d6bcd'')\<rparr>"

definition accepting :: env where
  "accepting = service (\<lambda>ev. None)"

text \<open>The authentication endpoint returns a token without the prefix.\<close>

definition wrong_prefix :: env where
  "wrong_prefix =
     service (\<lambda>ev. case ev of
                PostServers a k u \<Rightarrow> Some (Resolve (JObj [(''token'', JStr ''abc'')]))
              | _ \<Rightarrow> None)"

text \<open>The authentication endpoint returns a token that is a number.\<close>

definition numeric_token :: env where
  "numeric_token =
     service (\<lambda>ev. case ev of
                PostServers a k u \<Rightarrow> Some (Resolve (JObj [(''token'', JNum (Finite 42))]))
              | _ \<Rightarrow> None)"

text \<open>The authentication endpoint answers 500.\<close>

definition auth_down :: env where
  "auth_down =
     service (\<lambda>ev. case ev of
                PostServers a k u \<Rightarrow>
                  Some (Reject (AxiosError ''Request failed with status code 500''
                                  (Some (500, JNull))))
              | _ \<Rightarrow> None)"

text \<open>The query endpoint answers 401 every time; authentication succeeds.\<close>

definition unauthorized :: env where
  "unauthorized =
     service (\<lambda>ev. case ev of
                PostQuery q ps \<Rightarrow>
                  Some (Reject (AxiosError ''Request failed with status code 401''
                                  (Some (401, JObj [(''error'', JStr ''Unauthorized'')]))))
              | _ \<Rightarrow> None)"

text \<open>The query endpoint answers 401 to the first query and accepts the later ones.\<close>

definition stale_once :: env where
  "stale_once =
     \<lparr>respond = (\<lambda>history ev.
        case ev of
          PostQuery q ps \<Rightarrow>
            if list_ex (\<lambda>old. phase_of old = Sql) history then Resolve (ok_body ev)
            else Reject (AxiosError ''Request failed with status code 401''
                           (Some (401, JObj [(''error'', JStr ''Unauthorized'')])))
        | _ \<Rightarrow> Resolve (ok_body ev)),
      uuidv4 = (\<lambda>history. ''1b9d6bcd'')\<rparr>"

text \<open>
  The query endpoint answers 401 to the first two queries and accepts the later ones.
\<close>

definition stale_twice :: env where
  "stale_twice =
     \<lparr>respond = (\<lambda>history ev.
        case ev of
          PostQuery q ps \<Rightarrow>
            if 2 \<le> length (filter (\<lambda>old. phase_of old = Sql) history) then Resolve (ok_body ev)
            else Reject (AxiosError ''Request failed with status code 401''
                           (Some (401, JObj [(''error'', JStr ''Unauthorized'')])))
        | _ \<Rightarrow> Resolve (ok_body ev)),
      uuidv4 = (\<lambda>history. ''1b9d6bcd'')\<rparr>"

text \<open>
  Every query is answered 401; the authentication endpoint answers 500 once \<open>n\<close> queries
  have been sent, and accepts before.
\<close>

definition login_down_after :: "nat \<Rightarrow> env" where
  "login_down_after n =
     \<lparr>respond = (\<lambda>history ev.
        case ev of
          PostQuery q ps \<Rightarrow>
            Reject (AxiosError ''Request failed with status code 401''
                      (Some (401, JObj [(''error'', JStr ''Unauthorized'')])))
        | PostServers a k u \<Rightarrow>
            if n \<le> length (filter (\<lambda>old. phase_of old = Sql) history)
            then Reject (AxiosError ''Request failed with status code 500'' (Some (500, JNull)))
            else Resolve (ok_body ev)
        | _ \<Rightarrow> Resolve (ok_body ev)),
      uuidv4 = (\<lambda>history. ''1b9d6bcd'')\<rparr>"

text \<open>The query endpoint answers 500.\<close>

definition query_down :: env where
  "query_down =
     service (\<lambda>ev. case ev of
                PostQuery q ps \<Rightarrow>
                  Some (Reject (AxiosError ''Request failed with status code 500''
                                  (Some (500, JNull))))
              | _ \<Rightarrow> None)"

text \<open>
  The client of the examples, holding a token, after the given events; a query and the
  login request of this client.
\<close>

definition client_with :: "string \<Rightarrow> event list \<Rightarrow> chakra" where
  "client_with tok evs =
     \<lparr>dbSessionKey = ''key:secret:user'', tokenValue = Some tok,
      authorization = Some (''Bearer '' @ tok), quiet = False, trace = evs\<rparr>"

definition select1 :: event where
  "select1 = PostQuery ''SELECT 1'' (Some [])"

definition relogin :: event where
  "relogin = PostServers (Some ''key'') (Some ''secret'') (Some ''user'')"

text \<open>The records and the options of the examples.\<close>

definition students :: "jsval list" where
  "students =
     [JObj [(''id'', JNum (Finite 1)), (''name'', JStr ''Alice''), (''active'', JBool True)],
      JObj [(''id'', JNum (Finite 2)), (''name'', JStr ''Bob''), (''active'', JBool False)]]"

definition defaults :: push_options where
  "defaults =
     \<lparr>createIfMissing = None, replaceIfExists = None, dedupeOnAppend = None,
      primaryKeyColumns = None\<rparr>"

text \<open>Nine parameters, the numbers 1 to 9.\<close>

definition nine :: "jsval list" where
  "nine = map (\<lambda>i. JNum (Finite (of_nat i))) [1, 2, 3, 4, 5, 6, 7, 8, 9]"

definition dedupe_options :: "string list option \<Rightarrow> push_options" where
  "dedupe_options keys =
     \<lparr>createIfMissing = None, replaceIfExists = None, dedupeOnAppend = Some True,
      primaryKeyColumns = keys\<rparr>"

text \<open>The plain import answers 500; everything else is accepted.\<close>

definition import_down :: env where
  "import_down =
     service (\<lambda>ev. case ev of
                PostImport t k \<Rightarrow>
                  Some (Reject (AxiosError ''Request failed with status code 500''
                                  (Some (500, JObj [(''error'', JStr ''import failed'')]))))
              | _ \<Rightarrow> None)"

section \<open>Lemmas\<close>

subsection \<open>The combinators\<close>

lemma io_bind_apply:
  "io_bind m f s = (case m s of (Inl e, s') \<Rightarrow> (Inl e, s') | (Inr x, s') \<Rightarrow> f x s')"
  by (simp add: io_bind_def)

lemma io_catch_apply:
  "io_catch m h s = (case m s of (Inl e, s') \<Rightarrow> h e s' | (Inr x, s') \<Rightarrow> (Inr x, s'))"
  by (simp add: io_catch_def)

lemma io_finally_apply: "io_finally m c s = (case m s of (r, s') \<Rightarrow> (r, c s'))"
  by (simp add: io_finally_def)

lemma call_apply:
  "call w ev s = (case respond w (trace s) ev of Resolve v \<Rightarrow> Inr v | Reject e \<Rightarrow> Inl e,
                  s\<lparr>trace := trace s @ [ev]\<rparr>)"
  by (simp add: call_def)

lemma get_prop_error: "get_prop v k = Inl e \<Longrightarrow> e = TypeError"
  by (cases v) auto

lemma api_error_not_auth: "api_error e = ChakraAuthError m \<Longrightarrow> e = ChakraAuthError m"
  by (cases e rule: api_error.cases) auto

lemma hoareI: "(\<And>s. R s (snd (m s))) \<Longrightarrow> hoare R m"
  by (simp add: hoare_def)

lemma hoareD: "hoare R m \<Longrightarrow> R s (snd (m s))"
  by (simp add: hoare_def)

lemma admits_refl: "admits R K \<Longrightarrow> R s s"
  by (simp add: admits_def)

lemma admits_trans: "admits R K \<Longrightarrow> R s t \<Longrightarrow> R t u \<Longrightarrow> R s u"
  unfolding admits_def by blast

lemma admits_step: "admits R K \<Longrightarrow> K ev \<Longrightarrow> R s (s\<lparr>trace := trace s @ [ev]\<rparr>)"
  by (simp add: admits_def)

lemma hoare_return: "admits R K \<Longrightarrow> hoare R (io_return x)"
  by (simp add: hoare_def io_return_def admits_refl)

lemma hoare_throw: "admits R K \<Longrightarrow> hoare R (io_throw e)"
  by (simp add: hoare_def io_throw_def admits_refl)

lemma hoare_lift: "admits R K \<Longrightarrow> hoare R (io_lift r)"
  by (simp add: hoare_def io_lift_def admits_refl)

lemma hoare_handleApiError: "admits R K \<Longrightarrow> hoare R (handleApiError e)"
  by (simp add: handleApiError_def hoare_throw)

lemma hoare_call: "admits R K \<Longrightarrow> K ev \<Longrightarrow> hoare R (call w ev)"
  by (simp add: hoare_def call_apply admits_step)

lemma hoare_bind:
  assumes "admits R K" "hoare R m" "\<And>x. hoare R (f x)"
  shows "hoare R (io_bind m f)"
proof (rule hoareI)
  fix s
  obtain r s1 where ms: "m s = (r, s1)"
    by (cases "m s")
  have R1: "R s s1"
    using hoareD [OF assms(2), of s] ms by simp
  show "R s (snd (io_bind m f s))"
  proof (cases r)
    case (Inl e)
    then show ?thesis using ms R1 by (simp add: io_bind_apply)
  next
    case (Inr x)
    have "R s1 (snd (f x s1))"
      using hoareD [OF assms(3)] .
    then show ?thesis
      using ms Inr R1 admits_trans [OF assms(1)] by (simp add: io_bind_apply)
  qed
qed

lemma hoare_catch:
  assumes "admits R K" "hoare R m" "\<And>e. hoare R (h e)"
  shows "hoare R (io_catch m h)"
proof (rule hoareI)
  fix s
  obtain r s1 where ms: "m s = (r, s1)"
    by (cases "m s")
  have R1: "R s s1"
    using hoareD [OF assms(2), of s] ms by simp
  show "R s (snd (io_catch m h s))"
  proof (cases r)
    case (Inr x)
    then show ?thesis using ms R1 by (simp add: io_catch_apply)
  next
    case (Inl e)
    have "R s1 (snd (h e s1))"
      using hoareD [OF assms(3)] .
    then show ?thesis
      using ms Inl R1 admits_trans [OF assms(1)] by (simp add: io_catch_apply)
  qed
qed

lemma hoare_finally:
  assumes "admits R K" "hoare R m" "\<And>s. R s (c s)"
  shows "hoare R (io_finally m c)"
proof (rule hoareI)
  fix s
  obtain r s1 where ms: "m s = (r, s1)"
    by (cases "m s")
  have "R s s1"
    using hoareD [OF assms(2), of s] ms by simp
  then show "R s (snd (io_finally m c s))"
    using ms assms(3) [of s1] admits_trans [OF assms(1)] by (simp add: io_finally_apply)
qed

lemma hoare_state: "(\<And>s0. hoare R (f s0)) \<Longrightarrow> hoare R (\<lambda>s. f s s)"
  by (simp add: hoare_def)

subsection \<open>Login\<close>

lemma fetchToken_apply:
  "fetchToken w s =
     (case respond w (trace s) (credentials s) of
        Resolve d \<Rightarrow> get_prop d ''token''
      | Reject e \<Rightarrow> Inl (api_error e),
      s\<lparr>trace := trace s @ [credentials s]\<rparr>)"
  by (auto simp: fetchToken_def credentials_def Let_def io_catch_apply io_bind_apply call_apply
        io_lift_def handleApiError_def io_throw_def
      split: outcome.splits sum.splits dest: get_prop_error)

lemma login_apply:
  "login w s =
     (case fst (fetchToken w s) of
        Inr (JStr t) \<Rightarrow>
          if startsWith t TOKEN_PREFIX
          then (Inr (), set_token (Some t) (s\<lparr>trace := trace s @ [credentials s]\<rparr>))
          else (Inl (Error (''Token must start with '' @ [quote] @ TOKEN_PREFIX @ [quote])),
                s\<lparr>trace := trace s @ [credentials s]\<rparr>)
      | Inr v \<Rightarrow> (Inl TypeError, s\<lparr>trace := trace s @ [credentials s]\<rparr>)
      | Inl e \<Rightarrow> (Inl e, s\<lparr>trace := trace s @ [credentials s]\<rparr>))"
  by (simp add: login_def io_bind_apply fetchToken_apply io_throw_def
      split: outcome.splits sum.splits jsval.splits)

lemma startsWith_nonempty: "startsWith t TOKEN_PREFIX \<Longrightarrow> t \<noteq> []"
  by (auto simp: startsWith_def TOKEN_PREFIX_def)

lemma login_rejected:
  "respond w (trace s) (credentials s) = Reject e' \<Longrightarrow>
   login w s = (Inl (api_error e'), s\<lparr>trace := trace s @ [credentials s]\<rparr>)"
  by (simp add: login_apply fetchToken_apply)

lemma login_no_string:
  "respond w (trace s) (credentials s) = Resolve d \<Longrightarrow>
   \<forall>t. get_prop d ''token'' \<noteq> Inr (JStr t) \<Longrightarrow>
   login w s = (Inl TypeError, s\<lparr>trace := trace s @ [credentials s]\<rparr>)"
  by (cases "get_prop d ''token''")
     (auto simp: login_apply fetchToken_apply split: jsval.splits dest: get_prop_error)

lemma login_wrong_prefix:
  "respond w (trace s) (credentials s) = Resolve d \<Longrightarrow> get_prop d ''token'' = Inr (JStr t) \<Longrightarrow>
   \<not> startsWith t TOKEN_PREFIX \<Longrightarrow>
   login w s = (Inl (Error (''Token must start with '' @ [quote] @ TOKEN_PREFIX @ [quote])),
                s\<lparr>trace := trace s @ [credentials s]\<rparr>)"
  by (simp add: login_apply fetchToken_apply)

lemma login_accepted:
  "respond w (trace s) (credentials s) = Resolve d \<Longrightarrow> get_prop d ''token'' = Inr (JStr t) \<Longrightarrow>
   startsWith t TOKEN_PREFIX \<Longrightarrow>
   login w s = (Inr (), set_token (Some t) (s\<lparr>trace := trace s @ [credentials s]\<rparr>))"
  by (simp add: login_apply fetchToken_apply)

lemma api_error_plain: "\<forall>m r. e \<noteq> AxiosError m (Some r) \<Longrightarrow> api_error e = e"
  by (cases e rule: api_error.cases) auto

subsection \<open>The retry loop\<close>

lemma hoare_loop:
  assumes adm: "admits R K" and op: "hoare R operation" and lg: "hoare R (login w)"
  shows "hoare R (ensureAuthenticated_loop w operation attempt)"
proof (rule hoareI)
  fix s
  show "R s (snd (ensureAuthenticated_loop w operation attempt s))"
  proof (induction n \<equiv> "maxAttempts - attempt" arbitrary: attempt s)
    case 0
    then have "\<not> attempt < maxAttempts"
      by simp
    then show ?case
      by (subst ensureAuthenticated_loop.simps) (simp add: admits_refl [OF adm])
  next
    case (Suc n)
    then have lt: "attempt < maxAttempts"
      by simp
    have next_n: "n = maxAttempts - (attempt + 1)"
      using Suc.hyps(2) by simp
    obtain r1 s1 where h1: "(if no_token s then login w s else (Inr (), s)) = (r1, s1)"
      by (cases "if no_token s then login w s else (Inr (), s)")
    have R1: "R s s1"
    proof (cases "no_token s")
      case True
      then show ?thesis using h1 hoareD [OF lg, of s] by simp
    next
      case False
      then show ?thesis using h1 admits_refl [OF adm, of s] by simp
    qed
    obtain r2 s2 where h2: "operation s1 = (r2, s2)"
      by (cases "operation s1")
    have R2: "R s s2"
      using hoareD [OF op, of s1] h2 R1 admits_trans [OF adm] by simp
    obtain r3 s3 where h3: "login w s2 = (r3, s3)"
      by (cases "login w s2")
    have R3: "R s s3"
      using hoareD [OF lg, of s2] h3 R2 admits_trans [OF adm] by simp
    have R4: "R s (snd (ensureAuthenticated_loop w operation (attempt + 1) s3))"
      using Suc.hyps(1) [OF next_n, of s3] R3 admits_trans [OF adm] by blast
    show ?case
      using lt h1 h2 h3 R1 R2 R3 R4
      by (subst ensureAuthenticated_loop.simps) (simp split: sum.splits)
  qed
qed

lemma hoare_ensureAuthenticated:
  "admits R K \<Longrightarrow> hoare R operation \<Longrightarrow> hoare R (login w) \<Longrightarrow>
   hoare R (ensureAuthenticated w operation)"
  by (simp add: ensureAuthenticated_def hoare_loop)

subsection \<open>The steps of a push and of a query\<close>

lemma admits_issues: "admits (issues K) K"
  unfolding admits_def issues_def
proof (intro conjI allI impI)
  fix s t u
  assume "\<exists>evs. trace t = trace s @ evs \<and> list_all K evs"
    and "\<exists>evs. trace u = trace t @ evs \<and> list_all K evs"
  then obtain e1 e2 where "trace t = trace s @ e1" "list_all K e1"
      "trace u = trace t @ e2" "list_all K e2"
    by blast
  then have "trace u = trace s @ (e1 @ e2) \<and> list_all K (e1 @ e2)"
    by simp
  then show "\<exists>evs. trace u = trace s @ evs \<and> list_all K evs"
    by blast
qed auto

lemma hoare_createDatabaseAndSchema:
  assumes "admits R K" "\<And>ev. phase_of ev = Sql \<Longrightarrow> K ev"
  shows "hoare R (createDatabaseAndSchema w t)"
  unfolding createDatabaseAndSchema_def Let_def
  by (intro hoare_bind [OF assms(1)] hoare_catch [OF assms(1)] hoare_call [OF assms(1)]
        hoare_return [OF assms(1)] assms(2))
     (simp_all add: hoare_return [OF assms(1)] hoare_handleApiError [OF assms(1)])

lemma hoare_replaceExistingTable:
  assumes "admits R K" "\<And>ev. phase_of ev = Sql \<Longrightarrow> K ev"
  shows "hoare R (replaceExistingTable w t)"
  unfolding replaceExistingTable_def
  by (intro hoare_bind [OF assms(1)] hoare_call [OF assms(1)] hoare_return [OF assms(1)] assms(2))
     simp

lemma hoare_createTable:
  assumes "admits R K" "\<And>ev. phase_of ev = Sql \<Longrightarrow> K ev"
  shows "hoare R (createTable w t d)"
  unfolding createTable_def Let_def
  by (intro hoare_bind [OF assms(1)] hoare_call [OF assms(1)] hoare_return [OF assms(1)]
        hoare_lift [OF assms(1)] assms(2))
     simp

lemma hoare_prepare_table:
  assumes "admits R K" "\<And>ev. phase_of ev = Sql \<Longrightarrow> K ev"
  shows "hoare R (prepare_table w t d c r)"
  unfolding prepare_table_def
  by (intro hoare_bind [OF assms(1)])
     (simp_all add: hoare_return [OF assms(1)] hoare_createDatabaseAndSchema [OF assms]
        hoare_replaceExistingTable [OF assms] hoare_createTable [OF assms])

lemma hoare_appendRows:
  assumes "admits R K" "\<And>ev. phase_of ev = WriteFile \<Longrightarrow> K ev"
  shows "hoare R (appendRows w d)"
proof (induction d)
  case Nil
  show ?case by (simp add: hoare_return [OF assms(1)])
next
  case (Cons row rows)
  show ?case
    by (simp, intro hoare_bind [OF assms(1)] hoare_call [OF assms(1)] assms(2) Cons) simp
qed

lemma hoare_requestPresignedUploadUrl:
  assumes "admits R K" "\<And>ev. phase_of ev = Upload \<Longrightarrow> K ev"
  shows "hoare R (requestPresignedUploadUrl w f)"
  unfolding requestPresignedUploadUrl_def
  by (intro hoare_bind [OF assms(1)] hoare_call [OF assms(1)] hoare_lift [OF assms(1)] assms(2))
     simp

lemma hoare_uploadParquetUsingPresignedUrl:
  assumes "admits R K" "\<And>ev. phase_of ev = Upload \<Longrightarrow> K ev"
  shows "hoare R (uploadParquetUsingPresignedUrl w u p)"
  unfolding uploadParquetUsingPresignedUrl_def
  by (intro hoare_bind [OF assms(1)] hoare_call [OF assms(1)] hoare_lift [OF assms(1)]
        hoare_return [OF assms(1)] assms(2))
     simp_all

lemma hoare_import:
  assumes "admits R K" "\<And>ev. phase_of ev = Import \<Longrightarrow> K ev"
  shows "hoare R (importDataFromPresignedUrl w t k)"
    and "hoare R (importDataFromAppendOnlyDedup w t k pk)"
  unfolding importDataFromPresignedUrl_def importDataFromAppendOnlyDedup_def
  by (intro hoare_bind [OF assms(1)] hoare_call [OF assms(1)] hoare_return [OF assms(1)] assms(2),
      simp)+

lemma hoare_deleteFileFromS3:
  assumes "admits R K" "\<And>ev. phase_of ev = Unstage \<Longrightarrow> K ev"
  shows "hoare R (deleteFileFromS3 w k)"
  unfolding deleteFileFromS3_def
  by (intro hoare_bind [OF assms(1)] hoare_call [OF assms(1)] hoare_return [OF assms(1)] assms(2))
     simp

lemma hoare_stage_tail:
  assumes adm: "admits R K"
    and K: "\<And>ev. phase_of ev \<in> {WriteFile, Upload, Import, Unstage} \<Longrightarrow> K ev"
  shows "hoare R (io_bind (requestPresignedUploadUrl w f)
       (\<lambda>presigned.
     io_bind (uploadParquetUsingPresignedUrl w (fst presigned) tf)
       (\<lambda>u.
     io_bind (if dd
              then importDataFromAppendOnlyDedup w t (snd presigned) pk
              else importDataFromPresignedUrl w t (snd presigned))
       (\<lambda>u. deleteFileFromS3 w (snd presigned)))))"
  by (intro hoare_bind [OF adm] hoare_requestPresignedUploadUrl [OF adm]
      hoare_uploadParquetUsingPresignedUrl [OF adm] hoare_deleteFileFromS3 [OF adm] K)
    (simp_all add: K hoare_import [OF adm])

lemma hoare_write_upload_import:
  assumes adm: "admits R K"
    and K: "\<And>ev. phase_of ev \<in> {WriteFile, Upload, Import, Unstage} \<Longrightarrow> K ev"
  shows "hoare R (write_upload_import w t d dd pk tf)"
proof -
  have tail: "hoare R (\<lambda>s.
     io_bind (requestPresignedUploadUrl w (t @ ''_'' @ uuidv4 w (trace s) @ ''.parquet''))
       (\<lambda>presigned.
     io_bind (uploadParquetUsingPresignedUrl w (fst presigned) tf)
       (\<lambda>u.
     io_bind (if dd
              then importDataFromAppendOnlyDedup w t (snd presigned) pk
              else importDataFromPresignedUrl w t (snd presigned))
       (\<lambda>u. deleteFileFromS3 w (snd presigned)))) s)"
    by (rule hoareI) (rule hoareD [OF hoare_stage_tail [OF adm K]], simp)
  show ?thesis
    unfolding write_upload_import_def
    by (intro hoare_bind [OF adm] hoare_lift [OF adm] hoare_call [OF adm]
        hoare_appendRows [OF adm] K tail) (simp_all add: K)
qed

lemma push_steps_prepare:
  "push_steps w t d c r dd pk =
     io_bind (prepare_table w t d c r)
       (\<lambda>u. io_bind (call w TmpFile)
          (\<lambda>tempFile. io_finally (write_upload_import w t d dd pk tempFile) (cleanup tempFile)))"
  by (rule ext)
     (simp add: push_steps_def prepare_table_def io_bind_apply split: prod.splits sum.splits)

lemma hoare_push_steps:
  assumes adm: "admits R K" and K: "\<And>ev. phase_of ev \<noteq> Authenticate \<Longrightarrow> K ev"
  shows "hoare R (push_steps w t d c r dd pk)"
  unfolding push_steps_prepare
  by (intro hoare_bind [OF adm] hoare_prepare_table [OF adm] hoare_call [OF adm]
      hoare_finally [OF adm] hoare_write_upload_import [OF adm] K)
    (auto simp: cleanup_def intro!: admits_step [OF adm] K)

lemma hoare_authenticated_push:
  assumes adm: "admits R K" and K: "\<And>ev. phase_of ev \<noteq> Authenticate \<Longrightarrow> K ev"
  shows "hoare R (authenticated_push w t d opts)"
proof (rule hoareI)
  fix s
  show "R s (snd (authenticated_push w t d opts s))"
    using hoareD [OF hoare_catch [OF adm hoare_push_steps [OF adm K]
          hoare_handleApiError [OF adm]], where s = s]
    by (simp add: authenticated_push_def Let_def admits_refl [OF adm])
qed

lemma hoare_authenticated_execute:
  assumes adm: "admits R K" and K: "\<And>ev. phase_of ev = Sql \<Longrightarrow> K ev"
  shows "hoare R (authenticated_execute w q ps)"
proof (rule hoareI)
  fix s
  have "hoare R (io_catch
            (io_bind
               (io_lift (if queryHasPositionalParameters q
                         then replacePositionalParameters q ps
                         else Inr (q, ps)))
               (\<lambda>(q, ps). io_bind (call w (PostQuery q (Some ps)))
                  (\<lambda>data. io_lift (rows_to_records data))))
            handleApiError)"
    by (intro hoare_catch [OF adm] hoare_bind [OF adm] hoare_lift [OF adm]
        hoare_handleApiError [OF adm])
      (auto intro!: hoare_bind [OF adm] hoare_call [OF adm] hoare_lift [OF adm] K)
  from hoareD [OF this, of s]
  show "R s (snd (authenticated_execute w q ps s))"
    by (simp add: authenticated_execute_def admits_refl [OF adm])
qed

lemma hoare_login_issues:
  assumes "\<And>ev. phase_of ev = Authenticate \<Longrightarrow> K ev"
  shows "hoare (issues K) (login w)"
  by (rule hoareI)
     (auto simp: login_apply issues_def set_token_def credentials_def Let_def assms
       split: sum.splits jsval.splits)

lemma hoare_login_header:
  "hoare (\<lambda>s s'. bearer_header s \<longrightarrow> bearer_header s') (login w)"
  by (rule hoareI)
     (auto simp: login_apply bearer_header_def set_token_def
       split: sum.splits jsval.splits dest: startsWith_nonempty)

lemma admits_header: "admits (\<lambda>s s'. bearer_header s \<longrightarrow> bearer_header s') (\<lambda>ev. True)"
  by (simp add: admits_def bearer_header_def)

subsection \<open>Attempts of the retry loop\<close>

lemma login_trace: "trace (snd (login w s)) = trace s @ [credentials s]"
  by (simp add: login_apply set_token_def split: sum.splits jsval.splits option.splits)

lemma login_has_token: "login w s = (Inr u, s') \<Longrightarrow> \<not> no_token s'"
  by (auto simp: login_apply set_token_def no_token_def token_def
      split: sum.splits jsval.splits if_splits dest: startsWith_nonempty)

lemma phase_credentials [simp]: "phase_of (credentials s) = Authenticate"
  by (simp add: credentials_def Let_def)

lemma loop_done:
  "\<not> attempt < maxAttempts \<Longrightarrow>
   ensureAuthenticated_loop w operation attempt s =
     (Inl (ChakraAuthError ''Failed to authenticate after 3 attempts.''), s)"
  by (subst ensureAuthenticated_loop.simps) simp

lemma loop_token:
  "attempt < maxAttempts \<Longrightarrow> \<not> no_token s \<Longrightarrow>
   ensureAuthenticated_loop w operation attempt s =
     (case operation s of
        (Inr x, s2) \<Rightarrow> (Inr x, s2)
      | (Inl err, s2) \<Rightarrow>
          if isAuthError err then
            (case login w s2 of
               (Inl e, s3) \<Rightarrow> (Inl e, s3)
             | (Inr u', s3) \<Rightarrow> ensureAuthenticated_loop w operation (attempt + 1) s3)
          else (Inl err, s2))"
  by (subst ensureAuthenticated_loop.simps) simp

lemma loop_no_token:
  "attempt < maxAttempts \<Longrightarrow> no_token s \<Longrightarrow>
   ensureAuthenticated_loop w operation attempt s =
     (case login w s of
        (Inl e, s1) \<Rightarrow> (Inl e, s1)
      | (Inr u, s1) \<Rightarrow>
          (case operation s1 of
             (Inr x, s2) \<Rightarrow> (Inr x, s2)
           | (Inl err, s2) \<Rightarrow>
               if isAuthError err then
                 (case login w s2 of
                    (Inl e, s3) \<Rightarrow> (Inl e, s3)
                  | (Inr u', s3) \<Rightarrow> ensureAuthenticated_loop w operation (attempt + 1) s3)
               else (Inl err, s2)))"
  by (subst ensureAuthenticated_loop.simps) simp

lemma loop_propagates:
  "attempt < maxAttempts \<Longrightarrow> \<not> no_token s \<Longrightarrow> operation s = (Inl e, s1) \<Longrightarrow>
   \<not> isAuthError e \<Longrightarrow> ensureAuthenticated_loop w operation attempt s = (Inl e, s1)"
  by (simp add: loop_token)

lemma loop_exhausted:
  assumes unauth: "\<forall>s. \<not> no_token s \<longrightarrow> (\<exists>e s'. operation s = (Inl e, s') \<and> isAuthError e)"
    and lg: "\<forall>s. fst (login w s) = Inr ()"
  shows "\<not> no_token s \<Longrightarrow>
    fst (ensureAuthenticated_loop w operation attempt s) =
      Inl (ChakraAuthError ''Failed to authenticate after 3 attempts.'')"
proof (induction n \<equiv> "maxAttempts - attempt" arbitrary: attempt s)
  case 0
  then show ?case by (simp add: loop_done)
next
  case (Suc n)
  then have lt: "attempt < maxAttempts" and nx: "n = maxAttempts - (attempt + 1)"
    by simp_all
  obtain e s1 where h1: "operation s = (Inl e, s1)" "isAuthError e"
    using unauth Suc.prems by blast
  obtain s2 where h2: "login w s1 = (Inr (), s2)"
    using lg [rule_format, of s1] by (cases "login w s1") auto
  have "\<not> no_token s2"
    using login_has_token [OF h2] .
  from Suc.hyps(1) [OF nx this] show ?case
    using lt Suc.prems h1 h2 by (simp add: loop_token)
qed

lemma ensureAuthenticated_exhausted:
  assumes unauth: "\<forall>s. \<not> no_token s \<longrightarrow> (\<exists>e s'. operation s = (Inl e, s') \<and> isAuthError e)"
    and lg: "\<forall>s. fst (login w s) = Inr ()"
  shows "fst (ensureAuthenticated w operation s) =
      Inl (ChakraAuthError ''Failed to authenticate after 3 attempts.'')"
proof (cases "no_token s")
  case False
  then show ?thesis
    unfolding ensureAuthenticated_def by (rule loop_exhausted [OF assms])
next
  case True
  obtain s0 where h0: "login w s = (Inr (), s0)"
    using lg [rule_format, of s] by (cases "login w s") auto
  have t0: "\<not> no_token s0"
    using login_has_token [OF h0] .
  obtain e s1 where h1: "operation s0 = (Inl e, s1)" "isAuthError e"
    using unauth t0 by blast
  obtain s2 where h2: "login w s1 = (Inr (), s2)"
    using lg [rule_format, of s1] by (cases "login w s1") auto
  have "\<not> no_token s2"
    using login_has_token [OF h2] .
  from loop_exhausted [OF assms this, of 1] show ?thesis
    using True h0 h1 h2 by (simp add: ensureAuthenticated_def loop_no_token maxAttempts_def)
qed

lemma counted_refl: "counted P 0 s s"
  by (simp add: counted_def)

lemma counted_trans: "counted P j s t \<Longrightarrow> counted P k t u \<Longrightarrow> counted P (j + k) s u"
  unfolding counted_def by (elim exE conjE, rule_tac x = "evs @ evsa" in exI) simp

lemma counted_mono: "counted P j s t \<Longrightarrow> j \<le> k \<Longrightarrow> counted P k s t"
  unfolding counted_def by (elim exE conjE, rule_tac x = evs in exI) simp

lemma counted_login:
  assumes "\<forall>ev. P ev \<longrightarrow> phase_of ev \<noteq> Authenticate"
  shows "counted P 0 s (snd (login w s))"
proof -
  have "\<not> P (credentials s)"
    using assms by auto
  then show ?thesis
    unfolding counted_def by (intro exI [of _ "[credentials s]"]) (simp add: login_trace)
qed

lemma loop_counted:
  assumes op: "\<forall>s. counted P k s (snd (operation s))"
    and P: "\<forall>ev. P ev \<longrightarrow> phase_of ev \<noteq> Authenticate"
  shows "counted P ((maxAttempts - attempt) * k) s
           (snd (ensureAuthenticated_loop w operation attempt s))"
proof (induction n \<equiv> "maxAttempts - attempt" arbitrary: attempt s)
  case 0
  then show ?case by (simp add: loop_done counted_refl)
next
  case (Suc n)
  then have lt: "attempt < maxAttempts" and nx: "n = maxAttempts - (attempt + 1)"
    by simp_all
  have nk: "(maxAttempts - attempt) * k = k + n * k"
    using Suc.hyps(2) [symmetric] by simp
  obtain r1 s1 where h1: "(if no_token s then login w s else (Inr (), s)) = (r1, s1)"
    by (cases "if no_token s then login w s else (Inr (), s)")
  have c1: "counted P 0 s s1"
    using h1 counted_login [OF P, of s w] counted_refl [of P s]
    by (cases "no_token s") auto
  obtain r2 s2 where h2: "operation s1 = (r2, s2)"
    by (cases "operation s1")
  have c2: "counted P k s s2"
    using counted_trans [OF c1, of k s2] op [rule_format, of s1] h2 by simp
  obtain r3 s3 where h3: "login w s2 = (r3, s3)"
    by (cases "login w s2")
  have c3: "counted P k s s3"
    using counted_trans [OF c2, of 0 s3] counted_login [OF P, of s2 w] h3 by simp
  have c4: "counted P (k + n * k) s (snd (ensureAuthenticated_loop w operation (attempt + 1) s3))"
    using counted_trans [OF c3 Suc.hyps(1) [OF nx, of s3]] nx by simp
  have le: "0 \<le> k + n * k" "k \<le> k + n * k"
    by simp_all
  show ?case
    unfolding nk
    using lt h1 h2 h3 counted_mono [OF c1 le(1)] counted_mono [OF c2 le(2)]
      counted_mono [OF c3 le(2)] c4
    by (subst ensureAuthenticated_loop.simps) (simp split: sum.splits)
qed

lemma authenticated_execute_counted:
  "counted (\<lambda>ev. phase_of ev = Sql) 1 s (snd (authenticated_execute w q ps s))"
proof (cases "no_token s")
  case True
  then show ?thesis 
    by (simp add: authenticated_execute_def counted_def)
next
  case False
  then show ?thesis
    by (cases "replacePositionalParameters q ps")
       (auto simp: authenticated_execute_def counted_def io_catch_apply io_bind_apply io_lift_def
          call_apply handleApiError_def io_throw_def
        split: sum.splits outcome.splits prod.splits)
qed

lemma accepting_login: "fst (login (service f) s) = Inr ()" if "\<And>a k u. f (PostServers a k u) = None"
  using that
  by (simp add: login_apply fetchToken_apply service_def credentials_def Let_def startsWith_def TOKEN_PREFIX_def)

subsection \<open>Table names and the empty record set\<close>

lemma js_split_nonempty: "js_split d s \<noteq> []"
  by (induction s) (auto split: list.splits)

lemma length_js_split: "length (js_split d s) = Suc (count_list s d)"
  by (induction s) (auto simp: js_split_nonempty split: list.splits)

lemma authenticated_push_invalid:
  "length (js_split CHR ''.'' t) \<noteq> 1 \<Longrightarrow> length (js_split CHR ''.'' t) \<noteq> 3 \<Longrightarrow>
   authenticated_push w t d opts s = (Inl invalid_table_name, s)"
  by (simp add: authenticated_push_def invalid_table_name_def)

lemma authenticated_push_valid:
  "length (js_split CHR ''.'' t) = 1 \<or> length (js_split CHR ''.'' t) = 3 \<Longrightarrow> \<not> no_token s \<Longrightarrow>
   authenticated_push w t d opts s =
     (case options_of opts of (create, replace, dedupe, pk) \<Rightarrow>
        io_catch
          (push_steps w (if length (js_split CHR ''.'' t) = 1 then ''duckdb.main.'' @ t else t)
             d create replace dedupe pk)
          handleApiError s)"
  by (auto simp: authenticated_push_def options_of_def Let_def)

lemma authenticated_push_no_token:
  "length (js_split CHR ''.'' t) = 1 \<or> length (js_split CHR ''.'' t) = 3 \<Longrightarrow> no_token s \<Longrightarrow>
   authenticated_push w t d opts s = (Inl (Error ''Authentication required''), s)"
  by (auto simp: authenticated_push_def Let_def)

lemma authenticated_push_simple_name:
  assumes "length (js_split CHR ''.'' t) = 1"
  shows "authenticated_push w t d opts = authenticated_push w (''duckdb.main.'' @ t) d opts"
proof
  fix s
  have three: "length (js_split CHR ''.'' (''duckdb.main.'' @ t)) = 3"
    using assms by (simp add: length_js_split)
  show "authenticated_push w t d opts s = authenticated_push w (''duckdb.main.'' @ t) d opts s"
  proof (cases "no_token s")
    case True
    then show ?thesis
      using assms three by (simp add: authenticated_push_no_token)
  next
    case False
    then show ?thesis
      using assms three by (simp add: authenticated_push_valid)
  qed
qed

lemma not_auth_invalid_table_name: "\<not> isAuthError invalid_table_name"
  by (simp add: invalid_table_name_def isAuthError_def)

lemma failsI: "(\<And>s. isl (fst (m s))) \<Longrightarrow> fails m"
  by (simp add: fails_def)

lemma failsD: "fails m \<Longrightarrow> \<exists>e. fst (m s) = Inl e"
  by (auto simp: fails_def isl_def)

lemma fails_throw: "fails (io_throw e)"
  by (simp add: fails_def io_throw_def)

lemma fails_bind1:
  assumes "fails m"
  shows "fails (io_bind m f)"
proof (rule failsI)
  fix s
  obtain e where "fst (m s) = Inl e"
    using failsD [OF assms] by blast
  then show "isl (fst (io_bind m f s))"
    by (cases "m s") (simp add: io_bind_apply)
qed

lemma fails_bind2:
  assumes "\<And>x. fails (f x)"
  shows "fails (io_bind m f)"
proof (rule failsI)
  fix s
  show "isl (fst (io_bind m f s))"
  proof (cases "m s")
    case (Pair r s1)
    then show ?thesis
      using assms by (cases r) (simp_all add: io_bind_apply fails_def)
  qed
qed

lemma fails_finally:
  assumes "fails m"
  shows "fails (io_finally m c)"
proof (rule failsI)
  fix s
  obtain e where "fst (m s) = Inl e"
    using failsD [OF assms] by blast
  then show "isl (fst (io_finally m c s))"
    by (cases "m s") (simp add: io_finally_apply)
qed

lemma fails_catch:
  assumes "fails m"
  shows "fails (io_catch m handleApiError)"
proof (rule failsI)
  fix s
  obtain e where "fst (m s) = Inl e"
    using failsD [OF assms] by blast
  then show "isl (fst (io_catch m handleApiError s))"
    by (cases "m s") (simp add: io_catch_apply handleApiError_def io_throw_def)
qed

lemma fails_loop:
  assumes "fails operation"
  shows "isl (fst (ensureAuthenticated_loop w operation attempt s))"
proof (induction n \<equiv> "maxAttempts - attempt" arbitrary: attempt s)
  case 0
  then show ?case by (simp add: loop_done)
next
  case (Suc n)
  then have lt: "attempt < maxAttempts" and nx: "n = maxAttempts - (attempt + 1)"
    by simp_all
  have op: "\<And>s. \<exists>e. fst (operation s) = Inl e"
    using failsD [OF assms] .
  show ?case
  proof (cases "no_token s")
    case False
    obtain e where "fst (operation s) = Inl e"
      using op by blast
    then show ?thesis
      using lt False Suc.hyps(1) [OF nx]
      by (auto simp: loop_token split: prod.splits sum.splits)
  next
    case True
    show ?thesis
    proof (cases "login w s")
      case (Pair r s1)
      obtain e where "fst (operation s1) = Inl e"
        using op by blast
      then show ?thesis
        using lt True Pair Suc.hyps(1) [OF nx]
        by (auto simp: loop_no_token split: prod.splits sum.splits)
    qed
  qed
qed

lemma write_upload_import_empty: "write_upload_import w t [] dd pk tf = io_throw TypeError"
  by (rule ext) (simp add: write_upload_import_def sample_of_def io_bind_apply io_lift_def io_throw_def)

lemma createTable_empty: "createTable w t [] = io_throw TypeError"
  by (rule ext) (simp add: createTable_def sample_of_def io_bind_apply io_lift_def io_throw_def)

lemma fails_push_steps_empty: "fails (push_steps w t [] c r dd pk)"
  unfolding push_steps_def write_upload_import_empty
  by (intro fails_bind2 fails_finally fails_throw)

lemma fails_authenticated_push_empty: "fails (authenticated_push w t [] opts)"
proof (rule failsI)
  fix s
  have "isl (fst (io_catch (push_steps w t' [] c r dd pk) handleApiError s))" for t' c r dd pk
    using fails_catch [OF fails_push_steps_empty] by (simp add: fails_def)
  then show "isl (fst (authenticated_push w t [] opts s))"
    by (simp add: authenticated_push_def Let_def)
qed

lemma hoare_authenticated_push_empty:
  "hoare (issues before_upload) (authenticated_push w t [] opts)"
proof (rule hoareI)
  fix s
  note adm = admits_issues [of before_upload]
  have steps: "hoare (issues before_upload) (push_steps w t' [] c r dd pk)" for t' c r dd pk
    unfolding push_steps_prepare write_upload_import_empty
    by (intro hoare_bind [OF adm] hoare_prepare_table [OF adm] hoare_call [OF adm]
        hoare_finally [OF adm] hoare_throw [OF adm])
      (auto simp: cleanup_def before_upload_def intro!: admits_step [OF adm])
  show "issues before_upload s (snd (authenticated_push w t [] opts s))"
    using hoareD [OF hoare_catch [OF adm steps hoare_handleApiError [OF adm]], where s = s]
    by (simp add: authenticated_push_def Let_def admits_refl [OF adm])
qed

lemmas run_simps =
  push_def execute_def ensureAuthenticated_def loop_token loop_no_token loop_done maxAttempts_def
  authenticated_push_def authenticated_execute_def push_steps_def write_upload_import_def
  createDatabaseAndSchema_def createTable_def replaceExistingTable_def
  requestPresignedUploadUrl_def uploadParquetUsingPresignedUrl_def
  importDataFromPresignedUrl_def importDataFromAppendOnlyDedup_def deleteFileFromS3_def
  cleanup_def io_bind_apply io_catch_apply io_finally_apply call_apply io_return_def io_lift_def
  io_throw_def handleApiError_def login_apply fetchToken_apply credentials_def
  no_token_def token_def set_token_def client_with_def Chakra_def
  service_def accepting_def nth_opt_def template_def or_default_def sample_of_def
  sql_columns_def schemaFields_def startsWith_def TOKEN_PREFIX_def Let_def
  isAuthError_def api_message_def digits_def is_digit_def parseInt_def rows_to_records_def

lemma authenticated_push_empty_TypeError:
  assumes ok: "\<forall>h ev. respond w h ev = Resolve (f h ev)" and tok: "\<not> no_token s"
    and name: "length (js_split CHR ''.'' t) = 1 \<or> length (js_split CHR ''.'' t) = 3"
  shows "fst (authenticated_push w t [] opts s) = Inl TypeError"
  using name tok
  by (simp add: authenticated_push_valid options_of_def push_steps_def write_upload_import_empty
      createTable_empty createDatabaseAndSchema_def replaceExistingTable_def Let_def
      io_bind_apply io_catch_apply io_finally_apply call_apply io_return_def io_throw_def
      handleApiError_def ok)

subsection \<open>Positional parameters\<close>

lemma digits_dropWhile: "digits cs @ dropWhile is_digit cs = cs"
  by (simp add: digits_def)

lemma pieces_source: "concat (map source_of (pieces query)) = query"
  by (induction query rule: pieces.induct) (simp_all add: digits_dropWhile)

lemma has_parameters_references: "queryHasPositionalParameters query = (references query \<noteq> [])"
  by (induction query rule: pieces.induct) (auto simp: references_def)

lemma rewritten_no_references: "references query = [] \<Longrightarrow> rewritten query = query"
  by (induction query rule: pieces.induct) (auto simp: references_def rewritten_def split: if_splits)

lemma replace_rewrites:
  "replacePositionalParameters query parameters =
     (if list_all (in_range parameters) (references query)
      then Inr (rewritten query, map (\<lambda>i. parameters ! (i - 1)) (references query))
      else Inl parameter_error)"
proof (induction query rule: pieces.induct)
  case 1
  show ?case by (simp add: references_def rewritten_def)
next
  case (2 c cs)
  show ?case
  proof (cases "c = CHR ''$'' \<and> digits cs \<noteq> []")
    case True
    then have p: "pieces (c # cs) = Placeholder (digits cs) # pieces (dropWhile is_digit cs)"
      by simp
    have idx: "(int (parseInt (digits cs)) - 1 < 0 \<or>
               int (length parameters) \<le> int (parseInt (digits cs)) - 1) =
               (\<not> in_range parameters (parseInt (digits cs)))"
      by (auto simp: in_range_def)
    have nth: "in_range parameters (parseInt (digits cs)) \<Longrightarrow>
        nat (int (parseInt (digits cs)) - 1) = parseInt (digits cs) - 1"
      by (auto simp: in_range_def)
    show ?thesis
      using True 2(1) [OF True] idx nth
      by (simp add: references_def rewritten_def Let_def parameter_error_def)
  next
    case False
    then have p: "pieces (c # cs) = Lit c # pieces cs"
      by auto
    show ?thesis
      using False 2(2) [OF False] p
      by (auto simp: references_def rewritten_def)
  qed
qed

lemma authenticated_execute_apply:
  assumes "\<not> no_token s"
  shows "authenticated_execute w query parameters s =
     (if list_all (in_range parameters) (references query)
      then (case respond w (trace s) (forwarded query parameters) of
              Resolve data \<Rightarrow>
                (case rows_to_records data of Inl e \<Rightarrow> Inl (api_error e) | Inr rs \<Rightarrow> Inr rs)
            | Reject e \<Rightarrow> Inl (api_error e),
            s\<lparr>trace := trace s @ [forwarded query parameters]\<rparr>)
      else (Inl parameter_error, s))"
proof (cases "references query = []")
  case True
  then show ?thesis
    using assms
    by (simp add: authenticated_execute_def has_parameters_references forwarded_def
        rewritten_no_references io_catch_apply io_bind_apply io_lift_def call_apply
        handleApiError_def io_throw_def
        split: outcome.splits sum.splits)
next
  case False
  then show ?thesis
    using assms
    by (simp add: authenticated_execute_def has_parameters_references forwarded_def
        replace_rewrites io_catch_apply io_bind_apply io_lift_def call_apply
        handleApiError_def io_throw_def parameter_error_def
        split: outcome.splits sum.splits)
qed

lemma placeholder_digits:
  "Placeholder ds \<in> set (pieces query) \<Longrightarrow> ds \<noteq> [] \<and> list_all is_digit ds"
proof (induction query rule: pieces.induct)
  case 1
  then show ?case by simp
next
  case (2 c cs)
  have "list_all is_digit (digits cs)"
    by (simp add: digits_def list_all_iff) (meson set_takeWhileD)
  with 2 show ?case
    by (auto split: if_splits)
qed

lemma index_value_error: "index_value v i = Inl e \<Longrightarrow> e = TypeError"
  by (cases v) (auto split: if_splits)

lemma assign_columns_error: "assign_columns cols idx row = Inl e \<Longrightarrow> e = TypeError"
  by (induction cols arbitrary: idx) (auto split: sum.splits dest: index_value_error)

lemma map_rows_error: "map_rows columns rows = Inl e \<Longrightarrow> e = TypeError"
  by (induction rows) (auto split: sum.splits jsval.splits dest: assign_columns_error)

lemma rows_to_records_error: "rows_to_records data = Inl e \<Longrightarrow> e = TypeError"
  by (auto simp: rows_to_records_def split: sum.splits jsval.splits
      dest: get_prop_error map_rows_error)

lemma not_auth_parameter_error: "\<not> isAuthError parameter_error"
  by (simp add: parameter_error_def isAuthError_def)

lemma execute_out_of_range:
  assumes bad: "\<not> list_all (in_range parameters) (references query)"
  shows "\<not> no_token s \<Longrightarrow> execute w query parameters s = (Inl parameter_error, s)"
    and "no_token s \<Longrightarrow> trace (snd (execute w query parameters s)) = trace s @ [credentials s]"
    and "no_token s \<Longrightarrow> fst (login w s) = Inr () \<Longrightarrow>
         fst (execute w query parameters s) = Inl parameter_error"
proof -
  have op: "authenticated_execute w query parameters s' = (Inl parameter_error, s')"
    if "\<not> no_token s'" for s'
    using that bad by (simp add: authenticated_execute_apply)
  show "execute w query parameters s = (Inl parameter_error, s)" if "\<not> no_token s"
    using that op [OF that]
      loop_propagates [of 0 s "authenticated_execute w query parameters" parameter_error s w]
    by (simp add: execute_def ensureAuthenticated_def maxAttempts_def not_auth_parameter_error)
  have run: "execute w query parameters s =
      (case login w s of (Inl e, s1) \<Rightarrow> (Inl e, s1) | (Inr u, s1) \<Rightarrow> (Inl parameter_error, s1))"
    if "no_token s"
    using that op login_has_token [of w s]
    by (auto simp: execute_def ensureAuthenticated_def loop_no_token maxAttempts_def
        not_auth_parameter_error split: prod.splits sum.splits)
  show "trace (snd (execute w query parameters s)) = trace s @ [credentials s]" if "no_token s"
    using run [OF that] login_trace [of w s] by (auto split: prod.splits sum.splits)
  show "fst (execute w query parameters s) = Inl parameter_error"
    if "no_token s" "fst (login w s) = Inr ()"
    using run [OF that(1)] that(2) by (auto split: prod.splits sum.splits)
qed

lemmas query_simps = rewritten_def references_def forwarded_def in_range_def digits_def
  is_digit_def parseInt_def

subsection \<open>A push that succeeds\<close>

lemma bind_Inr:
  "(io_bind m f s = (Inr y, s')) = (\<exists>x s1. m s = (Inr x, s1) \<and> f x s1 = (Inr y, s'))"
  by (cases "m s") (auto simp: io_bind_apply split: sum.splits)

lemma catch_Inr: "(io_catch m handleApiError s = (Inr y, s')) = (m s = (Inr y, s'))"
  by (cases "m s") (auto simp: io_catch_apply handleApiError_def io_throw_def split: sum.splits)

lemma finally_Inr: "(io_finally m c s = (Inr y, s')) = (\<exists>s1. m s = (Inr y, s1) \<and> s' = c s1)"
  by (cases "m s") (auto simp: io_finally_apply)

lemma call_Inr:
  "(call w ev s = (Inr v, s')) =
     (respond w (trace s) ev = Resolve v \<and> s' = s\<lparr>trace := trace s @ [ev]\<rparr>)"
  by (auto simp: call_apply split: outcome.splits)

lemma lift_Inr: "(io_lift r s = (Inr y, s')) = (r = Inr y \<and> s' = s)"
  by (auto simp: io_lift_def)

lemma return_Inr: "(io_return x s = (Inr y, s')) = (x = y \<and> s' = s)"
  by (auto simp: io_return_def)

lemma throw_Inr: "(io_throw e s = (Inr y, s')) = False"
  by (auto simp: io_throw_def)

lemmas Inr_simps = bind_Inr catch_Inr finally_Inr call_Inr lift_Inr return_Inr throw_Inr

lemma createDatabaseAndSchema_Inr:
  "createDatabaseAndSchema w t s = (Inr u, s') \<Longrightarrow>
   s' = s\<lparr>trace := trace s @ schema_requests t\<rparr>"
  by (auto simp: createDatabaseAndSchema_def Let_def schema_requests_def bind_Inr call_Inr
      return_Inr io_catch_apply call_apply io_bind_apply io_return_def handleApiError_def
      io_throw_def
      split: outcome.splits if_splits)

lemma replaceExistingTable_Inr:
  "replaceExistingTable w t s = (Inr u, s') \<Longrightarrow> s' = s\<lparr>trace := trace s @ [drop_request t]\<rparr>"
  by (auto simp: replaceExistingTable_def drop_request_def Inr_simps)

lemma createTable_Inr:
  "createTable w t d s = (Inr u, s') \<Longrightarrow>
   \<exists>entries. Object_entries (sample_of d) = Inr entries \<and>
     s' = s\<lparr>trace := trace s @ [table_request t entries]\<rparr>"
  by (auto simp: createTable_def table_request_def Let_def Inr_simps)

lemma appendRows_Inr:
  "appendRows w d s = (Inr u, s') \<Longrightarrow> s' = s\<lparr>trace := trace s @ map AppendRow d\<rparr>"
proof (induction d arbitrary: s)
  case Nil
  then show ?case by (simp add: return_Inr)
next
  case (Cons row rows)
  from Cons.prems obtain s1 where
    s1: "s1 = s\<lparr>trace := trace s @ [AppendRow row]\<rparr>" and
    rest: "appendRows w rows s1 = (Inr u, s')"
    by (auto simp: Inr_simps)
  from Cons.IH [OF rest] show ?case
    by (simp add: s1)
qed

lemma requestPresignedUploadUrl_Inr:
  "requestPresignedUploadUrl w f s = (Inr p, s') \<Longrightarrow>
   s' = s\<lparr>trace := trace s @ [GetPresignedUpload f]\<rparr>"
  by (auto simp: requestPresignedUploadUrl_def Inr_simps)

lemma uploadParquetUsingPresignedUrl_Inr:
  "uploadParquetUsingPresignedUrl w url p s = (Inr u, s') \<Longrightarrow>
   \<exists>len. s' = s\<lparr>trace := trace s @ [Stat p, AxiosPut url p len]\<rparr>"
  by (auto simp: uploadParquetUsingPresignedUrl_def Inr_simps)

lemma import_Inr:
  "(if dd then importDataFromAppendOnlyDedup w t key pk else importDataFromPresignedUrl w t key) s =
     (Inr u, s') \<Longrightarrow>
   s' = s\<lparr>trace := trace s @ [import_request dd t key pk]\<rparr>"
  by (auto simp: importDataFromAppendOnlyDedup_def importDataFromPresignedUrl_def Inr_simps
      import_request_def split: if_splits)

lemma deleteFileFromS3_Inr:
  "deleteFileFromS3 w key s = (Inr u, s') \<Longrightarrow> s' = s\<lparr>trace := trace s @ [DeleteFiles key]\<rparr>"
  by (auto simp: deleteFileFromS3_def Inr_simps)

lemma write_upload_import_Inr:
  assumes "write_upload_import w t d dd pk tf s = (Inr u, s')"
  shows "\<exists>entries uuid url key len. Object_entries (sample_of d) = Inr entries \<and>
     s' = s\<lparr>trace := trace s @ tl (staging_events t entries d tf uuid url len) @
                       [import_request dd t key pk, DeleteFiles key]\<rparr>"
proof -
  from assms obtain entries wr s1 s2 s3 cl presigned s4 s5 s6 where
    entries: "Object_entries (sample_of d) = Inr entries" and
    s1: "call w (OpenFile (schemaFields entries) tf) s = (Inr wr, s1)" and
    s2: "appendRows w d s1 = (Inr (), s2)" and
    s3: "call w CloseWriter s2 = (Inr cl, s3)" and
    s4: "requestPresignedUploadUrl w (t @ ''_'' @ uuidv4 w (trace s3) @ ''.parquet'') s3 =
           (Inr presigned, s4)" and
    s5: "uploadParquetUsingPresignedUrl w (fst presigned) tf s4 = (Inr (), s5)" and
    s6: "(if dd then importDataFromAppendOnlyDedup w t (snd presigned) pk
          else importDataFromPresignedUrl w t (snd presigned)) s5 = (Inr (), s6)" and
    s7: "deleteFileFromS3 w (snd presigned) s6 = (Inr u, s')"
    unfolding write_upload_import_def bind_Inr lift_Inr by auto
  obtain len where len: "s5 = s4\<lparr>trace := trace s4 @ [Stat tf, AxiosPut (fst presigned) tf len]\<rparr>"
    using uploadParquetUsingPresignedUrl_Inr [OF s5] by blast
  have "s' = s\<lparr>trace := trace s @
        tl (staging_events t entries d tf (uuidv4 w (trace s3)) (fst presigned) len) @
        [import_request dd t (snd presigned) pk, DeleteFiles (snd presigned)]\<rparr>"
    using s1 appendRows_Inr [OF s2] s3 requestPresignedUploadUrl_Inr [OF s4] len
      import_Inr [OF s6] deleteFileFromS3_Inr [OF s7]
    by (simp add: call_Inr staging_events_def)
  with entries show ?thesis
    by blast
qed

lemma prepare_table_Inr:
  assumes "prepare_table w t d create replace s = (Inr u, s')"
  shows "\<exists>entries. (create \<or> replace \<longrightarrow> Object_entries (sample_of d) = Inr entries) \<and>
     s' = s\<lparr>trace := trace s @
            (if create \<or> replace then schema_requests t else []) @
            (if replace then [drop_request t] else []) @
            (if create \<or> replace then [table_request t entries] else [])\<rparr>"
proof (cases "create \<or> replace")
  case False
  then show ?thesis
    using assms by (simp add: prepare_table_def Inr_simps)
next
  case True
  from assms True obtain s1 s2 where
    s1: "createDatabaseAndSchema w t s = (Inr (), s1)" and
    s2: "(if replace then replaceExistingTable w t else io_return ()) s1 = (Inr (), s2)" and
    s3: "createTable w t d s2 = (Inr u, s')"
    unfolding prepare_table_def bind_Inr by auto
  obtain entries where entries: "Object_entries (sample_of d) = Inr entries"
    and e3: "s' = s2\<lparr>trace := trace s2 @ [table_request t entries]\<rparr>"
    using createTable_Inr [OF s3] by blast
  have e2: "s2 = s1\<lparr>trace := trace s1 @ (if replace then [drop_request t] else [])\<rparr>"
    using s2 replaceExistingTable_Inr [of w t s1 "()" s2] by (auto simp: return_Inr split: if_splits)
  show ?thesis
    using True entries createDatabaseAndSchema_Inr [OF s1] e2 e3
    by (intro exI [of _ entries]) simp
qed

lemma push_steps_Inr:
  assumes "push_steps w t d create replace dd pk s = (Inr u, s')"
  shows "\<exists>entries tf uuid url key len. Object_entries (sample_of d) = Inr entries \<and>
     s' = s\<lparr>trace := trace s @
            (if create \<or> replace then schema_requests t else []) @
            (if replace then [drop_request t] else []) @
            (if create \<or> replace then [table_request t entries] else []) @
            staging_events t entries d tf uuid url len @
            [import_request dd t key pk, DeleteFiles key, Cleanup tf]\<rparr>"
proof -
  from assms obtain s1 tf s2 s3 where
    s1: "prepare_table w t d create replace s = (Inr (), s1)" and
    s2: "call w TmpFile s1 = (Inr tf, s2)" and
    s3: "write_upload_import w t d dd pk tf s2 = (Inr u, s3)" and
    s4: "s' = cleanup tf s3"
    unfolding push_steps_prepare bind_Inr finally_Inr by auto
  obtain entries uuid url key len where
    entries: "Object_entries (sample_of d) = Inr entries" and
    e3: "s3 = s2\<lparr>trace := trace s2 @ tl (staging_events t entries d tf uuid url len) @
                       [import_request dd t key pk, DeleteFiles key]\<rparr>"
    using write_upload_import_Inr [OF s3] by blast
  obtain entries' where
    e1: "s1 = s\<lparr>trace := trace s @
            (if create \<or> replace then schema_requests t else []) @
            (if replace then [drop_request t] else []) @
            (if create \<or> replace then [table_request t entries'] else [])\<rparr>"
    and same: "create \<or> replace \<longrightarrow> Object_entries (sample_of d) = Inr entries'"
    using prepare_table_Inr [OF s1] by blast
  have e1': "s1 = s\<lparr>trace := trace s @
            (if create \<or> replace then schema_requests t else []) @
            (if replace then [drop_request t] else []) @
            (if create \<or> replace then [table_request t entries] else [])\<rparr>"
    using e1 same entries by auto
  have "s' = s\<lparr>trace := trace s @
            (if create \<or> replace then schema_requests t else []) @
            (if replace then [drop_request t] else []) @
            (if create \<or> replace then [table_request t entries] else []) @
            staging_events t entries d tf uuid url len @
            [import_request dd t key pk, DeleteFiles key, Cleanup tf]\<rparr>"
    using s2 e3 s4 by (simp add: e1' call_Inr cleanup_def staging_events_def)
  with entries show ?thesis
    by blast
qed

lemma returnsI: "(\<And>s. \<exists>x s'. m s = (Inr x, s') \<and> P x) \<Longrightarrow> returns P m"
  by (simp add: returns_def)

lemma returnsD: "returns P m \<Longrightarrow> \<exists>x s'. m s = (Inr x, s') \<and> P x"
  by (simp add: returns_def)

lemma returns_weaken: "returns P m \<Longrightarrow> (\<And>x. P x \<Longrightarrow> Q x) \<Longrightarrow> returns Q m"
  unfolding returns_def by blast

lemma returns_return: "P x \<Longrightarrow> returns P (io_return x)"
  by (simp add: returns_def io_return_def)

lemma returns_lift: "P x \<Longrightarrow> returns P (io_lift (Inr x))"
  by (simp add: returns_def io_lift_def)

lemma returns_bind:
  assumes "returns P m" "\<And>x. P x \<Longrightarrow> returns Q (f x)"
  shows "returns Q (io_bind m f)"
proof (rule returnsI)
  fix s
  obtain x s1 where m: "m s = (Inr x, s1)" "P x"
    using returnsD [OF assms(1)] by blast
  obtain y s2 where "f x s1 = (Inr y, s2)" "Q y"
    using returnsD [OF assms(2) [OF m(2)]] by blast
  with m show "\<exists>y s'. io_bind m f s = (Inr y, s') \<and> Q y"
    by (simp add: io_bind_apply)
qed

lemma returns_catch: "returns P m \<Longrightarrow> returns P (io_catch m h)"
  unfolding returns_def
  by (intro allI, drule_tac x = s in spec) (auto simp: io_catch_apply)

lemma returns_finally: "returns P m \<Longrightarrow> returns P (io_finally m c)"
  unfolding returns_def
  by (intro allI, drule_tac x = s in spec) (auto simp: io_finally_apply)

lemma returns_call:
  "answers w f \<Longrightarrow> returns (\<lambda>v. v \<noteq> JUndefined \<and> v \<noteq> JNull) (call w ev)"
  by (simp add: returns_def answers_def call_apply)

lemma returns_state: "(\<And>s0. returns P (f s0)) \<Longrightarrow> returns P (\<lambda>s. f s s)"
  by (simp add: returns_def)

lemma get_prop_body: "v \<noteq> JUndefined \<Longrightarrow> v \<noteq> JNull \<Longrightarrow> \<exists>x. get_prop v k = Inr x"
  by (cases v) auto

lemma Object_entries_body: "v \<noteq> JUndefined \<Longrightarrow> v \<noteq> JNull \<Longrightarrow> \<exists>x. Object_entries v = Inr x"
  by (cases v) auto

lemma returns_call_unit:
  "answers w f \<Longrightarrow> returns (\<lambda>u. True) (io_bind (call w ev) (\<lambda>res. io_return ()))"
  by (rule returns_bind [OF returns_call]) (simp_all add: returns_return)

lemma returns_createDatabaseAndSchema:
  "answers w f \<Longrightarrow> returns (\<lambda>u. True) (createDatabaseAndSchema w t)"
  unfolding createDatabaseAndSchema_def Let_def
  by (intro returns_bind [where P = "\<lambda>u. True"] returns_catch returns_call_unit) simp_all

lemma returns_createTable:
  assumes "answers w f" "sample_of d \<noteq> JUndefined" "sample_of d \<noteq> JNull"
  shows "returns (\<lambda>u. True) (createTable w t d)"
proof -
  obtain entries where "Object_entries (sample_of d) = Inr entries"
    using Object_entries_body [OF assms(2,3)] by blast
  then show ?thesis
    unfolding createTable_def Let_def
    by (simp, intro returns_bind [where P = "\<lambda>u. True"] returns_lift returns_call_unit [OF assms(1)])
       simp
qed

lemma returns_prepare_table:
  assumes "answers w f" "sample_of d \<noteq> JUndefined" "sample_of d \<noteq> JNull"
  shows "returns (\<lambda>u. True) (prepare_table w t d create replace)"
  unfolding prepare_table_def replaceExistingTable_def
  by (intro returns_bind [where P = "\<lambda>u. True"])
     (simp_all add: returns_return returns_createDatabaseAndSchema [OF assms(1)]
        returns_createTable [OF assms] returns_call_unit [OF assms(1)])

lemma returns_appendRows: "answers w f \<Longrightarrow> returns (\<lambda>u. True) (appendRows w d)"
proof (induction d)
  case Nil
  then show ?case by (simp add: returns_return)
next
  case (Cons row rows)
  then show ?case
    by (simp, intro returns_bind [OF returns_call]) simp_all
qed

lemma returns_lift_prop:
  "v \<noteq> JUndefined \<and> v \<noteq> JNull \<Longrightarrow> returns (\<lambda>u. True) (io_lift (get_prop v k))"
  using get_prop_body [of v k] by (auto simp: returns_def io_lift_def)

lemma returns_requestPresignedUploadUrl:
  assumes "answers w f"
  shows "returns (\<lambda>u. True) (requestPresignedUploadUrl w name)"
  unfolding requestPresignedUploadUrl_def
proof (rule returns_bind [OF returns_call [OF assms]])
  fix data :: jsval
  assume body: "data \<noteq> JUndefined \<and> data \<noteq> JNull"
  obtain url key where "get_prop data ''presignedUrl'' = Inr url" "get_prop data ''key'' = Inr key"
    using body get_prop_body [of data] by blast
  then show "returns (\<lambda>u. True)
      (io_lift (case get_prop data ''presignedUrl'' of
                  Inl e \<Rightarrow> Inl e
                | Inr presignedUrl \<Rightarrow>
                    (case get_prop data ''key'' of
                       Inl e \<Rightarrow> Inl e
                     | Inr key \<Rightarrow> Inr (presignedUrl, key))))"
    by (simp add: returns_lift)
qed

lemma returns_uploadParquetUsingPresignedUrl:
  assumes "answers w f"
  shows "returns (\<lambda>u. True) (uploadParquetUsingPresignedUrl w url p)"
  unfolding uploadParquetUsingPresignedUrl_def
  by (intro returns_bind [OF returns_call [OF assms]] returns_bind [OF returns_lift_prop]
      returns_call_unit [OF assms])

lemma returns_import:
  assumes "answers w f"
  shows "returns (\<lambda>u. True)
     (if dd then importDataFromAppendOnlyDedup w t key pk else importDataFromPresignedUrl w t key)"
  unfolding importDataFromAppendOnlyDedup_def importDataFromPresignedUrl_def
  by (simp add: returns_call_unit [OF assms])

lemma returns_deleteFileFromS3:
  "answers w f \<Longrightarrow> returns (\<lambda>u. True) (deleteFileFromS3 w key)"
  unfolding deleteFileFromS3_def by (rule returns_call_unit)

lemma returns_write_upload_import:
  assumes "answers w f" "sample_of d \<noteq> JUndefined" "sample_of d \<noteq> JNull"
  shows "returns (\<lambda>u. True) (write_upload_import w t d dd pk tf)"
proof -
  obtain entries where entries: "Object_entries (sample_of d) = Inr entries"
    using Object_entries_body [OF assms(2,3)] by blast
  have tail: "returns (\<lambda>u. True)
     (io_bind (requestPresignedUploadUrl w name)
       (\<lambda>presigned.
     io_bind (uploadParquetUsingPresignedUrl w (fst presigned) tf)
       (\<lambda>u.
     io_bind (if dd
              then importDataFromAppendOnlyDedup w t (snd presigned) pk
              else importDataFromPresignedUrl w t (snd presigned))
       (\<lambda>u. deleteFileFromS3 w (snd presigned)))))" for name
    by (intro returns_bind [where P = "\<lambda>u. True"] returns_requestPresignedUploadUrl [OF assms(1)]
        returns_uploadParquetUsingPresignedUrl [OF assms(1)] returns_import [OF assms(1)]
        returns_deleteFileFromS3 [OF assms(1)])
  have tail': "returns (\<lambda>u. True) (\<lambda>s.
     io_bind (requestPresignedUploadUrl w (t @ ''_'' @ uuidv4 w (trace s) @ ''.parquet''))
       (\<lambda>presigned.
     io_bind (uploadParquetUsingPresignedUrl w (fst presigned) tf)
       (\<lambda>u.
     io_bind (if dd
              then importDataFromAppendOnlyDedup w t (snd presigned) pk
              else importDataFromPresignedUrl w t (snd presigned))
       (\<lambda>u. deleteFileFromS3 w (snd presigned)))) s)"
    by (rule returnsI) (rule returnsD [OF tail])
  show ?thesis
    unfolding write_upload_import_def entries
    by (intro returns_bind [where P = "\<lambda>u. True"] returns_lift returns_appendRows [OF assms(1)]
        returns_weaken [OF returns_call [OF assms(1)]] tail') simp_all
qed

lemma returns_push_steps:
  assumes "answers w f" "sample_of d \<noteq> JUndefined" "sample_of d \<noteq> JNull"
  shows "returns (\<lambda>u. True) (push_steps w t d create replace dd pk)"
  unfolding push_steps_prepare
  by (intro returns_bind [where P = "\<lambda>u. True"] returns_prepare_table [OF assms]
      returns_weaken [OF returns_call [OF assms(1)]] returns_finally
      returns_write_upload_import [OF assms]) simp_all

lemma authenticated_push_Inr:
  assumes run: "authenticated_push w t d opts s = (Inr u, s')"
    and opts: "options_of opts = (create, replace, dd, pk)"
  shows "\<not> no_token s \<and>
    (length (js_split CHR ''.'' t) = 1 \<or> length (js_split CHR ''.'' t) = 3) \<and>
    (\<exists>entries tf uuid url key len. Object_entries (sample_of d) = Inr entries \<and>
       s' = s\<lparr>trace := trace s @ lifecycle_requests (full_name t) entries create replace @
              staging_events (full_name t) entries d tf uuid url len @
              [import_request dd (full_name t) key pk, DeleteFiles key, Cleanup tf]\<rparr>)"
proof -
  have name: "length (js_split CHR ''.'' t) = 1 \<or> length (js_split CHR ''.'' t) = 3"
    using run authenticated_push_invalid [of t w d opts s] by auto
  have tok: "\<not> no_token s"
    using run authenticated_push_no_token [OF name, of s w d opts] by auto
  have "push_steps w (full_name t) d create replace dd pk s = (Inr u, s')"
    using run opts by (simp add: authenticated_push_valid [OF name tok] catch_Inr full_name_def)
  from push_steps_Inr [OF this] show ?thesis
    using name tok by (simp add: lifecycle_requests_def)
qed

lemma first_attempt:
  "\<not> no_token s \<Longrightarrow> operation s = (Inr x, s') \<Longrightarrow> ensureAuthenticated w operation s = (Inr x, s')"
  by (simp add: ensureAuthenticated_def loop_token maxAttempts_def)

lemma authenticated_push_returns:
  assumes "answers w f" "sample_of d \<noteq> JUndefined" "sample_of d \<noteq> JNull"
    and tok: "\<not> no_token s"
    and name: "length (js_split CHR ''.'' t) = 1 \<or> length (js_split CHR ''.'' t) = 3"
  shows "\<exists>s'. authenticated_push w t d opts s = (Inr (), s')"
proof -
  obtain create replace dd pk where opts: "options_of opts = (create, replace, dd, pk)"
    by (cases "options_of opts") auto
  obtain s' where "push_steps w (full_name t) d create replace dd pk s = (Inr (), s')"
    using returnsD [OF returns_push_steps [OF assms(1-3)]] by (metis (full_types) old.unit.exhaust)
  then show ?thesis
    using opts by (simp add: authenticated_push_valid [OF name tok] catch_Inr full_name_def)
qed

lemma sample_nonempty: "Object_entries (sample_of d) = Inr entries \<Longrightarrow> d \<noteq> []"
  by (auto simp: sample_of_def)

lemma answers_accepting: "answers accepting (\<lambda>h. ok_body)"
proof -
  have "ok_body ev \<noteq> JUndefined \<and> ok_body ev \<noteq> JNull" for ev
    by (cases ev) simp_all
  then show ?thesis
    by (simp add: answers_def accepting_def service_def)
qed

lemma students_sample: "sample_of students \<noteq> JUndefined" "sample_of students \<noteq> JNull"
  by (simp_all add: sample_of_def students_def)

lemma token_held: "\<not> no_token (client_with (c # cs) evs)"
  by (simp add: no_token_def token_def client_with_def)

subsection \<open>Every run of a push\<close>

lemma write_upload_import_stage:
  "write_upload_import w t d dd pk tf =
     io_bind (stage_file w t d tf)
       (\<lambda>presigned.
     io_bind (if dd
              then importDataFromAppendOnlyDedup w t (snd presigned) pk
              else importDataFromPresignedUrl w t (snd presigned))
       (\<lambda>u. deleteFileFromS3 w (snd presigned)))"
  by (rule ext)
     (simp add: write_upload_import_def stage_file_def io_bind_apply io_return_def
       split: prod.splits sum.splits)

lemma hoare_stage_file: "hoare (issues before_import) (stage_file w t d tf)"
proof -
  note adm = admits_issues [of before_import]
  have K: "\<And>ev. phase_of ev = WriteFile \<Longrightarrow> before_import ev"
    "\<And>ev. phase_of ev = Upload \<Longrightarrow> before_import ev"
    by (simp_all add: before_import_def)
  have tail: "hoare (issues before_import)
     (io_bind (requestPresignedUploadUrl w name)
       (\<lambda>presigned.
     io_bind (uploadParquetUsingPresignedUrl w (fst presigned) tf)
       (\<lambda>u. io_return presigned)))" for name
    by (intro hoare_bind [OF adm] hoare_requestPresignedUploadUrl [OF adm]
        hoare_uploadParquetUsingPresignedUrl [OF adm] hoare_return [OF adm] K)
  have tail': "hoare (issues before_import) (\<lambda>s.
     io_bind (requestPresignedUploadUrl w (t @ ''_'' @ uuidv4 w (trace s) @ ''.parquet''))
       (\<lambda>presigned.
     io_bind (uploadParquetUsingPresignedUrl w (fst presigned) tf)
       (\<lambda>u. io_return presigned)) s)"
    by (rule hoareI) (rule hoareD [OF tail])
  show ?thesis
    unfolding stage_file_def
    by (intro hoare_bind [OF adm] hoare_lift [OF adm] hoare_call [OF adm]
        hoare_appendRows [OF adm] K tail') (simp_all add: K)
qed

lemma import_apply:
  "(if dd then importDataFromAppendOnlyDedup w t key pk else importDataFromPresignedUrl w t key) s =
     (case respond w (trace s) (import_request dd t key pk) of
        Resolve v \<Rightarrow> Inr () | Reject e \<Rightarrow> Inl e,
      s\<lparr>trace := trace s @ [import_request dd t key pk]\<rparr>)"
  by (simp add: importDataFromAppendOnlyDedup_def importDataFromPresignedUrl_def import_request_def
      io_bind_apply call_apply io_return_def split: outcome.splits)

lemma deleteFileFromS3_trace:
  "trace (snd (deleteFileFromS3 w key s)) = trace s @ [DeleteFiles key]"
  by (simp add: deleteFileFromS3_def io_bind_apply call_apply io_return_def split: outcome.splits)

lemma write_upload_import_shape:
  "\<exists>evs. list_all before_import evs \<and>
     (trace (snd (write_upload_import w t d dd pk tf s)) = trace s @ evs \<or>
      (\<exists>key e. respond w (trace s @ evs) (import_request dd t key pk) = Reject e \<and>
         trace (snd (write_upload_import w t d dd pk tf s)) =
           trace s @ evs @ [import_request dd t key pk]) \<or>
      (\<exists>key v. respond w (trace s @ evs) (import_request dd t key pk) = Resolve v \<and>
         trace (snd (write_upload_import w t d dd pk tf s)) =
           trace s @ evs @ [import_request dd t key pk, DeleteFiles key]))"
proof -
  obtain r s1 where st: "stage_file w t d tf s = (r, s1)"
    by (cases "stage_file w t d tf s")
  obtain evs where evs: "trace s1 = trace s @ evs" "list_all before_import evs"
    using hoareD [OF hoare_stage_file [of w t d tf], of s] st
    by (auto simp: issues_def)
  show ?thesis
  proof (cases r)
    case (Inl e)
    then have "trace (snd (write_upload_import w t d dd pk tf s)) = trace s @ evs"
      using st evs by (simp add: write_upload_import_stage io_bind_apply)
    with evs(2) show ?thesis
      by blast
  next
    case (Inr presigned)
    let ?imp = "import_request dd t (snd presigned) pk"
    show ?thesis
    proof (cases "respond w (trace s1) ?imp")
      case (Reject e)
      then have "trace (snd (write_upload_import w t d dd pk tf s)) = trace s @ evs @ [?imp]"
        using st Inr evs by (simp add: write_upload_import_stage io_bind_apply import_apply)
      with evs Reject show ?thesis
        by (intro exI [of _ evs]) auto
    next
      case (Resolve v)
      then have "trace (snd (write_upload_import w t d dd pk tf s)) =
          trace s @ evs @ [?imp, DeleteFiles (snd presigned)]"
        using st Inr evs
        by (simp add: write_upload_import_stage io_bind_apply import_apply deleteFileFromS3_trace)
      with evs Resolve show ?thesis
        by (intro exI [of _ evs]) auto
    qed
  qed
qed

lemma finally_shape:
  "\<exists>evs. trace (snd (io_finally (write_upload_import w t d dd pk tf) (cleanup tf) s)) = trace s @ evs \<and>
     after_tmp w (trace s) t dd pk tf evs"
proof -
  obtain evsB where b: "list_all before_import evsB"
    "trace (snd (write_upload_import w t d dd pk tf s)) = trace s @ evsB \<or>
      (\<exists>key e. respond w (trace s @ evsB) (import_request dd t key pk) = Reject e \<and>
         trace (snd (write_upload_import w t d dd pk tf s)) =
           trace s @ evsB @ [import_request dd t key pk]) \<or>
      (\<exists>key v. respond w (trace s @ evsB) (import_request dd t key pk) = Resolve v \<and>
         trace (snd (write_upload_import w t d dd pk tf s)) =
           trace s @ evsB @ [import_request dd t key pk, DeleteFiles key])"
    using write_upload_import_shape [of w t d dd pk tf s] by blast
  have fin: "trace (snd (io_finally (write_upload_import w t d dd pk tf) (cleanup tf) s)) =
      trace (snd (write_upload_import w t d dd pk tf s)) @ [Cleanup tf]"
    by (simp add: io_finally_apply cleanup_def split: prod.splits)
  from b(2) show ?thesis
  proof (elim disjE exE conjE)
    assume "trace (snd (write_upload_import w t d dd pk tf s)) = trace s @ evsB"
    then show ?thesis
      using b(1) fin unfolding after_tmp_def
      by (intro exI [of _ "evsB @ [Cleanup tf]"] conjI exI [of _ evsB]) simp_all
  next
    fix key e
    assume "respond w (trace s @ evsB) (import_request dd t key pk) = Reject e"
      "trace (snd (write_upload_import w t d dd pk tf s)) =
         trace s @ evsB @ [import_request dd t key pk]"
    then show ?thesis
      using b(1) fin unfolding after_tmp_def
      by (intro exI [of _ "evsB @ [import_request dd t key pk, Cleanup tf]"] conjI exI [of _ evsB])
         auto
  next
    fix key v
    assume "respond w (trace s @ evsB) (import_request dd t key pk) = Resolve v"
      "trace (snd (write_upload_import w t d dd pk tf s)) =
         trace s @ evsB @ [import_request dd t key pk, DeleteFiles key]"
    then show ?thesis
      using b(1) fin unfolding after_tmp_def
      by (intro exI [of _ "evsB @ [import_request dd t key pk, DeleteFiles key, Cleanup tf]"]
          conjI exI [of _ evsB]) auto
  qed
qed

lemma push_steps_shape:
  "\<exists>evs. trace (snd (push_steps w t d create replace dd pk s)) = trace s @ evs \<and>
     push_run w (trace s) t dd pk evs"
proof -
  let ?sql = "\<lambda>ev. phase_of ev = Sql"
  obtain r1 s1 where p: "prepare_table w t d create replace s = (r1, s1)"
    by (cases "prepare_table w t d create replace s")
  obtain evsA where a: "trace s1 = trace s @ evsA" "list_all ?sql evsA"
    using hoareD [OF hoare_prepare_table [OF admits_issues [of ?sql], of w t d create replace], of s] p
    by (auto simp: issues_def)
  show ?thesis
  proof (cases r1)
    case (Inl e)
    then have "trace (snd (push_steps w t d create replace dd pk s)) = trace s @ evsA"
      using p a by (simp add: push_steps_prepare io_bind_apply)
    then show ?thesis
      using a(2) unfolding push_run_def by (intro exI [of _ evsA]) auto
  next
    case (Inr u)
    show ?thesis
    proof (cases "respond w (trace s1) TmpFile")
      case (Reject e)
      then have "trace (snd (push_steps w t d create replace dd pk s)) = trace s @ evsA @ [TmpFile]"
        using p a Inr by (simp add: push_steps_prepare io_bind_apply call_apply)
      then show ?thesis
        using a Reject unfolding push_run_def
        by (intro exI [of _ "evsA @ [TmpFile]"] conjI exI [of _ evsA]) auto
    next
      case (Resolve tf)
      let ?s2 = "s1\<lparr>trace := trace s1 @ [TmpFile]\<rparr>"
      obtain rest where rest:
        "trace (snd (io_finally (write_upload_import w t d dd pk tf) (cleanup tf) ?s2)) =
           trace ?s2 @ rest"
        "after_tmp w (trace ?s2) t dd pk tf rest"
        using finally_shape [of w t d dd pk tf ?s2] by blast
      have "trace (snd (push_steps w t d create replace dd pk s)) = trace s @ evsA @ TmpFile # rest"
        using p a Inr Resolve rest(1) by (simp add: push_steps_prepare io_bind_apply call_apply)
      then show ?thesis
        using a Resolve rest(2) unfolding push_run_def
        by (intro exI [of _ "evsA @ TmpFile # rest"] conjI exI [of _ evsA]) auto
    qed
  qed
qed

lemma push_run_empty: "push_run w old t dd pk []"
  unfolding push_run_def by (intro exI [of _ "[]"]) simp

lemma authenticated_push_shape:
  assumes "options_of opts = (create, replace, dd, pk)"
  shows "\<exists>evs. trace (snd (authenticated_push w t d opts s)) = trace s @ evs \<and>
     push_run w (trace s) (full_name t) dd pk evs"
proof (cases "(length (js_split CHR ''.'' t) = 1 \<or> length (js_split CHR ''.'' t) = 3) \<and>
    \<not> no_token s")
  case False
  then have "trace (snd (authenticated_push w t d opts s)) = trace s @ []"
    using authenticated_push_invalid [of t w d opts s] authenticated_push_no_token [of t s w d opts]
    by (cases "length (js_split CHR ''.'' t) = 1 \<or> length (js_split CHR ''.'' t) = 3") auto
  then show ?thesis
    using push_run_empty by blast
next
  case True
  have "snd (authenticated_push w t d opts s) =
      snd (push_steps w (full_name t) d create replace dd pk s)"
    using True assms
    by (simp add: authenticated_push_valid full_name_def io_catch_apply handleApiError_def
        io_throw_def split: prod.splits sum.splits)
  then show ?thesis
    using push_steps_shape [of w "full_name t" d create replace dd pk s] by simp
qed

lemma unique_split:
  assumes "xs @ a # ys = pre @ b # post" "P b" "list_all (\<lambda>x. \<not> P x) xs"
    "list_all (\<lambda>x. \<not> P x) ys"
  shows "pre = xs \<and> b = a \<and> post = ys"
  using assms
proof (induction xs arbitrary: pre)
  case Nil
  then show ?case
    by (cases pre) (auto simp: list_all_iff)
next
  case (Cons x xs)
  then show ?case
    by (cases pre) (auto simp: list_all_iff)
qed

lemma no_split: "xs = pre @ b # post \<Longrightarrow> P b \<Longrightarrow> list_all (\<lambda>x. \<not> P x) xs \<Longrightarrow> False"
  by (auto simp: list_all_iff)

lemma new_events_split:
  assumes "new = old @ evs" "new = pre @ ev # post" "length old \<le> length pre"
  shows "\<exists>pre'. pre = old @ pre' \<and> evs = pre' @ ev # post"
proof -
  have "old @ evs = pre @ ev # post"
    using assms by simp
  then obtain us where "old @ us = pre \<and> evs = us @ ev # post \<or> old = pre @ us \<and> us @ evs = ev # post"
    unfolding append_eq_append_conv2 by blast
  then show ?thesis
  proof
    assume "old @ us = pre \<and> evs = us @ ev # post"
    then show ?thesis by blast
  next
    assume h: "old = pre @ us \<and> us @ evs = ev # post"
    then have "us = []"
      using assms(3) by simp
    with h show ?thesis by auto
  qed
qed

lemma phase_import_request [simp]: "phase_of (import_request dd t key pk) = Import"
  by (simp add: import_request_def)

lemma list_all_phase:
  "list_all (\<lambda>ev. phase_of ev = p) evs \<Longrightarrow> (\<And>ev. phase_of ev = p \<Longrightarrow> \<not> P ev) \<Longrightarrow>
   list_all (\<lambda>ev. \<not> P ev) evs"
  by (auto simp: list_all_iff)

lemma list_all_before_import:
  "list_all before_import evs \<Longrightarrow>
   (\<And>ev. phase_of ev = WriteFile \<or> phase_of ev = Upload \<Longrightarrow> \<not> P ev) \<Longrightarrow>
   list_all (\<lambda>ev. \<not> P ev) evs"
  by (auto simp: list_all_iff before_import_def)

lemma after_tmp_released:
  assumes run: "after_tmp w old t dd pk tf rest" and split: "rest = pre' @ ev # post"
  shows "(phase_of ev = Import \<longrightarrow>
         (\<exists>key tf. ev = import_request dd t key pk \<and>
            (\<forall>v. respond w (old @ pre') ev = Resolve v \<longrightarrow> post = [DeleteFiles key, Cleanup tf]) \<and>
            (\<forall>e. respond w (old @ pre') ev = Reject e \<longrightarrow> post = [Cleanup tf]))) \<and>
      (phase_of ev = Unstage \<longrightarrow>
         (\<exists>before key v tf. old @ pre' = before @ [import_request dd t key pk] \<and>
            respond w before (import_request dd t key pk) = Resolve v \<and>
            ev = DeleteFiles key \<and> post = [Cleanup tf])) \<and>
      ev \<noteq> TmpFile \<and> rest \<noteq> [] \<and> last rest = Cleanup tf"
proof -
  obtain evsB where b: "list_all before_import evsB" and
    shape: "rest = evsB @ [Cleanup tf] \<or>
         (\<exists>key e. respond w (old @ evsB) (import_request dd t key pk) = Reject e \<and>
            rest = evsB @ [import_request dd t key pk, Cleanup tf]) \<or>
         (\<exists>key v. respond w (old @ evsB) (import_request dd t key pk) = Resolve v \<and>
            rest = evsB @ [import_request dd t key pk, DeleteFiles key, Cleanup tf])"
    using run unfolding after_tmp_def by blast
  let ?imp = "\<lambda>x. phase_of x = Import"
  let ?del = "\<lambda>x. phase_of x = Unstage"
  let ?tmp = "\<lambda>x. x = TmpFile"
  have nB: "list_all (\<lambda>x. \<not> ?imp x) evsB" "list_all (\<lambda>x. \<not> ?del x) evsB"
    "list_all (\<lambda>x. \<not> ?tmp x) evsB"
    by (rule list_all_before_import [OF b]; auto)+
  from shape show ?thesis
  proof (elim disjE exE conjE)
    assume r: "rest = evsB @ [Cleanup tf]"
    have none: "list_all (\<lambda>x. \<not> ?imp x) rest" "list_all (\<lambda>x. \<not> ?del x) rest"
      "list_all (\<lambda>x. \<not> ?tmp x) rest"
      using nB r by simp_all
    have "\<not> ?imp ev" "\<not> ?del ev" "\<not> ?tmp ev"
      using no_split [OF split, of ?imp] no_split [OF split, of ?del] no_split [OF split, of ?tmp]
        none
      by blast+
    then show ?thesis
      using r by simp
  next
    fix key e
    assume resp: "respond w (old @ evsB) (import_request dd t key pk) = Reject e"
      and r: "rest = evsB @ [import_request dd t key pk, Cleanup tf]"
    have eq: "evsB @ import_request dd t key pk # [Cleanup tf] = pre' @ ev # post"
      using r split by simp
    have none: "list_all (\<lambda>x. \<not> ?del x) rest" "list_all (\<lambda>x. \<not> ?tmp x) rest"
      using nB r by (simp_all add: import_request_def)
    have "\<not> ?del ev" "\<not> ?tmp ev"
      using no_split [OF split, of ?del] no_split [OF split, of ?tmp] none
      by blast+
    moreover have "pre' = evsB \<and> ev = import_request dd t key pk \<and> post = [Cleanup tf]"
      if "?imp ev"
      using unique_split [OF eq, of ?imp] that nB(1) by simp
    ultimately show ?thesis
      using r resp by auto
  next
    fix key v
    assume resp: "respond w (old @ evsB) (import_request dd t key pk) = Resolve v"
      and r: "rest = evsB @ [import_request dd t key pk, DeleteFiles key, Cleanup tf]"
    have eq1: "evsB @ import_request dd t key pk # [DeleteFiles key, Cleanup tf] = pre' @ ev # post"
      using r split by simp
    have eq2: "(evsB @ [import_request dd t key pk]) @ DeleteFiles key # [Cleanup tf] =
        pre' @ ev # post"
      using r split by simp
    have none: "list_all (\<lambda>x. \<not> ?tmp x) rest"
      using nB r by (simp add: import_request_def)
    have "\<not> ?tmp ev"
      using no_split [OF split, of ?tmp] none by blast
    moreover have "pre' = evsB \<and> ev = import_request dd t key pk \<and>
        post = [DeleteFiles key, Cleanup tf]" if "?imp ev"
      using unique_split [OF eq1, of ?imp] that nB(1) by simp
    moreover have "pre' = evsB @ [import_request dd t key pk] \<and> ev = DeleteFiles key \<and>
        post = [Cleanup tf]" if "?del ev"
      using unique_split [OF eq2, of ?del] that nB(2) by simp
    ultimately show ?thesis
      using r resp by auto
  qed
qed

lemma released_other:
  "ev \<noteq> TmpFile \<Longrightarrow> phase_of ev \<noteq> Import \<Longrightarrow> phase_of ev \<noteq> Unstage \<Longrightarrow>
   released w t dd pk pre ev post"
  by (simp add: released_def)

lemma released_sql: "phase_of ev = Sql \<Longrightarrow> released w t dd pk pre ev post"
  by (rule released_other) auto

lemma push_run_released:
  assumes run: "push_run w old t dd pk evs" and split: "evs = pre' @ ev # post"
  shows "released w t dd pk (old @ pre') ev post"
proof -
  obtain evsA where a: "list_all (\<lambda>x. phase_of x = Sql) evsA" and
    shape: "evs = evsA \<or>
         (\<exists>e. respond w (old @ evsA) TmpFile = Reject e \<and> evs = evsA @ [TmpFile]) \<or>
         (\<exists>tf rest. respond w (old @ evsA) TmpFile = Resolve tf \<and>
            after_tmp w (old @ evsA @ [TmpFile]) t dd pk tf rest \<and>
            evs = evsA @ TmpFile # rest)"
    using run unfolding push_run_def by blast
  have in_A: "released w t dd pk (old @ pre') ev post" if "ev \<in> set evsA"
    using a that by (intro released_sql) (auto simp: list_all_iff)
  from shape show ?thesis
  proof (elim disjE exE conjE)
    assume "evs = evsA"
    then have "ev \<in> set evsA"
      using split by auto
    then show ?thesis
      by (rule in_A)
  next
    fix e
    assume resp: "respond w (old @ evsA) TmpFile = Reject e" and r: "evs = evsA @ [TmpFile]"
    have "evsA @ [TmpFile] = pre' @ ev # post"
      using r split by simp
    then consider "ev \<in> set evsA" | "pre' = evsA" "ev = TmpFile" "post = []"
      by (auto simp: append_eq_append_conv2 Cons_eq_append_conv append_eq_Cons_conv)
    then show ?thesis
    proof cases
      case 1
      then show ?thesis by (rule in_A)
    next
      case 2
      then show ?thesis
        using resp by (simp add: released_def)
    qed
  next
    fix tf rest
    assume resp: "respond w (old @ evsA) TmpFile = Resolve tf"
      and after: "after_tmp w (old @ evsA @ [TmpFile]) t dd pk tf rest"
      and r: "evs = evsA @ TmpFile # rest"
    have "evsA @ TmpFile # rest = pre' @ ev # post"
      using r split by simp
    then consider "ev \<in> set evsA" | "pre' = evsA" "ev = TmpFile" "post = rest"
      | pre'' where "pre' = evsA @ TmpFile # pre''" "rest = pre'' @ ev # post"
      by (auto simp: append_eq_append_conv2 Cons_eq_append_conv append_eq_Cons_conv)
    then show ?thesis
    proof cases
      case 1
      then show ?thesis by (rule in_A)
    next
      case 2
      have "rest \<noteq> [] \<and> last rest = Cleanup tf"
        using after unfolding after_tmp_def by auto
      then show ?thesis
        using 2 resp by (simp add: released_def)
    next
      case 3
      from after_tmp_released [OF after 3(2)] show ?thesis
        using 3(1) by (simp add: released_def)
    qed
  qed
qed

lemma admits_follows:
  assumes stable: "\<And>pre ev post later. F pre ev post \<Longrightarrow> F pre ev (post @ later)"
    and silent: "\<And>pre ev. K ev \<Longrightarrow> F pre ev []"
  shows "admits (follows F) K"
  unfolding admits_def
proof (intro conjI allI impI)
  fix s
  show "follows F s s"
    unfolding follows_def by auto
next
  fix s ev
  assume "K ev"
  show "follows F s (s\<lparr>trace := trace s @ [ev]\<rparr>)"
    unfolding follows_def
  proof (intro conjI allI impI)
    show "\<exists>evs. trace (s\<lparr>trace := trace s @ [ev]\<rparr>) = trace s @ evs"
      by simp
  next
    fix pre e post
    assume h: "trace (s\<lparr>trace := trace s @ [ev]\<rparr>) = pre @ e # post \<and> length (trace s) \<le> length pre"
    then obtain pre' where "pre = trace s @ pre'" "[ev] = pre' @ e # post"
      using new_events_split [of "trace s @ [ev]" "trace s" "[ev]" pre e post] by auto
    then have "e = ev" "post = []"
      by (auto simp: Cons_eq_append_conv)
    then show "F pre e post"
      using silent [OF \<open>K ev\<close>] by simp
  qed
next
  fix s t u
  assume st: "follows F s t" and tu: "follows F t u"
  obtain e1 e2 where e: "trace t = trace s @ e1" "trace u = trace t @ e2"
    using st tu unfolding follows_def by blast
  show "follows F s u"
    unfolding follows_def
  proof (intro conjI allI impI)
    show "\<exists>evs. trace u = trace s @ evs"
      using e by simp
  next
    fix pre ev post
    assume h: "trace u = pre @ ev # post \<and> length (trace s) \<le> length pre"
    show "F pre ev post"
    proof (cases "length (trace t) \<le> length pre")
      case True
      then show ?thesis
        using tu h unfolding follows_def by blast
    next
      case False
      have "trace t @ e2 = pre @ ev # post"
        using h e by simp
      then obtain post1 where p: "trace t = pre @ ev # post1" "post = post1 @ e2"
        using False
        by (auto simp: append_eq_append_conv2 Cons_eq_append_conv append_eq_Cons_conv)
      have "F pre ev post1"
        using st p(1) h unfolding follows_def by blast
      then show ?thesis
        using stable p(2) by simp
    qed
  qed
qed

lemma released_later_stable:
  "released_later w t dd pk pre ev post \<Longrightarrow> released_later w t dd pk pre ev (post @ later)"
  unfolding released_later_def by auto

lemma released_later_quiet:
  "phase_of ev \<noteq> TempFile \<and> phase_of ev \<noteq> Import \<Longrightarrow> released_later w t dd pk pre ev []"
  unfolding released_later_def by auto

lemma released_released_later:
  "released w t dd pk pre ev post \<Longrightarrow> released_later w t dd pk pre ev post"
proof -
  assume r: "released w t dd pk pre ev post"
  have tmp: "Cleanup tf \<in> set post" if "ev = TmpFile" "respond w pre ev = Resolve tf" for tf
  proof -
    have "post \<noteq> [] \<and> last post = Cleanup tf"
      using r that unfolding released_def by blast
    then show ?thesis
      using last_in_set [of post] by auto
  qed
  have imp: "\<exists>key. ev = import_request dd t key pk \<and>
            (\<forall>v. respond w pre ev = Resolve v \<longrightarrow> (\<exists>rest. post = DeleteFiles key # rest)) \<and>
            (\<forall>e. respond w pre ev = Reject e \<longrightarrow> (\<exists>tf rest. post = Cleanup tf # rest))"
    if ph: "phase_of ev = Import"
  proof -
    obtain key tf where "ev = import_request dd t key pk"
      "\<forall>v. respond w pre ev = Resolve v \<longrightarrow> post = [DeleteFiles key, Cleanup tf]"
      "\<forall>e. respond w pre ev = Reject e \<longrightarrow> post = [Cleanup tf]"
      using r ph unfolding released_def by blast
    then show ?thesis
      by (intro exI [of _ key]) auto
  qed
  show ?thesis
    unfolding released_later_def using tmp imp by blast
qed

lemma push_released_later:
  assumes opts: "options_of opts = (create, replace, dd, pk)"
  shows "follows (released_later w (full_name t) dd pk) s (snd (push w t d opts s))"
proof -
  let ?F = "released_later w (full_name t) dd pk"
  let ?K = "\<lambda>ev. phase_of ev \<noteq> TempFile \<and> phase_of ev \<noteq> Import"
  have adm: "admits (follows ?F) ?K"
    by (rule admits_follows) (auto intro: released_later_stable released_later_quiet)
  have op: "hoare (follows ?F) (authenticated_push w t d opts)"
  proof (rule hoareI)
    fix s0
    obtain evs where evs: "trace (snd (authenticated_push w t d opts s0)) = trace s0 @ evs"
      and run: "push_run w (trace s0) (full_name t) dd pk evs"
      using authenticated_push_shape [OF opts] by blast
    show "follows ?F s0 (snd (authenticated_push w t d opts s0))"
      unfolding follows_def
    proof (intro conjI allI impI)
      show "\<exists>evs. trace (snd (authenticated_push w t d opts s0)) = trace s0 @ evs"
        using evs by blast
    next
      fix pre ev post
      assume h: "trace (snd (authenticated_push w t d opts s0)) = pre @ ev # post \<and>
          length (trace s0) \<le> length pre"
      then obtain pre' where "pre = trace s0 @ pre'" "evs = pre' @ ev # post"
        using new_events_split [OF evs] by blast
      with push_run_released [OF run] show "?F pre ev post"
        by (simp add: released_released_later)
    qed
  qed
  have lg: "hoare (follows ?F) (login w)"
  proof (rule hoareI)
    fix s0
    have "snd (login w s0) = s0\<lparr>trace := trace s0 @ [credentials s0]\<rparr> \<or>
        (\<exists>tok. snd (login w s0) = set_token tok (s0\<lparr>trace := trace s0 @ [credentials s0]\<rparr>))"
      by (auto simp: login_apply split: sum.splits jsval.splits)
    moreover have "follows ?F s0 (s0\<lparr>trace := trace s0 @ [credentials s0]\<rparr>)"
      by (rule admits_step [OF adm]) simp
    moreover have "follows ?F s0 (set_token tok s1) = follows ?F s0 s1" for tok s1
      by (simp add: follows_def set_token_def split: option.splits)
    ultimately show "follows ?F s0 (snd (login w s0))"
      by auto
  qed
  show ?thesis
    unfolding push_def by (rule hoareD [OF hoare_ensureAuthenticated [OF adm op lg]])
qed

subsection \<open>The attempts of the wrapper, one by one\<close>

lemma loop_settled:
  "attempt < maxAttempts \<Longrightarrow> \<not> no_token s \<Longrightarrow> operation s = (r, s1) \<Longrightarrow> settled r \<Longrightarrow>
   ensureAuthenticated_loop w operation attempt s = (r, s1)"
  by (cases r) (simp_all add: loop_token)

lemma loop_relogin_fails:
  "attempt < maxAttempts \<Longrightarrow> \<not> no_token s \<Longrightarrow> relogin_fails w operation s e s' \<Longrightarrow>
   ensureAuthenticated_loop w operation attempt s = (Inl e, s')"
  by (auto simp: relogin_fails_def loop_token)

lemma loop_stale:
  "attempt < maxAttempts \<Longrightarrow> \<not> no_token s \<Longrightarrow> stale w operation s s' \<Longrightarrow>
   ensureAuthenticated_loop w operation attempt s =
     ensureAuthenticated_loop w operation (attempt + 1) s'"
  by (auto simp: stale_def loop_token)

lemma stale_token: "stale w operation s s' \<Longrightarrow> \<not> no_token s'"
  by (auto simp: stale_def dest: login_has_token)

lemma signed_in_token: "signed_in w s s0 \<Longrightarrow> \<not> no_token s0"
  by (auto simp: signed_in_def split: if_splits dest: login_has_token)

lemma ensureAuthenticated_signed_in:
  assumes "signed_in w s s0"
  shows "ensureAuthenticated w operation s = ensureAuthenticated_loop w operation 0 s0"
proof (cases "no_token s")
  case True
  then have lg: "login w s = (Inr (), s0)"
    using assms by (simp add: signed_in_def)
  have "\<not> no_token s0"
    using signed_in_token [OF assms] .
  then show ?thesis
    using True lg by (simp add: ensureAuthenticated_def loop_no_token loop_token maxAttempts_def)
next
  case False
  then show ?thesis
    using assms by (simp add: signed_in_def ensureAuthenticated_def)
qed

lemma first_login_fails:
  "no_token s \<Longrightarrow> login w s = (Inl e, s') \<Longrightarrow> ensureAuthenticated w operation s = (Inl e, s')"
  by (simp add: ensureAuthenticated_def loop_no_token maxAttempts_def)

lemma second_attempt:
  assumes "signed_in w s s0" "stale w operation s0 s2"
  shows "ensureAuthenticated w operation s = ensureAuthenticated_loop w operation (Suc 0) s2"
  using loop_stale [of 0 s0 w operation s2] signed_in_token [OF assms(1)] assms
  by (simp add: ensureAuthenticated_signed_in maxAttempts_def)

lemma third_attempt:
  assumes "signed_in w s s0" "stale w operation s0 s2" "stale w operation s2 s4"
  shows "ensureAuthenticated w operation s = ensureAuthenticated_loop w operation (Suc (Suc 0)) s4"
  using loop_stale [of "Suc 0" s2 w operation s4] stale_token [OF assms(2)] assms
  by (simp add: second_attempt maxAttempts_def)

lemma attempts_exhausted:
  assumes "signed_in w s s0" "stale w operation s0 s2" "stale w operation s2 s4"
    "stale w operation s4 s6"
  shows "ensureAuthenticated w operation s =
    (Inl (ChakraAuthError ''Failed to authenticate after 3 attempts.''), s6)"
  using loop_stale [of "Suc (Suc 0)" s4 w operation s6] stale_token [OF assms(3)] assms
  by (simp add: third_attempt maxAttempts_def loop_done)

lemma staleI:
  "operation s = (Inl e, s1) \<Longrightarrow> isAuthError e \<Longrightarrow> login w s1 = (Inr (), s') \<Longrightarrow>
   stale w operation s s'"
  by (auto simp: stale_def)

lemma relogin_failsI:
  "operation s = (Inl e, s1) \<Longrightarrow> isAuthError e \<Longrightarrow> login w s1 = (Inl e', s') \<Longrightarrow>
   relogin_fails w operation s e' s'"
  by (auto simp: relogin_fails_def)

lemma signed_in_held: "\<not> no_token s \<Longrightarrow> signed_in w s s"
  by (simp add: signed_in_def)

lemma signed_in_login: "no_token s \<Longrightarrow> login w s = (Inr (), s0) \<Longrightarrow> signed_in w s s0"
  by (simp add: signed_in_def)

lemmas retry_simps =
  run_simps unauthorized_def stale_once_def stale_twice_def query_down_def auth_down_def
  login_down_after_def select1_def relogin_def

section \<open>The claims\<close>

subsection \<open>Login and the session token\<close>

text \<open>
  Claim C2, as the code has it. \<open>login\<close> succeeds exactly when the authentication endpoint
  answers and the \<open>token\<close> of its body is a string that starts with \<open>DDB_\<close>; then that
  string is the session token (and the header carries it). In every other case \<open>login\<close>
  fails and leaves the token and the header as they were (unset, if they were unset).
  The failure is never a \<open>ChakraAuthError\<close> of the client's making: a wrong prefix is a
  plain \<open>Error\<close>; a token that is not a string (also a body that is \<open>null\<close> or
  \<open>undefined\<close>, which has no token) is a \<open>TypeError\<close>; a failed call is the
  transport's error, as a \<open>ChakraAPIError\<close> with the response when the server answered
  and unchanged otherwise. In every case \<open>login\<close> has sent its one request.
\<close>

theorem login_sets_token:
  "(fst (login w s) = Inr () \<longleftrightarrow>
      (\<exists>d t. respond w (trace s) (credentials s) = Resolve d \<and>
             get_prop d ''token'' = Inr (JStr t) \<and> startsWith t TOKEN_PREFIX)) \<and>
   (\<forall>d t. respond w (trace s) (credentials s) = Resolve d \<and>
          get_prop d ''token'' = Inr (JStr t) \<and> startsWith t TOKEN_PREFIX \<longrightarrow>
          token (snd (login w s)) = Some t \<and>
          authorization (snd (login w s)) = Some (''Bearer '' @ t)) \<and>
   (\<forall>e. fst (login w s) = Inl e \<longrightarrow>
          token (snd (login w s)) = token s \<and>
          authorization (snd (login w s)) = authorization s \<and>
          (\<forall>m. e = ChakraAuthError m \<longrightarrow>
               respond w (trace s) (credentials s) = Reject (ChakraAuthError m)) \<and>
          (\<forall>d t. respond w (trace s) (credentials s) = Resolve d \<and>
                 get_prop d ''token'' = Inr (JStr t) \<longrightarrow>
                 e = Error (''Token must start with '' @ [quote] @ TOKEN_PREFIX @ [quote])) \<and>
          (\<forall>d. respond w (trace s) (credentials s) = Resolve d \<and>
               (\<forall>t. get_prop d ''token'' \<noteq> Inr (JStr t)) \<longrightarrow> e = TypeError) \<and>
          (\<forall>e'. respond w (trace s) (credentials s) = Reject e' \<longrightarrow> e = api_error e') \<and>
          (\<forall>m st d. respond w (trace s) (credentials s) = Reject (AxiosError m (Some (st, d))) \<longrightarrow>
               e = ChakraAPIError (api_message m d) (Some (st, d))) \<and>
          (\<forall>e'. respond w (trace s) (credentials s) = Reject e' \<and>
                (\<forall>m r. e' \<noteq> AxiosError m (Some r)) \<longrightarrow> e = e')) \<and>
   trace (snd (login w s)) = trace s @ [credentials s]"
proof -
  consider
      (rejected) e' where "respond w (trace s) (credentials s) = Reject e'"
    | (no_string) d where "respond w (trace s) (credentials s) = Resolve d"
        "\<forall>t. get_prop d ''token'' \<noteq> Inr (JStr t)"
    | (wrong_prefix) d t where "respond w (trace s) (credentials s) = Resolve d"
        "get_prop d ''token'' = Inr (JStr t)" "\<not> startsWith t TOKEN_PREFIX"
    | (accepted) d t where "respond w (trace s) (credentials s) = Resolve d"
        "get_prop d ''token'' = Inr (JStr t)" "startsWith t TOKEN_PREFIX"
    by (cases "respond w (trace s) (credentials s)") blast+
  then show ?thesis
  proof cases
    case rejected
    then show ?thesis
      using api_error_not_auth [of e'] api_error_plain [of e']
      by (auto simp: login_rejected token_def)
  next
    case no_string
    then show ?thesis
      by (simp add: login_no_string token_def)
  next
    case wrong_prefix
    then show ?thesis
      by (simp add: login_wrong_prefix token_def)
  next
    case accepted
    then show ?thesis
      using startsWith_nonempty [of t]
      by (simp add: login_accepted token_def set_token_def)
  qed
qed

theorem login_sets_token_witness:
  "fst (login accepting (Chakra ''key:secret:user'' False)) = Inr () \<and>
   token (snd (login accepting (Chakra ''key:secret:user'' False))) = Some ''DDB_token'' \<and>
   authorization (snd (login accepting (Chakra ''key:secret:user'' False))) =
     Some ''Bearer DDB_token'' \<and>
   fst (login auth_down (Chakra ''key:secret:user'' False)) =
     Inl (ChakraAPIError (JStr ''Request failed with status code 500'') (Some (500, JNull))) \<and>
   token (snd (login auth_down (Chakra ''key:secret:user'' False))) = None \<and>
   fst (login numeric_token (client_with ''DDB_old'' [])) = Inl TypeError \<and>
   token (snd (login numeric_token (client_with ''DDB_old'' []))) = Some ''DDB_old'' \<and>
   trace (snd (login numeric_token (client_with ''DDB_old'' []))) = [relogin]"
proof -
  let ?new = "Chakra ''key:secret:user'' False"
  let ?old = "client_with ''DDB_old'' []"
  have a: "respond accepting (trace ?new) (credentials ?new) =
        Resolve (JObj [(''token'', JStr ''DDB_token'')])"
      "get_prop (JObj [(''token'', JStr ''DDB_token'')]) ''token'' = Inr (JStr ''DDB_token'')"
      "startsWith ''DDB_token'' TOKEN_PREFIX"
    by (simp_all add: accepting_def service_def credentials_def Chakra_def nth_opt_def
          startsWith_def TOKEN_PREFIX_def)
  have d: "respond auth_down (trace ?new) (credentials ?new) =
        Reject (AxiosError ''Request failed with status code 500'' (Some (500, JNull)))"
      "api_message ''Request failed with status code 500'' JNull =
        JStr ''Request failed with status code 500''"
      "token ?new = None"
    by (simp_all add: auth_down_def service_def credentials_def Chakra_def nth_opt_def
          api_message_def token_def)
  have n: "respond numeric_token (trace ?old) (credentials ?old) =
        Resolve (JObj [(''token'', JNum (Finite 42))])"
      "\<forall>t. get_prop (JObj [(''token'', JNum (Finite 42))]) ''token'' \<noteq> Inr (JStr t)"
      "token ?old = Some ''DDB_old''" "trace ?old @ [credentials ?old] = [relogin]"
    by (simp_all add: numeric_token_def service_def credentials_def client_with_def nth_opt_def
          token_def relogin_def)
  note accepted = login_sets_token [of accepting ?new]
  note down = login_sets_token [of auth_down ?new]
  note numeric = login_sets_token [of numeric_token ?old]
  have r1: "fst (login accepting ?new) = Inr ()"
    using accepted a by blast
  have r2: "token (snd (login accepting ?new)) = Some ''DDB_token'' \<and>
      authorization (snd (login accepting ?new)) = Some (''Bearer '' @ ''DDB_token'')"
    using accepted a by blast
  have "fst (login auth_down ?new) \<noteq> Inr ()"
    using down d(1) by simp
  then obtain e where e: "fst (login auth_down ?new) = Inl e"
    by (cases "fst (login auth_down ?new)") auto
  have r3: "e = ChakraAPIError (api_message ''Request failed with status code 500'' JNull)
      (Some (500, JNull))"
    using down e d(1) by blast
  have r4: "token (snd (login auth_down ?new)) = token ?new"
    using down e by blast
  have "fst (login numeric_token ?old) \<noteq> Inr ()"
    using numeric n(1) by simp
  then obtain e' where e': "fst (login numeric_token ?old) = Inl e'"
    by (cases "fst (login numeric_token ?old)") auto
  have r5: "e' = TypeError"
    using numeric e' n(1,2) by blast
  have r6: "token (snd (login numeric_token ?old)) = token ?old"
    using numeric e' by blast
  have r7: "trace (snd (login numeric_token ?old)) = trace ?old @ [credentials ?old]"
    using numeric by blast
  show ?thesis
    using r1 r2 e r3 r4 e' r5 r6 r7 d(2,3) n(3,4) by simp
qed

text \<open>
  The claim as written fails: with a token that lacks the prefix, \<open>login\<close> raises a plain
  \<open>Error\<close>, not a \<open>ChakraAuthError\<close>; with the endpoint down it raises a
  \<open>ChakraAPIError\<close>.
\<close>

theorem login_error_counterexample:
  "fst (login wrong_prefix (Chakra ''key:secret:user'' False)) =
     Inl (Error (''Token must start with '' @ [quote] @ ''DDB_'' @ [quote])) \<and>
   fst (login auth_down (Chakra ''key:secret:user'' False)) =
     Inl (ChakraAPIError (JStr ''Request failed with status code 500'') (Some (500, JNull)))"
  by (simp add: wrong_prefix_def auth_down_def service_def credentials_def Chakra_def nth_opt_def
        startsWith_def TOKEN_PREFIX_def login_apply fetchToken_apply api_message_def)

subsection \<open>Type inference\<close>




subsection \<open>The Authorization header\<close>

text \<open>
  Claim C9, as the code has it. The header is absent at construction and removed by
  setting the token to \<open>null\<close>. The header is \<open>Bearer\<close> and the token exactly when
  there is a token: this holds at construction, after the setter for \<open>null\<close> and for
  every non-empty string, and \<open>login\<close>, \<open>push\<close> and \<open>execute\<close> keep it. The setter
  tests \<open>if (val)\<close>, so the empty string is stored as the token and the header is
  removed.
\<close>

theorem header_follows_token:
  "bearer_header (Chakra key q) \<and> authorization (Chakra key q) = None \<and>
   tokenValue (set_token None s) = None \<and> authorization (set_token None s) = None \<and>
   (val \<noteq> Some [] \<longrightarrow> bearer_header (set_token val s)) \<and>
   tokenValue (set_token (Some []) s) = Some [] \<and> authorization (set_token (Some []) s) = None \<and>
   (bearer_header s \<longrightarrow>
      bearer_header (snd (login w s)) \<and>
      bearer_header (snd (push w t d opts s)) \<and>
      bearer_header (snd (execute w sql ps s)))"
proof -
  let ?R = "\<lambda>s s'. bearer_header s \<longrightarrow> bearer_header s'"
  have setter: "val \<noteq> Some [] \<longrightarrow> bearer_header (set_token val s)"
    by (cases val) (auto simp: set_token_def bearer_header_def)
  have lg: "?R s (snd (login w s))"
    by (rule hoareD [OF hoare_login_header])
  have ps: "?R s (snd (push w t d opts s))"
    unfolding push_def
    by (rule hoareD [OF hoare_ensureAuthenticated [OF admits_header
            hoare_authenticated_push [OF admits_header] hoare_login_header]]) simp
  have ex: "?R s (snd (execute w sql ps s))"
    unfolding execute_def
    by (rule hoareD [OF hoare_ensureAuthenticated [OF admits_header
            hoare_authenticated_execute [OF admits_header] hoare_login_header]]) simp
  show ?thesis
    using setter lg ps ex by (simp add: Chakra_def bearer_header_def set_token_def)
qed

theorem header_follows_token_witness:
  "bearer_header (snd (login accepting (Chakra ''key:secret:user'' False))) \<and>
   authorization (snd (login accepting (Chakra ''key:secret:user'' False))) =
     Some ''Bearer DDB_token'' \<and>
   bearer_header (snd (execute accepting ''SELECT 1'' [] (Chakra ''key:secret:user'' False))) \<and>
   bearer_header (set_token (Some ''DDB_x'') (Chakra ''key:secret:user'' False))"
  using header_follows_token [of "''key:secret:user''" False "Chakra ''key:secret:user'' False"
      "Some ''DDB_x''" accepting "''t''" "[]" "\<lparr>createIfMissing = None, replaceIfExists = None, dedupeOnAppend = None, primaryKeyColumns = None\<rparr>" "''SELECT 1''" "[]"]
  by (simp add: accepting_def service_def credentials_def Chakra_def nth_opt_def
        startsWith_def TOKEN_PREFIX_def login_apply fetchToken_apply set_token_def
        bearer_header_def)

text \<open>
  The claim as written fails at the public setter: after \<open>client.token = ''\<close> the token
  is not \<open>null\<close> and there is no header.
\<close>

theorem empty_token_counterexample:
  "tokenValue (set_token (Some '''') (Chakra ''key:secret:user'' False)) = Some '''' \<and>
   authorization (set_token (Some '''') (Chakra ''key:secret:user'' False)) = None \<and>
   \<not> bearer_header (set_token (Some '''') (Chakra ''key:secret:user'' False))"
  by (simp add: set_token_def Chakra_def bearer_header_def)

subsection \<open>The retry policy\<close>

text \<open>
  Claim C1, as the code has it, for \<open>ensureAuthenticated\<close> and any operation it wraps.
  \<^item> The wrapper logs in first when it holds no token; when that login fails, its error is
    the result and the operation is not attempted.
  \<^item> An attempt that returns a value, or fails with an error that is not a 401, ends the
    wrapper with that result, in the state the operation left: no login and no further
    attempt follows. This holds of the first, the second and the third attempt.
  \<^item> After an attempt that fails with a 401 (an axios error or a \<open>ChakraAPIError\<close> whose
    response has status 401) the wrapper logs in again, also after the third attempt. When
    this login fails, its error is the result and no further attempt is made. When it
    succeeds, the next attempt is made after the first and the second attempt, and
    \<open>ChakraAuthError\<close> is raised after the third.
  \<^item> So the operation is attempted at most \<open>maxAttempts = 3\<close> times: if one run of the
    operation issues at most \<open>k\<close> events of a kind \<open>P\<close> (which login does not issue), the
    wrapper issues at most \<open>3 * k\<close>, and \<open>execute\<close> sends at most three queries; and
    if the operation fails with a 401 whenever a token is held, and every login succeeds,
    the wrapper raises \<open>ChakraAuthError\<close>.
\<close>

theorem retry_policy:
  "(no_token s \<and> login w s = (Inl e0, s0') \<longrightarrow>
      ensureAuthenticated w operation s = (Inl e0, s0')) \<and>
   (signed_in w s s0 \<longrightarrow>
      (operation s0 = (r1, s1) \<and> settled r1 \<longrightarrow>
         ensureAuthenticated w operation s = (r1, s1)) \<and>
      (relogin_fails w operation s0 e1 s1' \<longrightarrow>
         ensureAuthenticated w operation s = (Inl e1, s1')) \<and>
      (stale w operation s0 s2 \<longrightarrow>
         (operation s2 = (r2, s3) \<and> settled r2 \<longrightarrow>
            ensureAuthenticated w operation s = (r2, s3)) \<and>
         (relogin_fails w operation s2 e2 s3' \<longrightarrow>
            ensureAuthenticated w operation s = (Inl e2, s3')) \<and>
         (stale w operation s2 s4 \<longrightarrow>
            (operation s4 = (r3, s5) \<and> settled r3 \<longrightarrow>
               ensureAuthenticated w operation s = (r3, s5)) \<and>
            (relogin_fails w operation s4 e3 s5' \<longrightarrow>
               ensureAuthenticated w operation s = (Inl e3, s5')) \<and>
            (stale w operation s4 s6 \<longrightarrow>
               ensureAuthenticated w operation s =
                 (Inl (ChakraAuthError ''Failed to authenticate after 3 attempts.''), s6))))) \<and>
   ((\<forall>s. counted P k s (snd (operation s))) \<and> (\<forall>ev. P ev \<longrightarrow> phase_of ev \<noteq> Authenticate) \<longrightarrow>
      counted P (maxAttempts * k) s (snd (ensureAuthenticated w operation s))) \<and>
   ((\<forall>s. \<not> no_token s \<longrightarrow> (\<exists>e s'. operation s = (Inl e, s') \<and> isAuthError e)) \<and>
    (\<forall>s. fst (login w s) = Inr ()) \<longrightarrow>
      fst (ensureAuthenticated w operation s) =
        Inl (ChakraAuthError ''Failed to authenticate after 3 attempts.'')) \<and>
   maxAttempts = 3 \<and>
   counted (\<lambda>ev. phase_of ev = Sql) 3 s (snd (execute w q ps s))"
proof -
  have bound: "(\<forall>s. counted P k s (snd (operation s))) \<and>
      (\<forall>ev. P ev \<longrightarrow> phase_of ev \<noteq> Authenticate) \<longrightarrow>
      counted P (maxAttempts * k) s (snd (ensureAuthenticated w operation s))"
    using loop_counted [of P k operation 0 s w] by (simp add: ensureAuthenticated_def)
  have queries: "counted (\<lambda>ev. phase_of ev = Sql) 3 s (snd (execute w q ps s))"
    using loop_counted [of "\<lambda>ev. phase_of ev = Sql" 1 "authenticated_execute w q ps" 0 s w]
      authenticated_execute_counted
    by (simp add: execute_def ensureAuthenticated_def maxAttempts_def)
  have first: "ensureAuthenticated w operation s = (r, t)"
    if "signed_in w s s0" "operation s0 = (r, t)" "settled r" for r t
    using loop_settled [of 0 s0 operation r t w] signed_in_token [OF that(1)] that
    by (simp add: ensureAuthenticated_signed_in maxAttempts_def)
  have first_relogin: "ensureAuthenticated w operation s = (Inl e, t)"
    if "signed_in w s s0" "relogin_fails w operation s0 e t" for e t
    using loop_relogin_fails [of 0 s0 w operation e t] signed_in_token [OF that(1)] that
    by (simp add: ensureAuthenticated_signed_in maxAttempts_def)
  have second: "ensureAuthenticated w operation s = (r, t)"
    if "signed_in w s s0" "stale w operation s0 s2" "operation s2 = (r, t)" "settled r" for r t
    using loop_settled [of "Suc 0" s2 operation r t w] stale_token [OF that(2)] that
    by (simp add: second_attempt maxAttempts_def)
  have second_relogin: "ensureAuthenticated w operation s = (Inl e, t)"
    if "signed_in w s s0" "stale w operation s0 s2" "relogin_fails w operation s2 e t" for e t
    using loop_relogin_fails [of "Suc 0" s2 w operation e t] stale_token [OF that(2)] that
    by (simp add: second_attempt maxAttempts_def)
  have third: "ensureAuthenticated w operation s = (r, t)"
    if "signed_in w s s0" "stale w operation s0 s2" "stale w operation s2 s4"
      "operation s4 = (r, t)" "settled r" for r t
    using loop_settled [of "Suc (Suc 0)" s4 operation r t w] stale_token [OF that(3)] that
    by (simp add: third_attempt maxAttempts_def)
  have third_relogin: "ensureAuthenticated w operation s = (Inl e, t)"
    if "signed_in w s s0" "stale w operation s0 s2" "stale w operation s2 s4"
      "relogin_fails w operation s4 e t" for e t
    using loop_relogin_fails [of "Suc (Suc 0)" s4 w operation e t] stale_token [OF that(3)] that
    by (simp add: third_attempt maxAttempts_def)
  show ?thesis
    using bound queries ensureAuthenticated_exhausted [of operation w s]
      first_login_fails [of s w e0 s0' operation]
      first [of r1 s1] first_relogin [of e1 s1'] second [of r2 s3] second_relogin [of e2 s3']
      third [of r3 s5] third_relogin [of e3 s5']
      attempts_exhausted [of w s s0 operation s2 s4 s6]
    by (simp add: maxAttempts_def)
qed

theorem retry_policy_witness:
  "execute unauthorized ''SELECT 1'' [] (client_with ''DDB_old'' []) =
     (Inl (ChakraAuthError ''Failed to authenticate after 3 attempts.''),
      client_with ''DDB_token'' [select1, relogin, select1, relogin, select1, relogin]) \<and>
   counted (\<lambda>ev. phase_of ev = Sql) 3 (client_with ''DDB_old'' [])
     (snd (execute unauthorized ''SELECT 1'' [] (client_with ''DDB_old'' []))) \<and>
   execute stale_once ''SELECT 1'' [] (client_with ''DDB_old'' []) =
     (Inr [], client_with ''DDB_token'' [select1, relogin, select1]) \<and>
   execute stale_twice ''SELECT 1'' [] (client_with ''DDB_old'' []) =
     (Inr [], client_with ''DDB_token'' [select1, relogin, select1, relogin, select1]) \<and>
   execute query_down ''SELECT 1'' [] (client_with ''DDB_old'' []) =
     (Inl (ChakraAPIError (JStr ''Request failed with status code 500'') (Some (500, JNull))),
      client_with ''DDB_old'' [select1]) \<and>
   execute query_down ''SELECT 1'' [] (Chakra ''key:secret:user'' False) =
     (Inl (ChakraAPIError (JStr ''Request failed with status code 500'') (Some (500, JNull))),
      client_with ''DDB_token'' [relogin, select1]) \<and>
   execute auth_down ''SELECT 1'' [] (Chakra ''key:secret:user'' False) =
     (Inl (ChakraAPIError (JStr ''Request failed with status code 500'') (Some (500, JNull))),
      (Chakra ''key:secret:user'' False)\<lparr>trace := [relogin]\<rparr>) \<and>
   execute (login_down_after 1) ''SELECT 1'' [] (client_with ''DDB_old'' []) =
     (Inl (ChakraAPIError (JStr ''Request failed with status code 500'') (Some (500, JNull))),
      client_with ''DDB_old'' [select1, relogin]) \<and>
   execute (login_down_after 2) ''SELECT 1'' [] (client_with ''DDB_old'' []) =
     (Inl (ChakraAPIError (JStr ''Request failed with status code 500'') (Some (500, JNull))),
      client_with ''DDB_token'' [select1, relogin, select1, relogin]) \<and>
   execute (login_down_after 3) ''SELECT 1'' [] (client_with ''DDB_old'' []) =
     (Inl (ChakraAPIError (JStr ''Request failed with status code 500'') (Some (500, JNull))),
      client_with ''DDB_token'' [select1, relogin, select1, relogin, select1, relogin])"
proof -
  let ?q = "\<lambda>w. authenticated_execute w ''SELECT 1'' []"
  let ?fresh = "Chakra ''key:secret:user'' False"
  let ?c0 = "client_with ''DDB_old'' []"
  let ?c1 = "client_with ''DDB_old'' [select1]"
  let ?c2 = "client_with ''DDB_token'' [select1, relogin]"
  let ?c3 = "client_with ''DDB_token'' [select1, relogin, select1]"
  let ?c4 = "client_with ''DDB_token'' [select1, relogin, select1, relogin]"
  let ?c5 = "client_with ''DDB_token'' [select1, relogin, select1, relogin, select1]"
  let ?c6 = "client_with ''DDB_token'' [select1, relogin, select1, relogin, select1, relogin]"
  let ?e401 = "ChakraAPIError (JStr ''Unauthorized'')
                 (Some (401, JObj [(''error'', JStr ''Unauthorized'')]))"
  let ?e500 = "ChakraAPIError (JStr ''Request failed with status code 500'') (Some (500, JNull))"
  have err: "isAuthError ?e401" "settled (Inl ?e500 :: error + (jsval \<times> jsval) list list)"
      "settled (Inr [] :: error + (jsval \<times> jsval) list list)"
    by (simp_all add: isAuthError_def)
  have tok: "\<not> no_token ?c0" "no_token ?fresh"
    by (simp_all add: no_token_def token_def client_with_def Chakra_def)
  have one: "\<forall>s. counted (\<lambda>ev. phase_of ev = Sql) 1 s (snd (?q unauthorized s))"
    using authenticated_execute_counted by simp
  have u1: "?q unauthorized ?c0 = (Inl ?e401, ?c1)"
    and u2: "login unauthorized ?c1 = (Inr (), ?c2)"
    and u3: "?q unauthorized ?c2 = (Inl ?e401, ?c3)"
    and u4: "login unauthorized ?c3 = (Inr (), ?c4)"
    and u5: "?q unauthorized ?c4 = (Inl ?e401, ?c5)"
    and u6: "login unauthorized ?c5 = (Inr (), ?c6)"
    by (simp_all add: retry_simps)
  have a1: "?q stale_once ?c0 = (Inl ?e401, ?c1)"
    and a2: "login stale_once ?c1 = (Inr (), ?c2)"
    and a3: "?q stale_once ?c2 = (Inr [], ?c3)"
    by (simp_all add: retry_simps)
  have t1: "?q stale_twice ?c0 = (Inl ?e401, ?c1)"
    and t2: "login stale_twice ?c1 = (Inr (), ?c2)"
    and t3: "?q stale_twice ?c2 = (Inl ?e401, ?c3)"
    and t4: "login stale_twice ?c3 = (Inr (), ?c4)"
    and t5: "?q stale_twice ?c4 = (Inr [], ?c5)"
    by (simp_all add: retry_simps)
  have b1: "?q query_down ?c0 = (Inl ?e500, ?c1)"
    and b2: "login query_down ?fresh = (Inr (), client_with ''DDB_token'' [relogin])"
    and b3: "?q query_down (client_with ''DDB_token'' [relogin]) =
      (Inl ?e500, client_with ''DDB_token'' [relogin, select1])"
    and d1: "login auth_down ?fresh = (Inl ?e500, ?fresh\<lparr>trace := [relogin]\<rparr>)"
    by (simp_all add: retry_simps)
  have f1: "?q (login_down_after 1) ?c0 = (Inl ?e401, ?c1)"
    and f2: "login (login_down_after 1) ?c1 =
      (Inl ?e500, client_with ''DDB_old'' [select1, relogin])"
    by (simp_all add: retry_simps)
  have g1: "?q (login_down_after 2) ?c0 = (Inl ?e401, ?c1)"
    and g2: "login (login_down_after 2) ?c1 = (Inr (), ?c2)"
    and g3: "?q (login_down_after 2) ?c2 = (Inl ?e401, ?c3)"
    and g4: "login (login_down_after 2) ?c3 = (Inl ?e500, ?c4)"
    by (simp_all add: retry_simps)
  have h1: "?q (login_down_after 3) ?c0 = (Inl ?e401, ?c1)"
    and h2: "login (login_down_after 3) ?c1 = (Inr (), ?c2)"
    and h3: "?q (login_down_after 3) ?c2 = (Inl ?e401, ?c3)"
    and h4: "login (login_down_after 3) ?c3 = (Inr (), ?c4)"
    and h5: "?q (login_down_after 3) ?c4 = (Inl ?e401, ?c5)"
    and h6: "login (login_down_after 3) ?c5 = (Inl ?e500, ?c6)"
    by (simp_all add: retry_simps)
  note held = signed_in_held [OF tok(1)]
  have r1: "execute unauthorized ''SELECT 1'' [] ?c0 =
      (Inl (ChakraAuthError ''Failed to authenticate after 3 attempts.''), ?c6)"
    using retry_policy [where operation = "?q unauthorized" and w = unauthorized and s = ?c0
        and ?s0.0 = ?c0 and ?s2.0 = ?c2 and ?s4.0 = ?c4 and ?s6.0 = ?c6]
      held [of unauthorized]
      staleI [where operation = "?q unauthorized", OF u1 err(1) u2]
      staleI [where operation = "?q unauthorized", OF u3 err(1) u4]
      staleI [where operation = "?q unauthorized", OF u5 err(1) u6]
    by (simp add: execute_def maxAttempts_def)
  have r2: "counted (\<lambda>ev. phase_of ev = Sql) 3 ?c0 (snd (execute unauthorized ''SELECT 1'' [] ?c0))"
    using retry_policy [where operation = "?q unauthorized" and w = unauthorized and s = ?c0
        and P = "\<lambda>ev. phase_of ev = Sql" and k = 1] one
    by (simp add: execute_def maxAttempts_def)
  have r3: "execute stale_once ''SELECT 1'' [] ?c0 = (Inr [], ?c3)"
    using retry_policy [where operation = "?q stale_once" and w = stale_once and s = ?c0
        and ?s0.0 = ?c0 and ?s2.0 = ?c2 and ?r2.0 = "Inr []" and ?s3.0 = ?c3]
      held [of stale_once] staleI [where operation = "?q stale_once", OF a1 err(1) a2] a3 err(3)
    by (simp add: execute_def maxAttempts_def)
  have r4: "execute stale_twice ''SELECT 1'' [] ?c0 = (Inr [], ?c5)"
    using retry_policy [where operation = "?q stale_twice" and w = stale_twice and s = ?c0
        and ?s0.0 = ?c0 and ?s2.0 = ?c2 and ?s4.0 = ?c4 and ?r3.0 = "Inr []" and ?s5.0 = ?c5]
      held [of stale_twice]
      staleI [where operation = "?q stale_twice", OF t1 err(1) t2]
      staleI [where operation = "?q stale_twice", OF t3 err(1) t4] t5 err(3)
    by (simp add: execute_def maxAttempts_def)
  have r5: "execute query_down ''SELECT 1'' [] ?c0 = (Inl ?e500, ?c1)"
    using retry_policy [where operation = "?q query_down" and w = query_down and s = ?c0
        and ?s0.0 = ?c0 and ?r1.0 = "Inl ?e500" and ?s1.0 = ?c1]
      held [of query_down] b1 err(2)
    by (simp add: execute_def maxAttempts_def)
  have r6: "execute query_down ''SELECT 1'' [] ?fresh =
      (Inl ?e500, client_with ''DDB_token'' [relogin, select1])"
    using retry_policy [where operation = "?q query_down" and w = query_down and s = ?fresh
        and ?s0.0 = "client_with ''DDB_token'' [relogin]" and ?r1.0 = "Inl ?e500"
        and ?s1.0 = "client_with ''DDB_token'' [relogin, select1]"]
      signed_in_login [OF tok(2) b2] b3 err(2)
    by (simp add: execute_def maxAttempts_def)
  have r7: "execute auth_down ''SELECT 1'' [] ?fresh = (Inl ?e500, ?fresh\<lparr>trace := [relogin]\<rparr>)"
    using retry_policy [where operation = "?q auth_down" and w = auth_down and s = ?fresh
        and ?e0.0 = ?e500 and ?s0'.0 = "?fresh\<lparr>trace := [relogin]\<rparr>"]
      tok(2) d1
    by (simp add: execute_def maxAttempts_def)
  have r8: "execute (login_down_after 1) ''SELECT 1'' [] ?c0 =
      (Inl ?e500, client_with ''DDB_old'' [select1, relogin])"
    using retry_policy [where operation = "?q (login_down_after 1)" and w = "login_down_after 1"
        and s = ?c0 and ?s0.0 = ?c0 and ?e1.0 = ?e500
        and ?s1'.0 = "client_with ''DDB_old'' [select1, relogin]"]
      held [of "login_down_after 1"]
      relogin_failsI [where operation = "?q (login_down_after 1)", OF f1 err(1) f2]
    by (simp add: execute_def maxAttempts_def)
  have r9: "execute (login_down_after 2) ''SELECT 1'' [] ?c0 = (Inl ?e500, ?c4)"
    using retry_policy [where operation = "?q (login_down_after 2)" and w = "login_down_after 2"
        and s = ?c0 and ?s0.0 = ?c0 and ?s2.0 = ?c2 and ?e2.0 = ?e500 and ?s3'.0 = ?c4]
      held [of "login_down_after 2"]
      staleI [where operation = "?q (login_down_after 2)", OF g1 err(1) g2]
      relogin_failsI [where operation = "?q (login_down_after 2)", OF g3 err(1) g4]
    by (simp add: execute_def maxAttempts_def)
  have r10: "execute (login_down_after 3) ''SELECT 1'' [] ?c0 = (Inl ?e500, ?c6)"
    using retry_policy [where operation = "?q (login_down_after 3)" and w = "login_down_after 3"
        and s = ?c0 and ?s0.0 = ?c0 and ?s2.0 = ?c2 and ?s4.0 = ?c4 and ?e3.0 = ?e500
        and ?s5'.0 = ?c6]
      held [of "login_down_after 3"]
      staleI [where operation = "?q (login_down_after 3)", OF h1 err(1) h2]
      staleI [where operation = "?q (login_down_after 3)", OF h3 err(1) h4]
      relogin_failsI [where operation = "?q (login_down_after 3)", OF h5 err(1) h6]
    by (simp add: execute_def maxAttempts_def)
  show ?thesis
    using r1 r2 r3 r4 r5 r6 r7 r8 r9 r10 by simp
qed

text \<open>
  The claim as written fails where a login that follows a 401 fails: after three queries
  answered 401 and a third login answered 500, the result is the \<open>ChakraAPIError\<close> of
  the login, not a \<open>ChakraAuthError\<close>; and when the first such login is answered 500, the
  query is not sent again.
\<close>

theorem relogin_counterexample:
  "execute (login_down_after 3) ''SELECT 1'' [] (client_with ''DDB_old'' []) =
     (Inl (ChakraAPIError (JStr ''Request failed with status code 500'') (Some (500, JNull))),
      client_with ''DDB_token'' [select1, relogin, select1, relogin, select1, relogin]) \<and>
   execute (login_down_after 1) ''SELECT 1'' [] (client_with ''DDB_old'' []) =
     (Inl (ChakraAPIError (JStr ''Request failed with status code 500'') (Some (500, JNull))),
      client_with ''DDB_old'' [select1, relogin])"
  by (simp add: retry_simps)

subsection \<open>Table names and the empty record set\<close>

text \<open>
  Claim C6. The segments of a table name are what \<open>split('.')\<close> returns, one more than
  the name has dots. A name of any other number of segments than one or three is rejected
  with the error \<open>Table name must be either a simple name or 'db.schema.table'\<close>, before
  anything is sent (\<open>push\<close> logs in first when it holds no token). A name of one segment is
  handled exactly as the name with \<open>duckdb.main.\<close> in front of it, which has three
  segments; a name of three segments is the name the steps of the push are run with.
\<close>

theorem table_reference:
  "length (js_split CHR ''.'' t) = Suc (count_list t CHR ''.'') \<and>
   (length (js_split CHR ''.'' t) \<noteq> 1 \<and> length (js_split CHR ''.'' t) \<noteq> 3 \<longrightarrow>
      authenticated_push w t d opts s = (Inl invalid_table_name, s) \<and>
      (\<not> no_token s \<longrightarrow> push w t d opts s = (Inl invalid_table_name, s))) \<and>
   (length (js_split CHR ''.'' t) = 1 \<longrightarrow>
      authenticated_push w t d opts = authenticated_push w (''duckdb.main.'' @ t) d opts \<and>
      push w t d opts = push w (''duckdb.main.'' @ t) d opts \<and>
      length (js_split CHR ''.'' (''duckdb.main.'' @ t)) = 3) \<and>
   (length (js_split CHR ''.'' t) = 3 \<and> \<not> no_token s \<longrightarrow>
      authenticated_push w t d opts s =
        (case options_of opts of (create, replace, dedupe, pk) \<Rightarrow>
           io_catch (push_steps w t d create replace dedupe pk) handleApiError s))"
proof -
  have rejected: "length (js_split CHR ''.'' t) \<noteq> 1 \<and> length (js_split CHR ''.'' t) \<noteq> 3 \<longrightarrow>
      authenticated_push w t d opts s = (Inl invalid_table_name, s) \<and>
      (\<not> no_token s \<longrightarrow> push w t d opts s = (Inl invalid_table_name, s))"
    using loop_propagates [of 0 s "authenticated_push w t d opts" invalid_table_name s w]
    by (simp add: authenticated_push_invalid push_def ensureAuthenticated_def maxAttempts_def
        not_auth_invalid_table_name)
  have simple: "length (js_split CHR ''.'' t) = 1 \<longrightarrow>
      authenticated_push w t d opts = authenticated_push w (''duckdb.main.'' @ t) d opts \<and>
      push w t d opts = push w (''duckdb.main.'' @ t) d opts \<and>
      length (js_split CHR ''.'' (''duckdb.main.'' @ t)) = 3"
    using authenticated_push_simple_name [of t w d opts]
    by (simp add: push_def length_js_split)
  have full: "length (js_split CHR ''.'' t) = 3 \<and> \<not> no_token s \<longrightarrow>
      authenticated_push w t d opts s =
        (case options_of opts of (create, replace, dedupe, pk) \<Rightarrow>
           io_catch (push_steps w t d create replace dedupe pk) handleApiError s)"
    by (simp add: authenticated_push_valid)
  show ?thesis
    using rejected simple full by (simp add: length_js_split)
qed

theorem table_reference_witness:
  "js_split CHR ''.'' ''students'' = [''students''] \<and>
   js_split CHR ''.'' ''a.b'' = [''a'', ''b''] \<and>
   js_split CHR ''.'' ''school.class.students'' = [''school'', ''class'', ''students''] \<and>
   push accepting ''a.b'' students defaults (client_with ''DDB_old'' []) =
     (Inl invalid_table_name, client_with ''DDB_old'' []) \<and>
   push accepting ''students'' students defaults (client_with ''DDB_old'' []) =
     push accepting ''duckdb.main.students'' students defaults (client_with ''DDB_old'' []) \<and>
   fst (push accepting ''students'' students defaults (client_with ''DDB_old'' [])) = Inr () \<and>
   PostImport ''duckdb.main.students'' (JStr ''staged-key'') \<in>
     set (trace (snd (push accepting ''students'' students defaults (client_with ''DDB_old'' [])))) \<and>
   fst (push accepting ''school.class.students'' students defaults (client_with ''DDB_old'' [])) =
     Inr () \<and>
   PostImport ''school.class.students'' (JStr ''staged-key'') \<in>
     set (trace (snd (push accepting ''school.class.students'' students defaults
                        (client_with ''DDB_old'' []))))"
proof -
  let ?s = "client_with ''DDB_old'' []"
  have split: "js_split CHR ''.'' ''students'' = [''students'']"
    "js_split CHR ''.'' ''a.b'' = [''a'', ''b'']"
    "js_split CHR ''.'' ''school.class.students'' = [''school'', ''class'', ''students'']"
    by simp_all
  have tok: "\<not> no_token ?s"
    by (simp add: no_token_def token_def client_with_def)
  have run1: "fst (push accepting ''students'' students defaults ?s) = Inr ()"
    "PostImport ''duckdb.main.students'' (JStr ''staged-key'') \<in>
       set (trace (snd (push accepting ''students'' students defaults ?s)))"
    by (simp_all add: run_simps students_def defaults_def)
  have run3: "fst (push accepting ''school.class.students'' students defaults ?s) = Inr ()"
    "PostImport ''school.class.students'' (JStr ''staged-key'') \<in>
       set (trace (snd (push accepting ''school.class.students'' students defaults ?s)))"
    by (simp_all add: run_simps students_def defaults_def)
  show ?thesis
    using table_reference [of "''a.b''" accepting students defaults ?s]
      table_reference [of "''students''" accepting students defaults ?s]
      split tok run1 run3
    by simp
qed

text \<open>
  Claim C10. A push of the empty record set fails, whatever the service answers, and
  issues no event past the temporary file: no Parquet file is written, no upload is
  requested and no import. When the token is held, the name is accepted and every call
  before succeeds, the failure is the \<open>TypeError\<close> of \<open>Object.entries(undefined)\<close>.
  It is raised in \<open>createTable\<close> after the database and the schema were created (the
  default), or, when neither \<open>createIfMissing\<close> nor \<open>replaceIfExists\<close> is set, after
  the temporary file was made, which is then removed.
\<close>

theorem empty_record_set:
  "isl (fst (authenticated_push w t [] opts s)) \<and>
   issues before_upload s (snd (authenticated_push w t [] opts s)) \<and>
   isl (fst (push w t [] opts s)) \<and>
   issues before_upload s (snd (push w t [] opts s)) \<and>
   ((\<forall>h ev. respond w h ev = Resolve (f h ev)) \<and> \<not> no_token s \<and>
    (length (js_split CHR ''.'' t) = 1 \<or> length (js_split CHR ''.'' t) = 3) \<longrightarrow>
      fst (authenticated_push w t [] opts s) = Inl TypeError \<and>
      fst (push w t [] opts s) = Inl TypeError)"
proof -
  have a1: "isl (fst (authenticated_push w t [] opts s))"
    using fails_authenticated_push_empty by (simp add: fails_def)
  have a2: "issues before_upload s (snd (authenticated_push w t [] opts s))"
    by (rule hoareD [OF hoare_authenticated_push_empty])
  have p1: "isl (fst (push w t [] opts s))"
    unfolding push_def ensureAuthenticated_def
    by (rule fails_loop [OF fails_authenticated_push_empty])
  have p2: "issues before_upload s (snd (push w t [] opts s))"
    unfolding push_def
    by (rule hoareD [OF hoare_ensureAuthenticated [OF admits_issues
            hoare_authenticated_push_empty hoare_login_issues]])
       (simp add: before_upload_def)
  have te: "fst (push w t [] opts s) = Inl TypeError"
    if ok: "\<forall>h ev. respond w h ev = Resolve (f h ev)" and tok: "\<not> no_token s"
      and name: "length (js_split CHR ''.'' t) = 1 \<or> length (js_split CHR ''.'' t) = 3"
  proof -
    obtain s1 where "authenticated_push w t [] opts s = (Inl TypeError, s1)"
      using authenticated_push_empty_TypeError [OF ok tok name, of opts]
      by (cases "authenticated_push w t [] opts s") auto
    then show ?thesis
      using loop_propagates [of 0 s "authenticated_push w t [] opts" TypeError s1 w] tok
      by (simp add: push_def ensureAuthenticated_def maxAttempts_def isAuthError_def)
  qed
  show ?thesis
    using a1 a2 p1 p2 te authenticated_push_empty_TypeError [of w f s t opts] by blast
qed

theorem empty_record_set_witness:
  "push accepting ''students'' [] defaults (client_with ''DDB_old'' []) =
     (Inl TypeError,
      client_with ''DDB_old''
        [PostDatabases (Some ''duckdb''),
         PostQuery ''CREATE SCHEMA IF NOT EXISTS duckdb.main'' None]) \<and>
   push accepting ''students'' []
       \<lparr>createIfMissing = Some False, replaceIfExists = None, dedupeOnAppend = None,
        primaryKeyColumns = None\<rparr> (client_with ''DDB_old'' []) =
     (Inl TypeError,
      client_with ''DDB_old'' [TmpFile, Cleanup (JStr ''/tmp/tmp-1.parquet'')]) \<and>
   before_upload (PostDatabases (Some ''duckdb'')) \<and> before_upload TmpFile \<and>
   before_upload (Cleanup (JStr ''/tmp/tmp-1.parquet'')) \<and>
   \<not> before_upload (GetPresignedUpload ''duckdb.main.students_1b9d6bcd.parquet'') \<and>
   \<not> before_upload (PostImport ''duckdb.main.students'' (JStr ''staged-key''))"
proof -
  let ?s = "client_with ''DDB_old'' []"
  let ?nocreate = "\<lparr>createIfMissing = Some False, replaceIfExists = None, dedupeOnAppend = None,
        primaryKeyColumns = None\<rparr>"
  have ok: "\<forall>h ev. respond accepting h ev = Resolve ((\<lambda>h. ok_body) h ev)"
    by (simp add: accepting_def service_def)
  have tok: "\<not> no_token ?s"
    by (simp add: no_token_def token_def client_with_def)
  have name: "length (js_split CHR ''.'' ''students'') = 1"
    by simp
  have r1: "snd (push accepting ''students'' [] defaults ?s) =
      client_with ''DDB_old''
        [PostDatabases (Some ''duckdb''),
         PostQuery ''CREATE SCHEMA IF NOT EXISTS duckdb.main'' None]"
    by (simp add: run_simps defaults_def)
  have r2: "snd (push accepting ''students'' [] ?nocreate ?s) =
      client_with ''DDB_old'' [TmpFile, Cleanup (JStr ''/tmp/tmp-1.parquet'')]"
    by (simp add: run_simps)
  have e1: "fst (push accepting ''students'' [] defaults ?s) = Inl TypeError"
    using empty_record_set [of accepting "''students''" defaults ?s "\<lambda>h. ok_body"] ok tok name
    by simp
  have e2: "fst (push accepting ''students'' [] ?nocreate ?s) = Inl TypeError"
    using empty_record_set [of accepting "''students''" ?nocreate ?s "\<lambda>h. ok_body"] ok tok name
    by simp
  show ?thesis
    using e1 e2 r1 r2 by (simp add: prod_eq_iff before_upload_def)
qed

subsection \<open>Positional parameters\<close>

text \<open>
  Claim C5, as the code has it. A query is its pieces; \<open>replacePositionalParameters\<close>
  returns the query with \<open>?\<close> for each placeholder, from left to right, and the
  parameters the placeholders name in that order, when every placeholder number is between
  1 and the number of parameters supplied, and throws otherwise. There is no other bound:
  the number 8 stands in the message of the error only.
  With a token held, \<open>authenticated_execute\<close> sends the rewritten query with the
  reordered parameters as its one request, and with a placeholder out of range it throws
  with nothing sent; so does \<open>execute\<close>. Without a token \<open>execute\<close> logs in first, so
  the login request is sent before the error is raised.
\<close>

theorem placeholders_rewritten:
  "concat (map source_of (pieces query)) = query \<and>
   (\<forall>ds. Placeholder ds \<in> set (pieces query) \<longrightarrow> ds \<noteq> [] \<and> list_all is_digit ds) \<and>
   replacePositionalParameters query parameters =
     (if list_all (in_range parameters) (references query)
      then Inr (rewritten query, map (\<lambda>i. parameters ! (i - 1)) (references query))
      else Inl parameter_error) \<and>
   (\<not> no_token s \<and> list_all (in_range parameters) (references query) \<longrightarrow>
      trace (snd (authenticated_execute w query parameters s)) =
        trace s @ [forwarded query parameters] \<and>
      (\<forall>data. respond w (trace s) (forwarded query parameters) = Resolve data \<longrightarrow>
         fst (execute w query parameters s) = map_sum api_error id (rows_to_records data))) \<and>
   (\<not> no_token s \<and> \<not> list_all (in_range parameters) (references query) \<longrightarrow>
      authenticated_execute w query parameters s = (Inl parameter_error, s) \<and>
      execute w query parameters s = (Inl parameter_error, s)) \<and>
   (no_token s \<and> \<not> list_all (in_range parameters) (references query) \<longrightarrow>
      trace (snd (execute w query parameters s)) = trace s @ [credentials s] \<and>
      (fst (login w s) = Inr () \<longrightarrow> fst (execute w query parameters s) = Inl parameter_error))"
proof -
  have sent: "trace (snd (authenticated_execute w query parameters s)) =
        trace s @ [forwarded query parameters] \<and>
      (\<forall>data. respond w (trace s) (forwarded query parameters) = Resolve data \<longrightarrow>
         fst (execute w query parameters s) = map_sum api_error id (rows_to_records data))"
    if tok: "\<not> no_token s" and ok: "list_all (in_range parameters) (references query)"
  proof -
    have tr: "trace (snd (authenticated_execute w query parameters s)) =
        trace s @ [forwarded query parameters]"
      using tok ok by (simp add: authenticated_execute_apply)
    have res: "fst (execute w query parameters s) = map_sum api_error id (rows_to_records data)"
      if r: "respond w (trace s) (forwarded query parameters) = Resolve data" for data
    proof (cases "rows_to_records data")
      case (Inr rs)
      then show ?thesis
        using tok ok r
        by (simp add: execute_def ensureAuthenticated_def loop_token maxAttempts_def
            authenticated_execute_apply)
    next
      case (Inl e)
      have "e = TypeError"
        using Inl by (rule rows_to_records_error)
      then show ?thesis
        using tok ok r Inl
        by (simp add: execute_def ensureAuthenticated_def loop_token maxAttempts_def
            authenticated_execute_apply isAuthError_def)
    qed
    show ?thesis
      using tr res by blast
  qed
  show ?thesis
    using sent execute_out_of_range [of parameters query s w] placeholder_digits [of _ query]
    by (auto simp: pieces_source replace_rewrites authenticated_execute_apply)
qed

theorem placeholders_rewritten_witness:
  "rewritten ''SELECT * FROM t WHERE a > $2 AND b = $1 OR c = $2'' =
     ''SELECT * FROM t WHERE a > ? AND b = ? OR c = ?'' \<and>
   references ''SELECT * FROM t WHERE a > $2 AND b = $1 OR c = $2'' = [2, 1, 2] \<and>
   trace (snd (authenticated_execute accepting
                 ''SELECT * FROM t WHERE a > $2 AND b = $1 OR c = $2''
                 [JNum (Finite 10), JStr ''x''] (client_with ''DDB_old'' []))) =
     [PostQuery ''SELECT * FROM t WHERE a > ? AND b = ? OR c = ?''
        (Some [JStr ''x'', JNum (Finite 10), JStr ''x''])] \<and>
   fst (execute accepting ''SELECT * FROM t WHERE a > $2 AND b = $1 OR c = $2''
          [JNum (Finite 10), JStr ''x''] (client_with ''DDB_old'' [])) = Inr [] \<and>
   execute accepting ''SELECT $2'' [JNum (Finite 10)] (client_with ''DDB_old'' []) =
     (Inl parameter_error, client_with ''DDB_old'' []) \<and>
   execute accepting ''SELECT $0'' [JNum (Finite 10)] (client_with ''DDB_old'' []) =
     (Inl parameter_error, client_with ''DDB_old'' []) \<and>
   trace (snd (execute accepting ''SELECT $2'' [JNum (Finite 10)]
                 (Chakra ''key:secret:user'' False))) = [relogin]"
proof -
  let ?q = "''SELECT * FROM t WHERE a > $2 AND b = $1 OR c = $2''"
  let ?ps = "[JNum (Finite 10), JStr ''x'']"
  let ?s = "client_with ''DDB_old'' []"
  let ?fresh = "Chakra ''key:secret:user'' False"
  have tok: "\<not> no_token ?s" "no_token ?fresh"
    by (simp_all add: no_token_def token_def client_with_def Chakra_def)
  have rw: "rewritten ?q = ''SELECT * FROM t WHERE a > ? AND b = ? OR c = ?''"
    by (simp add: query_simps)
  have refs: "references ?q = [2, 1, 2]" "references ''SELECT $2'' = [2]"
    "references ''SELECT $0'' = [0]"
    by (simp_all add: query_simps)
  have ok: "list_all (in_range ?ps) (references ?q)"
    by (simp add: refs in_range_def)
  have bad: "\<not> list_all (in_range [JNum (Finite 10)]) (references ''SELECT $2'')"
    "\<not> list_all (in_range [JNum (Finite 10)]) (references ''SELECT $0'')"
    by (simp_all add: refs in_range_def)
  have fw: "forwarded ?q ?ps =
      PostQuery ''SELECT * FROM t WHERE a > ? AND b = ? OR c = ?''
        (Some [JStr ''x'', JNum (Finite 10), JStr ''x''])"
    by (simp add: forwarded_def rw refs)
  have ans: "respond accepting (trace ?s) (forwarded ?q ?ps) =
      Resolve (JObj [(''columns'', JArr []), (''rows'', JArr [])])"
    by (simp add: fw accepting_def service_def)
  have rows: "map_sum api_error id
      (rows_to_records (JObj [(''columns'', JArr []), (''rows'', JArr [])])) = Inr []"
    by (simp add: rows_to_records_def)
  have cred: "trace ?fresh @ [credentials ?fresh] = [relogin]"
    by (simp add: credentials_def Chakra_def relogin_def nth_opt_def)
  have empty: "trace ?s = []"
    by (simp add: client_with_def)
  have sent: "trace (snd (authenticated_execute accepting ?q ?ps ?s)) = trace ?s @ [forwarded ?q ?ps]"
    "fst (execute accepting ?q ?ps ?s) =
       map_sum api_error id (rows_to_records (JObj [(''columns'', JArr []), (''rows'', JArr [])]))"
    using placeholders_rewritten [of ?q ?ps ?s accepting] tok(1) ok ans by blast+
  have rejected: "execute accepting ''SELECT $2'' [JNum (Finite 10)] ?s = (Inl parameter_error, ?s)"
    using placeholders_rewritten [of "''SELECT $2''" "[JNum (Finite 10)]" ?s accepting] tok(1) bad(1)
    by blast
  have zero: "execute accepting ''SELECT $0'' [JNum (Finite 10)] ?s = (Inl parameter_error, ?s)"
    using placeholders_rewritten [of "''SELECT $0''" "[JNum (Finite 10)]" ?s accepting] tok(1) bad(2)
    by blast
  have login_first: "trace (snd (execute accepting ''SELECT $2'' [JNum (Finite 10)] ?fresh)) =
      trace ?fresh @ [credentials ?fresh]"
    using placeholders_rewritten [of "''SELECT $2''" "[JNum (Finite 10)]" ?fresh accepting]
      tok(2) bad(1)
    by blast
  show ?thesis
    using rw refs(1) sent rejected zero login_first
    by (simp only: fw rows cred empty append_Nil simp_thms)
qed

text \<open>
  The claim as written fails twice: \<open>$9\<close> with nine parameters is above the ceiling
  of 8 and is forwarded without an error; and a client that holds no token sends its
  login request before the placeholder out of range is noticed.
\<close>

theorem placeholders_counterexample:
  "execute accepting ''SELECT $9'' nine (client_with ''DDB_old'' []) =
     (Inr [], client_with ''DDB_old'' [PostQuery ''SELECT ?'' (Some [JNum (Finite 9)])]) \<and>
   execute accepting ''SELECT $2'' [JNum (Finite 10)] (Chakra ''key:secret:user'' False) =
     (Inl (Error ''Chakra DB does not support more than 8 positional parameters''),
      client_with ''DDB_token'' [PostServers (Some ''key'') (Some ''secret'') (Some ''user'')])"
  by (simp add: run_simps nine_def)

subsection \<open>The order of a push, and deduplication without keys\<close>

text \<open>
  Claim C7. A push that succeeds has issued, in this order and nothing else: the database
  and schema creation, the drop when \<open>replaceIfExists\<close> is set, the table creation, the
  temporary file, the Parquet file, the upload, the import, the deletion of the staged
  object and the removal of the temporary file. With \<open>createIfMissing\<close> (the default) and
  no \<open>replaceIfExists\<close> there is no drop; with \<open>replaceIfExists\<close> the schema and the
  table are created whatever \<open>createIfMissing\<close> says. Such a push has a record set that
  is not empty, and every push of a record set whose first record is an object succeeds
  when the token is held, the name is accepted and the service accepts every request.
\<close>

theorem push_order:
  "(authenticated_push w t d opts s = (Inr (), s') \<and>
    options_of opts = (True, False, dedupe, pk) \<longrightarrow>
      push w t d opts s = (Inr (), s') \<and> d \<noteq> [] \<and>
      (\<exists>entries tf uuid url key len. Object_entries (sample_of d) = Inr entries \<and>
         trace s' = trace s @ schema_requests (full_name t) @
           [table_request (full_name t) entries] @
           staging_events (full_name t) entries d tf uuid url len @
           [import_request dedupe (full_name t) key pk, DeleteFiles key, Cleanup tf])) \<and>
   (authenticated_push w t d opts s = (Inr (), s') \<and>
    options_of opts = (create, True, dedupe, pk) \<longrightarrow>
      push w t d opts s = (Inr (), s') \<and> d \<noteq> [] \<and>
      (\<exists>entries tf uuid url key len. Object_entries (sample_of d) = Inr entries \<and>
         trace s' = trace s @ schema_requests (full_name t) @
           [drop_request (full_name t), table_request (full_name t) entries] @
           staging_events (full_name t) entries d tf uuid url len @
           [import_request dedupe (full_name t) key pk, DeleteFiles key, Cleanup tf])) \<and>
   (answers w f \<and> sample_of d \<noteq> JUndefined \<and> sample_of d \<noteq> JNull \<and> \<not> no_token s \<and>
    (length (js_split CHR ''.'' t) = 1 \<or> length (js_split CHR ''.'' t) = 3) \<longrightarrow>
      fst (authenticated_push w t d opts s) = Inr () \<and> fst (push w t d opts s) = Inr ())"
proof -
  have ordered: "push w t d opts s = (Inr (), s') \<and> d \<noteq> [] \<and>
      (\<exists>entries tf uuid url key len. Object_entries (sample_of d) = Inr entries \<and>
         trace s' = trace s @ lifecycle_requests (full_name t) entries create replace @
           staging_events (full_name t) entries d tf uuid url len @
           [import_request dedupe (full_name t) key pk, DeleteFiles key, Cleanup tf])"
    if run: "authenticated_push w t d opts s = (Inr (), s')"
      and opts: "options_of opts = (create, replace, dedupe, pk)" for create replace
  proof -
    note inv = authenticated_push_Inr [OF run opts]
    have "push w t d opts s = (Inr (), s')"
      using inv run by (simp add: push_def first_attempt)
    moreover obtain entries tf uuid url key len where
      e: "Object_entries (sample_of d) = Inr entries"
      "s' = s\<lparr>trace := trace s @ lifecycle_requests (full_name t) entries create replace @
              staging_events (full_name t) entries d tf uuid url len @
              [import_request dedupe (full_name t) key pk, DeleteFiles key, Cleanup tf]\<rparr>"
      using inv by blast
    moreover have "d \<noteq> []"
      using e(1) by (rule sample_nonempty)
    moreover have "trace s' = trace s @ lifecycle_requests (full_name t) entries create replace @
              staging_events (full_name t) entries d tf uuid url len @
              [import_request dedupe (full_name t) key pk, DeleteFiles key, Cleanup tf]"
      using e(2) by simp
    ultimately show ?thesis
      by blast
  qed
  have succeeds: "fst (authenticated_push w t d opts s) = Inr () \<and> fst (push w t d opts s) = Inr ()"
    if ok: "answers w f" "sample_of d \<noteq> JUndefined" "sample_of d \<noteq> JNull" "\<not> no_token s"
      "length (js_split CHR ''.'' t) = 1 \<or> length (js_split CHR ''.'' t) = 3"
  proof -
    obtain s1 where "authenticated_push w t d opts s = (Inr (), s1)"
      using authenticated_push_returns [OF ok] by blast
    then show ?thesis
      using ok(4) by (simp add: push_def first_attempt)
  qed
  show ?thesis
    using ordered [of True False] ordered [of create True] succeeds
    by (simp add: lifecycle_requests_def)
qed

text \<open>
  Claim C4, as the code has it. \<open>primaryKeyColumns\<close> is not validated: a push that leaves
  it out is the push with the empty list, and a push with \<open>dedupeOnAppend\<close> and no key
  columns that succeeds has sent the deduplicating import with the empty list of key
  columns; it succeeds whenever the service accepts every request.
\<close>

theorem dedupe_without_keys:
  "authenticated_push w t d (opts\<lparr>primaryKeyColumns := None\<rparr>) =
     authenticated_push w t d (opts\<lparr>primaryKeyColumns := Some []\<rparr>) \<and>
   push w t d (opts\<lparr>primaryKeyColumns := None\<rparr>) =
     push w t d (opts\<lparr>primaryKeyColumns := Some []\<rparr>) \<and>
   (authenticated_push w t d opts s = (Inr (), s') \<and>
    options_of opts = (create, replace, True, []) \<longrightarrow>
      push w t d opts s = (Inr (), s') \<and>
      (\<exists>entries tf uuid url key len.
         trace s' = trace s @ lifecycle_requests (full_name t) entries create replace @
           staging_events (full_name t) entries d tf uuid url len @
           [PostImportDedupe (full_name t) key [], DeleteFiles key, Cleanup tf])) \<and>
   (answers w f \<and> sample_of d \<noteq> JUndefined \<and> sample_of d \<noteq> JNull \<and> \<not> no_token s \<and>
    (length (js_split CHR ''.'' t) = 1 \<or> length (js_split CHR ''.'' t) = 3) \<and>
    options_of opts = (create, replace, True, []) \<longrightarrow>
      fst (push w t d opts s) = Inr ())"
proof -
  have same: "authenticated_push w t d (opts\<lparr>primaryKeyColumns := None\<rparr>) =
     authenticated_push w t d (opts\<lparr>primaryKeyColumns := Some []\<rparr>)"
    by (rule ext) (simp add: authenticated_push_def or_default_def Let_def)
  have sent: "push w t d opts s = (Inr (), s') \<and>
      (\<exists>entries tf uuid url key len.
         trace s' = trace s @ lifecycle_requests (full_name t) entries create replace @
           staging_events (full_name t) entries d tf uuid url len @
           [PostImportDedupe (full_name t) key [], DeleteFiles key, Cleanup tf])"
    if run: "authenticated_push w t d opts s = (Inr (), s')"
      and opts: "options_of opts = (create, replace, True, [])"
  proof -
    note inv = authenticated_push_Inr [OF run opts]
    have "push w t d opts s = (Inr (), s')"
      using inv run by (simp add: push_def first_attempt)
    moreover obtain entries tf uuid url key len where
      "s' = s\<lparr>trace := trace s @ lifecycle_requests (full_name t) entries create replace @
              staging_events (full_name t) entries d tf uuid url len @
              [import_request True (full_name t) key [], DeleteFiles key, Cleanup tf]\<rparr>"
      using inv by blast
    then have "trace s' = trace s @ lifecycle_requests (full_name t) entries create replace @
           staging_events (full_name t) entries d tf uuid url len @
           [PostImportDedupe (full_name t) key [], DeleteFiles key, Cleanup tf]"
      by (simp add: import_request_def)
    ultimately show ?thesis
      by blast
  qed
  have succeeds: "fst (push w t d opts s) = Inr ()"
    if ok: "answers w f" "sample_of d \<noteq> JUndefined" "sample_of d \<noteq> JNull" "\<not> no_token s"
      "length (js_split CHR ''.'' t) = 1 \<or> length (js_split CHR ''.'' t) = 3"
  proof -
    obtain s1 where "authenticated_push w t d opts s = (Inr (), s1)"
      using authenticated_push_returns [OF ok] by blast
    then show ?thesis
      using ok(4) by (simp add: push_def first_attempt)
  qed
  show ?thesis
    using same sent succeeds by (simp add: push_def)
qed

theorem push_order_witness:
  "push accepting ''students'' students defaults (client_with ''DDB_old'' []) =
     (Inr (),
      client_with ''DDB_old''
        ([PostDatabases (Some ''duckdb''),
          PostQuery ''CREATE SCHEMA IF NOT EXISTS duckdb.main'' None,
          PostQuery ''CREATE TABLE IF NOT EXISTS duckdb.main.students (id BIGINT, name VARCHAR, active BOOLEAN)'' None] @
         students_staged ''duckdb.main.students'' @
         [PostImport ''duckdb.main.students'' (JStr ''staged-key''),
          DeleteFiles (JStr ''staged-key''), Cleanup (JStr ''/tmp/tmp-1.parquet'')])) \<and>
   push accepting ''school.class.students'' students replace_only (client_with ''DDB_old'' []) =
     (Inr (),
      client_with ''DDB_old''
        ([PostDatabases (Some ''school''),
          PostQuery ''CREATE SCHEMA IF NOT EXISTS school.class'' None,
          PostQuery ''DROP TABLE IF EXISTS school.class.students'' None,
          PostQuery ''CREATE TABLE IF NOT EXISTS school.class.students (id BIGINT, name VARCHAR, active BOOLEAN)'' None] @
         students_staged ''school.class.students'' @
         [PostImport ''school.class.students'' (JStr ''staged-key''),
          DeleteFiles (JStr ''staged-key''), Cleanup (JStr ''/tmp/tmp-1.parquet'')])) \<and>
   fst (authenticated_push accepting ''students'' students defaults (client_with ''DDB_old'' [])) =
     Inr ()"
proof -
  let ?s = "client_with ''DDB_old'' []"
  let ?s1 = "client_with ''DDB_old''
        ([PostDatabases (Some ''duckdb''),
          PostQuery ''CREATE SCHEMA IF NOT EXISTS duckdb.main'' None,
          PostQuery ''CREATE TABLE IF NOT EXISTS duckdb.main.students (id BIGINT, name VARCHAR, active BOOLEAN)'' None] @
         students_staged ''duckdb.main.students'' @
         [PostImport ''duckdb.main.students'' (JStr ''staged-key''),
          DeleteFiles (JStr ''staged-key''), Cleanup (JStr ''/tmp/tmp-1.parquet'')])"
  let ?s2 = "client_with ''DDB_old''
        ([PostDatabases (Some ''school''),
          PostQuery ''CREATE SCHEMA IF NOT EXISTS school.class'' None,
          PostQuery ''DROP TABLE IF EXISTS school.class.students'' None,
          PostQuery ''CREATE TABLE IF NOT EXISTS school.class.students (id BIGINT, name VARCHAR, active BOOLEAN)'' None] @
         students_staged ''school.class.students'' @
         [PostImport ''school.class.students'' (JStr ''staged-key''),
          DeleteFiles (JStr ''staged-key''), Cleanup (JStr ''/tmp/tmp-1.parquet'')])"
  have one: "Number_isInteger (Finite 1)"
    by code_simp
  have run1: "authenticated_push accepting ''students'' students defaults ?s = (Inr (), ?s1)"
    using one
    by (simp add: run_simps students_def defaults_def students_staged_def
        del: Number_isInteger.simps(1))
  have run2: "authenticated_push accepting ''school.class.students'' students replace_only ?s =
      (Inr (), ?s2)"
    using one
    by (simp add: run_simps students_def replace_only_def students_staged_def
        del: Number_isInteger.simps(1))
  have o1: "options_of defaults = (True, False, False, [])"
    by (simp add: options_of_def defaults_def or_default_def)
  have o2: "options_of replace_only = (False, True, False, [])"
    by (simp add: options_of_def replace_only_def or_default_def)
  have name: "length (js_split CHR ''.'' ''students'') = 1"
    by simp
  have p1: "push accepting ''students'' students defaults ?s = (Inr (), ?s1)"
    using push_order [of accepting "''students''" students defaults ?s ?s1 False "[]"] run1 o1
    by blast
  have p2: "push accepting ''school.class.students'' students replace_only ?s = (Inr (), ?s2)"
    using push_order [of accepting "''school.class.students''" students replace_only ?s ?s2
        False "[]" False] run2 o2
    by blast
  have p3: "fst (authenticated_push accepting ''students'' students defaults ?s) = Inr ()"
    using push_order [of accepting "''students''" students defaults ?s ?s1 False "[]" False
        "\<lambda>h. ok_body"] answers_accepting students_sample token_held name
    by blast
  show ?thesis
    using p1 p2 p3 by simp
qed

theorem dedupe_without_keys_witness:
  "push accepting ''school.class.students'' students (dedupe_options (Some []))
       (client_with ''DDB_old'' []) =
     (Inr (),
      client_with ''DDB_old''
        ([PostDatabases (Some ''school''),
          PostQuery ''CREATE SCHEMA IF NOT EXISTS school.class'' None,
          PostQuery ''CREATE TABLE IF NOT EXISTS school.class.students (id BIGINT, name VARCHAR, active BOOLEAN)'' None] @
         students_staged ''school.class.students'' @
         [PostImportDedupe ''school.class.students'' (JStr ''staged-key'') [],
          DeleteFiles (JStr ''staged-key''), Cleanup (JStr ''/tmp/tmp-1.parquet'')])) \<and>
   push accepting ''school.class.students'' students (dedupe_options None) =
     push accepting ''school.class.students'' students (dedupe_options (Some []))"
proof -
  let ?s = "client_with ''DDB_old'' []"
  let ?s1 = "client_with ''DDB_old''
        ([PostDatabases (Some ''school''),
          PostQuery ''CREATE SCHEMA IF NOT EXISTS school.class'' None,
          PostQuery ''CREATE TABLE IF NOT EXISTS school.class.students (id BIGINT, name VARCHAR, active BOOLEAN)'' None] @
         students_staged ''school.class.students'' @
         [PostImportDedupe ''school.class.students'' (JStr ''staged-key'') [],
          DeleteFiles (JStr ''staged-key''), Cleanup (JStr ''/tmp/tmp-1.parquet'')])"
  have one: "Number_isInteger (Finite 1)"
    by code_simp
  have run: "authenticated_push accepting ''school.class.students'' students
      (dedupe_options (Some [])) ?s = (Inr (), ?s1)"
    using one
    by (simp add: run_simps students_def dedupe_options_def students_staged_def
        del: Number_isInteger.simps(1))
  have opts: "options_of (dedupe_options (Some [])) = (True, False, True, [])"
    by (simp add: options_of_def dedupe_options_def or_default_def)
  have upd: "dedupe_options None = (dedupe_options (Some []))\<lparr>primaryKeyColumns := None\<rparr>"
    "dedupe_options (Some []) = (dedupe_options (Some []))\<lparr>primaryKeyColumns := Some []\<rparr>"
    by (simp_all add: dedupe_options_def)
  have p1: "push accepting ''school.class.students'' students (dedupe_options (Some [])) ?s =
      (Inr (), ?s1)"
    using dedupe_without_keys [of accepting "''school.class.students''" students
        "dedupe_options (Some [])" ?s ?s1 True False] run opts
    by blast
  have p2: "push accepting ''school.class.students'' students (dedupe_options None) =
     push accepting ''school.class.students'' students (dedupe_options (Some []))"
    using dedupe_without_keys [of accepting "''school.class.students''" students
        "dedupe_options (Some [])"] upd
    by metis
  show ?thesis
    using p1 p2 by simp
qed

text \<open>
  The claim as written fails: with \<open>dedupeOnAppend\<close> set and no \<open>primaryKeyColumns\<close>
  the push raises nothing and calls the deduplicating import with \<open>[]\<close>.
\<close>

theorem dedupe_without_keys_counterexample:
  "push accepting ''students'' students (dedupe_options None) (client_with ''DDB_old'' []) =
     (Inr (),
      client_with ''DDB_old''
        ([PostDatabases (Some ''duckdb''),
          PostQuery ''CREATE SCHEMA IF NOT EXISTS duckdb.main'' None,
          PostQuery ''CREATE TABLE IF NOT EXISTS duckdb.main.students (id BIGINT, name VARCHAR, active BOOLEAN)'' None] @
         students_staged ''duckdb.main.students'' @
         [PostImportDedupe ''duckdb.main.students'' (JStr ''staged-key'') [],
          DeleteFiles (JStr ''staged-key''), Cleanup (JStr ''/tmp/tmp-1.parquet'')]))"
proof -
  have one: "Number_isInteger (Finite 1)"
    by code_simp
  show ?thesis
    using one
    by (simp add: run_simps students_def dedupe_options_def students_staged_def
        del: Number_isInteger.simps(1))
qed

subsection \<open>Release of the temporary file and of the staged object\<close>

text \<open>
  Claim C3, as the code has it. In every run of \<open>authenticated_push\<close>, whatever the
  service answers: when the temporary file was made, its removal is the last event of the
  run, whichever later step failed; the deletion of the staged object is requested exactly
  after an import that succeeded, and then it is the last request before the removal of
  the file; after an import that failed the removal of the file follows at once, and the
  staged object is left where it is. In a \<open>push\<close> (up to three such runs) every temporary
  file that was made is removed later, every import that succeeded is followed at once by
  the deletion of its staged object, and every import that failed by the removal of the
  file.
\<close>

theorem resources_released:
  "options_of opts = (create, replace, dd, pk) \<longrightarrow>
     (trace (snd (authenticated_push w t d opts s)) = pre @ ev # post \<and>
      length (trace s) \<le> length pre \<longrightarrow>
        released w (full_name t) dd pk pre ev post) \<and>
     (trace (snd (push w t d opts s)) = pre @ ev # post \<and>
      length (trace s) \<le> length pre \<longrightarrow>
        released_later w (full_name t) dd pk pre ev post)"
proof (intro impI conjI; (elim conjE)?)
  assume opts: "options_of opts = (create, replace, dd, pk)"
    and split: "trace (snd (authenticated_push w t d opts s)) = pre @ ev # post"
    and new: "length (trace s) \<le> length pre"
  obtain evs where evs: "trace (snd (authenticated_push w t d opts s)) = trace s @ evs"
    and run: "push_run w (trace s) (full_name t) dd pk evs"
    using authenticated_push_shape [OF opts] by blast
  obtain pre' where "pre = trace s @ pre'" "evs = pre' @ ev # post"
    using new_events_split [OF evs split new] by blast
  with push_run_released [OF run] show "released w (full_name t) dd pk pre ev post"
    by simp
next
  assume opts: "options_of opts = (create, replace, dd, pk)"
    and split: "trace (snd (push w t d opts s)) = pre @ ev # post"
    and new: "length (trace s) \<le> length pre"
  show "released_later w (full_name t) dd pk pre ev post"
    using push_released_later [OF opts, of w t s d] split new unfolding follows_def by blast
qed

text \<open>
  The claim as written fails for the staged object: when the import is rejected, the
  object that was uploaded is not deleted. The temporary file is removed.
\<close>

theorem staged_object_counterexample:
  "push import_down ''students'' students defaults (client_with ''DDB_old'' []) =
     (Inl (ChakraAPIError (JStr ''import failed'')
             (Some (500, JObj [(''error'', JStr ''import failed'')]))),
      client_with ''DDB_old''
        (students_table @ students_staged ''duckdb.main.students'' @
         [PostImport ''duckdb.main.students'' (JStr ''staged-key''),
          Cleanup (JStr ''/tmp/tmp-1.parquet'')])) \<and>
   AxiosPut (JStr ''https://bucket/upload'') (JStr ''/tmp/tmp-1.parquet'') (JNum (Finite 42)) \<in>
     set (trace (snd (push import_down ''students'' students defaults (client_with ''DDB_old'' [])))) \<and>
   DeleteFiles (JStr ''staged-key'') \<notin>
     set (trace (snd (push import_down ''students'' students defaults (client_with ''DDB_old'' []))))"
proof -
  have one: "Number_isInteger (Finite 1)"
    by code_simp
  have run: "push import_down ''students'' students defaults (client_with ''DDB_old'' []) =
     (Inl (ChakraAPIError (JStr ''import failed'')
             (Some (500, JObj [(''error'', JStr ''import failed'')]))),
      client_with ''DDB_old''
        (students_table @ students_staged ''duckdb.main.students'' @
         [PostImport ''duckdb.main.students'' (JStr ''staged-key''),
          Cleanup (JStr ''/tmp/tmp-1.parquet'')]))"
    using one
    by (simp add: run_simps students_def defaults_def students_staged_def students_table_def
        import_down_def del: Number_isInteger.simps(1))
  show ?thesis
    unfolding run by (simp add: client_with_def students_table_def students_staged_def)
qed

theorem resources_released_witness:
  "released import_down ''duckdb.main.students'' False [] students_table TmpFile
     (tl (students_staged ''duckdb.main.students'') @
      [PostImport ''duckdb.main.students'' (JStr ''staged-key''),
       Cleanup (JStr ''/tmp/tmp-1.parquet'')]) \<and>
   respond import_down students_table TmpFile = Resolve (JStr ''/tmp/tmp-1.parquet'') \<and>
   released import_down ''duckdb.main.students'' False []
     (students_table @ students_staged ''duckdb.main.students'')
     (PostImport ''duckdb.main.students'' (JStr ''staged-key''))
     [Cleanup (JStr ''/tmp/tmp-1.parquet'')] \<and>
   released accepting ''duckdb.main.students'' False []
     (students_table @ students_staged ''duckdb.main.students'')
     (PostImport ''duckdb.main.students'' (JStr ''staged-key''))
     [DeleteFiles (JStr ''staged-key''), Cleanup (JStr ''/tmp/tmp-1.parquet'')] \<and>
   released accepting ''duckdb.main.students'' False []
     (students_table @ students_staged ''duckdb.main.students'' @
      [PostImport ''duckdb.main.students'' (JStr ''staged-key'')])
     (DeleteFiles (JStr ''staged-key'')) [Cleanup (JStr ''/tmp/tmp-1.parquet'')]"
proof -
  let ?s = "client_with ''DDB_old'' []"
  let ?imp = "PostImport ''duckdb.main.students'' (JStr ''staged-key'')"
  let ?staged = "students_staged ''duckdb.main.students''"
  let ?clean = "Cleanup (JStr ''/tmp/tmp-1.parquet'')"
  have one: "Number_isInteger (Finite 1)"
    by code_simp
  have failed: "trace (snd (authenticated_push import_down ''students'' students defaults ?s)) =
      students_table @ ?staged @ [?imp, ?clean]"
    using one
    by (simp add: run_simps students_def defaults_def students_staged_def students_table_def
        import_down_def del: Number_isInteger.simps(1))
  have passed: "trace (snd (authenticated_push accepting ''students'' students defaults ?s)) =
      students_table @ ?staged @ [?imp, DeleteFiles (JStr ''staged-key''), ?clean]"
    using one
    by (simp add: run_simps students_def defaults_def students_staged_def students_table_def
        del: Number_isInteger.simps(1))
  have opts: "options_of defaults = (True, False, False, [])"
    by (simp add: options_of_def defaults_def or_default_def)
  have name: "full_name ''students'' = ''duckdb.main.students''"
    by (simp add: full_name_def)
  have old: "trace ?s = []"
    by (simp add: client_with_def)
  have tmp: "students_table @ ?staged @ [?imp, ?clean] =
      students_table @ TmpFile # (tl ?staged @ [?imp, ?clean])"
    by (simp add: students_staged_def)
  have made: "respond import_down students_table TmpFile = Resolve (JStr ''/tmp/tmp-1.parquet'')"
    by (simp add: import_down_def service_def)
  have r1: "released import_down ''duckdb.main.students'' False [] students_table TmpFile
      (tl ?staged @ [?imp, ?clean])"
    using resources_released [of defaults True False False "[]" import_down "''students''"
        students ?s students_table TmpFile "tl ?staged @ [?imp, ?clean]"]
      opts failed tmp old name
    by simp
  have r2: "released import_down ''duckdb.main.students'' False [] (students_table @ ?staged)
      ?imp [?clean]"
    using resources_released [of defaults True False False "[]" import_down "''students''"
        students ?s "students_table @ ?staged" ?imp "[?clean]"]
      opts failed old name
    by simp
  have r3: "released accepting ''duckdb.main.students'' False [] (students_table @ ?staged)
      ?imp [DeleteFiles (JStr ''staged-key''), ?clean]"
    using resources_released [of defaults True False False "[]" accepting "''students''"
        students ?s "students_table @ ?staged" ?imp "[DeleteFiles (JStr ''staged-key''), ?clean]"]
      opts passed old name
    by simp
  have r4: "released accepting ''duckdb.main.students'' False []
      (students_table @ ?staged @ [?imp]) (DeleteFiles (JStr ''staged-key'')) [?clean]"
    using resources_released [of defaults True False False "[]" accepting "''students''"
        students ?s "students_table @ ?staged @ [?imp]" "DeleteFiles (JStr ''staged-key'')"
        "[?clean]"]
      opts passed old name
    by simp
  show ?thesis
    using r1 r2 r3 r4 made by simp
qed

end
